theory Spec2Isabelle
  imports Complex_Main
begin

chapter \<open>tweettemp451: a shallow embedding of the temperature pipeline\<close>

text \<open>
  The program reads a stream of tweets, extracts a timestamp and coordinates from each
  (\<^verbatim>\<open>twitter.py\<close>), looks the temperature up (\<^verbatim>\<open>weather.py\<close>), and writes the
  temperatures and their sliding average to two files (\<^verbatim>\<open>pipeline.py\<close>).

  Every Python function that a property below is about is translated into a HOL function of
  the same name. An exception is a value: a function that can raise returns \<open>exn + 'a\<close>, with
  \<open>Inl\<close> for the exception that leaves the function. A loop over a channel is a recursion over
  the list of items the channel delivers; a task returns what it has sent together with the
  exception that ended it, if any.
\<close>

section \<open>Exceptions\<close>

datatype exn =
    IndexError
  | Overflow
  | InvalidOperation
  | DivisionByZero
  | AttributeError
  | TypeError
  | ValueError
  | OverflowError
  | ParserError
  | UnknownTimezoneWarning
  | UnboundLocalError
  | TransportError
  | HTTPStatusError
  | RetryError
  | BrokenResourceError
  | Cancelled

section \<open>Decimal arithmetic\<close>

text \<open>
  Temperatures, the running sum and the averages are \<^verbatim>\<open>decimal.Decimal\<close> values: a finite
  number, an infinity, a quiet NaN or a signalling NaN. A finite decimal is kept as the
  rational it stands for; its trailing zeros and the sign of a zero, which no result of the
  arithmetic depends on, are not kept.

  The program never changes the context of the decimal module, so every operation returns
  the exact result rounded to 28 significant digits, ties to even, with the last digit never
  below \<open>10 ^ Etiny\<close>, and raises \<^verbatim>\<open>Overflow\<close> when the rounded result needs an exponent
  above \<open>Emax\<close>. Of the signals of the module, the default context traps
  \<^verbatim>\<open>InvalidOperation\<close>, \<^verbatim>\<open>DivisionByZero\<close> and \<^verbatim>\<open>Overflow\<close>: these raise. Rounding,
  underflow and clamping only set a flag.
\<close>

datatype decimal = Fin rat | PosInfinity | NegInfinity | QNaN | SNaN

definition Emax :: int where
  "Emax = 999999"

definition Emin :: int where
  "Emin = - 999999"

definition Etiny :: int where
  "Etiny = Emin - 28 + 1"

text \<open>The number of decimal digits of a positive integer.\<close>

function ndigits :: "int \<Rightarrow> nat" where
  "ndigits n = (if n < 10 then 1 else Suc (ndigits (n div 10)))"
  by pat_completeness auto
termination
  by (relation "measure nat") auto

declare ndigits.simps [simp del]

definition pow10 :: "int \<Rightarrow> rat" where
  "pow10 e = (if 0 \<le> e then 10 ^ nat e else 1 / 10 ^ nat (- e))"

text \<open>Rounding a non-negative rational to an integer, ties to the even neighbour.\<close>

definition round_half_even :: "rat \<Rightarrow> int" where
  "round_half_even x =
     (let f = \<lfloor>x\<rfloor>; r = x - of_int f
      in if r < 1 / 2 then f else if 1 / 2 < r then f + 1 else if even f then f else f + 1)"

text \<open>
  The exponent of the 28th significant digit of a positive \<open>x\<close>: the \<open>e\<close> with
  \<open>10 ^ 27 \<le> x / 10 ^ e < 10 ^ 28\<close>. The digit count of the integer part (or of the integer
  part of the inverse, below one) places \<open>e\<close> within one of its value, and the comparison
  settles it.
\<close>

definition dec_exponent :: "rat \<Rightarrow> int" where
  "dec_exponent x =
     (let e0 = (if 1 \<le> x then int (ndigits \<lfloor>x\<rfloor>) - 28
                else - int (ndigits \<lfloor>1 / x\<rfloor>) - 27)
      in if x < 10 ^ 28 * pow10 e0 then e0 else e0 + 1)"

text \<open>
  \<open>dec_round\<close> is the rounding of an exact result: to the 28th significant digit, or to the
  digit of exponent \<open>Etiny\<close> where that is coarser (a subnormal result). \<open>dec_fix\<close> is
  \<^verbatim>\<open>Decimal._fix\<close>, the last step of every operation: it raises \<^verbatim>\<open>Overflow\<close> when the
  first digit of the rounded result has an exponent above \<open>Emax\<close>.
\<close>

definition dec_round :: "rat \<Rightarrow> rat" where
  "dec_round x =
     (if x = 0 then 0
      else let e = max (dec_exponent \<bar>x\<bar>) Etiny
           in sgn x * of_int (round_half_even (\<bar>x\<bar> / pow10 e)) * pow10 e)"

definition dec_fix :: "rat \<Rightarrow> exn + decimal" where
  "dec_fix x =
     (let r = dec_round x
      in if r \<noteq> 0 \<and> Emax < dec_exponent \<bar>r\<bar> + 27 then Inl Overflow else Inr (Fin r))"

text \<open>
  \<^verbatim>\<open>a + b\<close>, \<^verbatim>\<open>a - b\<close> and \<^verbatim>\<open>a / b\<close> on Decimal. A signalling NaN raises
  \<^verbatim>\<open>InvalidOperation\<close>, as do the sum of two infinities of opposite sign, the quotient of two
  infinities and \<^verbatim>\<open>0 / 0\<close>; a quiet NaN gives a quiet NaN. The equations are tried in the
  order they are written in.
\<close>

fun dec_add :: "decimal \<Rightarrow> decimal \<Rightarrow> exn + decimal" where
  "dec_add (Fin x) (Fin y) = dec_fix (x + y)"
| "dec_add SNaN b = Inl InvalidOperation"
| "dec_add a SNaN = Inl InvalidOperation"
| "dec_add QNaN b = Inr QNaN"
| "dec_add a QNaN = Inr QNaN"
| "dec_add PosInfinity NegInfinity = Inl InvalidOperation"
| "dec_add NegInfinity PosInfinity = Inl InvalidOperation"
| "dec_add PosInfinity b = Inr PosInfinity"
| "dec_add NegInfinity b = Inr NegInfinity"
| "dec_add (Fin x) b = Inr b"

fun copy_negate :: "decimal \<Rightarrow> decimal" where
  "copy_negate (Fin x) = Fin (- x)"
| "copy_negate PosInfinity = NegInfinity"
| "copy_negate NegInfinity = PosInfinity"
| "copy_negate QNaN = QNaN"
| "copy_negate SNaN = SNaN"

definition dec_sub :: "decimal \<Rightarrow> decimal \<Rightarrow> exn + decimal" where
  "dec_sub a b = dec_add a (copy_negate b)"

fun dec_div :: "decimal \<Rightarrow> decimal \<Rightarrow> exn + decimal" where
  "dec_div (Fin x) (Fin y) =
     (if y = 0 then (if x = 0 then Inl InvalidOperation else Inl DivisionByZero)
      else dec_fix (x / y))"
| "dec_div SNaN b = Inl InvalidOperation"
| "dec_div a SNaN = Inl InvalidOperation"
| "dec_div QNaN b = Inr QNaN"
| "dec_div a QNaN = Inr QNaN"
| "dec_div (Fin x) b = Inr (Fin 0)"
| "dec_div PosInfinity (Fin y) = Inr (if 0 \<le> y then PosInfinity else NegInfinity)"
| "dec_div NegInfinity (Fin y) = Inr (if 0 \<le> y then NegInfinity else PosInfinity)"
| "dec_div PosInfinity PosInfinity = Inl InvalidOperation"
| "dec_div PosInfinity NegInfinity = Inl InvalidOperation"
| "dec_div NegInfinity PosInfinity = Inl InvalidOperation"
| "dec_div NegInfinity NegInfinity = Inl InvalidOperation"

text \<open>
  A value with at most \<open>k\<close> digits after the decimal point, and a value that a window of
  \<open>window_size\<close> such values can sum without leaving 28 digits.
\<close>

definition frac_digits :: "nat \<Rightarrow> rat \<Rightarrow> bool" where
  "frac_digits k v \<longleftrightarrow> of_int \<lfloor>v * 10 ^ k\<rfloor> = v * 10 ^ k"

definition fits :: "nat \<Rightarrow> nat \<Rightarrow> rat \<Rightarrow> bool" where
  "fits window_size k v \<longleftrightarrow>
     frac_digits k v \<and> \<bar>v\<bar> * of_nat window_size * 10 ^ k < 10 ^ 28"

section \<open>Channels (\<^verbatim>\<open>trio.open_memory_channel\<close>)\<close>

text \<open>
  The sending end of a channel, seen from the sending task: what has been delivered, and
  the send that raises instead of delivering, if there is one. \<open>raises_at = Some (n, e)\<close>
  says that the send attempted after \<open>n\<close> deliveries raises \<open>e\<close>: \<^verbatim>\<open>BrokenResourceError\<close>
  when the receiver has closed its end by then, \<^verbatim>\<open>Cancelled\<close> when the task is cancelled
  at that send, which is a checkpoint. A send that raises delivers nothing.
\<close>

record 'a channel =
  raises_at :: "(nat \<times> exn) option"
  delivered :: "'a list"

definition open_channel :: "(nat \<times> exn) option \<Rightarrow> 'a channel" where
  "open_channel r = \<lparr>raises_at = r, delivered = []\<rparr>"

definition send :: "'a channel \<Rightarrow> 'a \<Rightarrow> exn + 'a channel" where
  "send ch x =
     (case raises_at ch of
        None \<Rightarrow> Inr (ch\<lparr>delivered := delivered ch @ [x]\<rparr>)
      | Some (n, e) \<Rightarrow>
          if length (delivered ch) = n then Inl e
          else Inr (ch\<lparr>delivered := delivered ch @ [x]\<rparr>))"

section \<open>The sliding average (\<^verbatim>\<open>pipeline.compute_sliding_average\<close>)\<close>

text \<open>
  The local variables of \<^verbatim>\<open>compute_sliding_average\<close>. \<open>count\<close> is a Decimal in the source
  that only ever holds the integers from 0 to the window size, so it is a natural number
  here; the field \<open>total_sum\<close> is the source's \<^verbatim>\<open>total\<close>. The window size is an integer
  from 2 to 100 on the command line (\<^verbatim>\<open>main.parse_args\<close>).
\<close>

record window_state =
  buffer :: "decimal list"
  count :: nat
  current :: nat
  total_sum :: decimal

definition initial_state :: "nat \<Rightarrow> window_state" where
  "initial_state window_size =
     \<lparr>buffer = replicate window_size (Fin 0), count = 0, current = 0, total_sum = Fin 0\<rparr>"

text \<open>
  One iteration of the loop body, up to the value that is sent: the new state and the
  average. Reading or writing \<^verbatim>\<open>buffer[current]\<close> outside the list raises, and so may
  each of the three operations on Decimal.
\<close>

definition update :: "nat \<Rightarrow> window_state \<Rightarrow> decimal \<Rightarrow> exn + (window_state \<times> decimal)" where
  "update window_size s temperature =
     (if length (buffer s) \<le> current s then Inl IndexError
      else
        case (if count s = window_size
              then dec_sub (total_sum s) (buffer s ! current s) else Inr (total_sum s)) of
          Inl e \<Rightarrow> Inl e
        | Inr total1 \<Rightarrow>
            (case dec_add total1 temperature of
               Inl e \<Rightarrow> Inl e
             | Inr total2 \<Rightarrow>
                 (let buffer' = (buffer s)[current s := temperature];
                      current' = (current s + 1) mod window_size;
                      count' = (if count s \<noteq> window_size then count s + 1 else count s)
                  in (case dec_div total2 (Fin (of_nat count')) of
                        Inl e \<Rightarrow> Inl e
                      | Inr average \<Rightarrow>
                          Inr (\<lparr>buffer = buffer', count = count', current = current',
                                 total_sum = total2\<rparr>,
                               average)))))"

text \<open>
  The loop over the received \<open>(timestamp, temperature)\<close> pairs, which ends when the
  receiving channel does: with the exception \<open>ending\<close> if the last receive raises one
  (\<^verbatim>\<open>Cancelled\<close>), else normally. The result is the channel the averages are sent to and
  the exception that ended the loop, if any.
\<close>

fun sliding_loop ::
  "nat \<Rightarrow> window_state \<Rightarrow> ('t \<times> decimal) list \<Rightarrow> exn option \<Rightarrow> ('t \<times> decimal) channel \<Rightarrow>
     ('t \<times> decimal) channel \<times> exn option" where
  "sliding_loop window_size s [] ending send_average = (send_average, ending)"
| "sliding_loop window_size s ((timestamp, temperature) # rest) ending send_average =
     (case update window_size s temperature of
        Inl e \<Rightarrow> (send_average, Some e)
      | Inr (s', average) \<Rightarrow>
          (case send send_average (timestamp, average) of
             Inl e \<Rightarrow> (send_average, Some e)
           | Inr send_average' \<Rightarrow> sliding_loop window_size s' rest ending send_average'))"

definition compute_sliding_average ::
  "nat \<Rightarrow> ('t \<times> decimal) list \<Rightarrow> exn option \<Rightarrow> ('t \<times> decimal) channel \<Rightarrow>
     ('t \<times> decimal) channel \<times> exn option" where
  "compute_sliding_average window_size received ending send_average =
     sliding_loop window_size (initial_state window_size) received ending send_average"

text \<open>The state of the loop after the given temperatures.\<close>

fun window_states :: "nat \<Rightarrow> window_state \<Rightarrow> decimal list \<Rightarrow> exn + window_state" where
  "window_states window_size s [] = Inr s"
| "window_states window_size s (temperature # rest) =
     (case update window_size s temperature of
        Inl e \<Rightarrow> Inl e
      | Inr (s', average) \<Rightarrow> window_states window_size s' rest)"

text \<open>
  The reference the loop is compared with: the mean of the last \<open>min n window_size\<close> of
  \<open>n\<close> values, and, for every prefix of the input, that mean rounded as one Decimal
  division rounds it. \<open>finite_value\<close> is the number a finite Decimal stands for.
\<close>

fun finite_value :: "decimal \<Rightarrow> rat" where
  "finite_value (Fin x) = x"
| "finite_value _ = 0"

fun is_finite :: "decimal \<Rightarrow> bool" where
  "is_finite (Fin x) = True"
| "is_finite _ = False"

definition window_mean :: "nat \<Rightarrow> rat list \<Rightarrow> rat" where
  "window_mean window_size xs =
     sum_list (take window_size (rev xs)) / of_nat (min (length xs) window_size)"

definition naive_sliding_average :: "nat \<Rightarrow> ('t \<times> decimal) list \<Rightarrow> ('t \<times> decimal) list" where
  "naive_sliding_average window_size received =
     map (\<lambda>i. (fst (received ! i),
               Fin (dec_round (window_mean window_size
                      (map (finite_value \<circ> snd) (take (Suc i) received))))))
       [0..<length received]"

text \<open>
  The \<open>count\<close> most recently written slots of the buffer, newest first: the slot before
  the cursor, the one before that, and so on around the ring.
\<close>

definition recent_values :: "nat \<Rightarrow> window_state \<Rightarrow> decimal list" where
  "recent_values window_size s =
     map (\<lambda>i. buffer s ! ((current s + window_size - Suc i) mod window_size)) [0..<count s]"

text \<open>
  The invariant of the loop that ties the state to the inputs \<open>seen\<close> so far; it holds as
  long as every input is finite and no sum was rounded.
\<close>

definition tracks :: "nat \<Rightarrow> rat list \<Rightarrow> window_state \<Rightarrow> bool" where
  "tracks window_size seen s \<longleftrightarrow>
     length (buffer s) = window_size \<and>
     count s = min (length seen) window_size \<and>
     current s = length seen mod window_size \<and>
     total_sum s = Fin (sum_list (take window_size (rev seen))) \<and>
     (\<forall>i < length seen. length seen - i \<le> window_size \<longrightarrow>
        buffer s ! (i mod window_size) = Fin (seen ! i))"

text \<open>The inputs the exact-sum properties are about: finite decimals that fit.\<close>

definition fits_window :: "nat \<Rightarrow> nat \<Rightarrow> decimal \<Rightarrow> bool" where
  "fits_window window_size k temperature \<longleftrightarrow>
     is_finite temperature \<and> fits window_size k (finite_value temperature)"

section \<open>Decoded JSON and floats\<close>

text \<open>
  What \<^verbatim>\<open>json.loads\<close> returns: \<^verbatim>\<open>None\<close>, a bool, an int, a float, a str, a list or a dict.
  A dict is the list of its items. \<open>JReal\<close> is a finite number written with a fraction or an
  exponent: a Python float in a tweet, and a Decimal in a weather response, which is decoded
  with \<^verbatim>\<open>parse_float=decimal.Decimal\<close>. \<open>JNonFinite\<close> is one of the floats \<^verbatim>\<open>inf\<close>,
  \<^verbatim>\<open>-inf\<close> and \<^verbatim>\<open>nan\<close>, which the decoder returns for \<^verbatim>\<open>Infinity\<close>, \<^verbatim>\<open>-Infinity\<close> and
  \<^verbatim>\<open>NaN\<close> and for a number too large for a float. A finite float is kept as the rational it
  stands for; the sign of a zero is not kept.
\<close>

datatype nonfinite = PosInf | NegInf | NaN

datatype pyfloat = Float rat | NonFinite nonfinite

datatype json =
    JNull
  | JBool bool
  | JInt int
  | JReal rat
  | JNonFinite nonfinite
  | JStr string
  | JArr "json list"
  | JObj "(string \<times> json) list"

text \<open>The truth value of an object, as \<^verbatim>\<open>if x\<close> and \<^verbatim>\<open>not x\<close> take it.\<close>

fun truthy :: "json \<Rightarrow> bool" where
  "truthy JNull = False"
| "truthy (JBool b) = b"
| "truthy (JInt i) = (i \<noteq> 0)"
| "truthy (JReal r) = (r \<noteq> 0)"
| "truthy (JNonFinite n) = True"
| "truthy (JStr s) = (s \<noteq> [])"
| "truthy (JArr xs) = (xs \<noteq> [])"
| "truthy (JObj kvs) = (kvs \<noteq> [])"

fun is_dict :: "json \<Rightarrow> bool" where
  "is_dict (JObj kvs) = True"
| "is_dict _ = False"

text \<open>\<^verbatim>\<open>x.get(key, default)\<close>: only a dict has the method.\<close>

fun dict_get :: "json \<Rightarrow> string \<Rightarrow> json \<Rightarrow> exn + json" where
  "dict_get (JObj kvs) key dflt =
     Inr (case map_of kvs key of Some v \<Rightarrow> v | None \<Rightarrow> dflt)"
| "dict_get _ key dflt = Inl AttributeError"

text \<open>
  Arithmetic on floats rounds the exact result to the nearest double, ties to even:
  53 significant bits, the last bit never below \<open>2 ^ - 1074\<close>, and an infinity when the
  rounded result reaches \<open>2 ^ 1024\<close>, that is, when its 53rd bit has an exponent above
  971. \<open>bin_exponent\<close> is the exponent of the 53rd significant bit of a positive \<open>x\<close>, the
  \<open>e\<close> with \<open>2 ^ 52 \<le> x / 2 ^ e < 2 ^ 53\<close>.
\<close>

function nbits :: "int \<Rightarrow> nat" where
  "nbits n = (if n < 2 then 1 else Suc (nbits (n div 2)))"
  by pat_completeness auto
termination
  by (relation "measure nat") auto

declare nbits.simps [simp del]

definition pow2 :: "int \<Rightarrow> rat" where
  "pow2 e = (if 0 \<le> e then 2 ^ nat e else 1 / 2 ^ nat (- e))"

definition bin_exponent :: "rat \<Rightarrow> int" where
  "bin_exponent x =
     (let e0 = (if 1 \<le> x then int (nbits \<lfloor>x\<rfloor>) - 53
                else - int (nbits \<lfloor>1 / x\<rfloor>) - 52)
      in if x < 2 ^ 53 * pow2 e0 then e0 else e0 + 1)"

definition round_double :: "rat \<Rightarrow> pyfloat" where
  "round_double x =
     (if x = 0 then Float 0
      else let e = max (bin_exponent \<bar>x\<bar>) (- 1074);
               r = sgn x * of_int (round_half_even (\<bar>x\<bar> / pow2 e)) * pow2 e
           in if r \<noteq> 0 \<and> 971 < bin_exponent \<bar>r\<bar>
              then NonFinite (if 0 < x then PosInf else NegInf)
              else Float r)"

text \<open>
  The conversion of an int to a float rounds in the same way, and raises
  \<^verbatim>\<open>OverflowError\<close> (\<^verbatim>\<open>int too large to convert to float\<close>) where the rounding would give
  an infinity.
\<close>

definition float_of_int :: "int \<Rightarrow> exn + pyfloat" where
  "float_of_int i =
     (case round_double (of_int i) of
        NonFinite n \<Rightarrow> Inl OverflowError
      | Float r \<Rightarrow> Inr (Float r))"

fun float_add :: "pyfloat \<Rightarrow> pyfloat \<Rightarrow> pyfloat" where
  "float_add (Float x) (Float y) = round_double (x + y)"
| "float_add (NonFinite NaN) b = NonFinite NaN"
| "float_add a (NonFinite NaN) = NonFinite NaN"
| "float_add (NonFinite PosInf) (NonFinite NegInf) = NonFinite NaN"
| "float_add (NonFinite NegInf) (NonFinite PosInf) = NonFinite NaN"
| "float_add (NonFinite n) b = NonFinite n"
| "float_add a (NonFinite n) = NonFinite n"

fun float_halve :: "pyfloat \<Rightarrow> pyfloat" where
  "float_halve (Float x) = round_double (x / 2)"
| "float_halve (NonFinite n) = NonFinite n"

text \<open>
  \<^verbatim>\<open>float(x)\<close>. The conversion of a string is a parameter, \<open>float_of_str\<close>, which is
  \<open>None\<close> where Python raises \<^verbatim>\<open>ValueError\<close>.
\<close>

fun py_float :: "(string \<Rightarrow> pyfloat option) \<Rightarrow> json \<Rightarrow> exn + pyfloat" where
  "py_float float_of_str (JInt i) = float_of_int i"
| "py_float float_of_str (JReal r) = Inr (Float r)"
| "py_float float_of_str (JNonFinite n) = Inr (NonFinite n)"
| "py_float float_of_str (JBool b) = Inr (Float (if b then 1 else 0))"
| "py_float float_of_str (JStr s) =
     (case float_of_str s of Some f \<Rightarrow> Inr f | None \<Rightarrow> Inl ValueError)"
| "py_float float_of_str _ = Inl TypeError"

text \<open>
  \<^verbatim>\<open>a + b\<close> and \<^verbatim>\<open>x / 2.0\<close> on decoded values. A bool counts as the int 0 or 1. The sum of
  two ints is an int, and exact; in every other sum of numbers, and in the division, an int
  is first converted to a float.
\<close>

datatype number = PyInt int | PyFloat pyfloat

fun number_of :: "json \<Rightarrow> number option" where
  "number_of (JInt i) = Some (PyInt i)"
| "number_of (JBool b) = Some (PyInt (if b then 1 else 0))"
| "number_of (JReal r) = Some (PyFloat (Float r))"
| "number_of (JNonFinite n) = Some (PyFloat (NonFinite n))"
| "number_of _ = None"

fun json_of_float :: "pyfloat \<Rightarrow> json" where
  "json_of_float (Float r) = JReal r"
| "json_of_float (NonFinite n) = JNonFinite n"

fun to_float :: "number \<Rightarrow> exn + pyfloat" where
  "to_float (PyInt i) = float_of_int i"
| "to_float (PyFloat f) = Inr f"

fun number_add :: "number \<Rightarrow> number \<Rightarrow> exn + json" where
  "number_add (PyInt i) (PyInt j) = Inr (JInt (i + j))"
| "number_add a b =
     (case to_float a of
        Inl e \<Rightarrow> Inl e
      | Inr x \<Rightarrow>
          (case to_float b of
             Inl e \<Rightarrow> Inl e
           | Inr y \<Rightarrow> Inr (json_of_float (float_add x y))))"

fun py_add :: "json \<Rightarrow> json \<Rightarrow> exn + json" where
  "py_add (JStr s) (JStr t) = Inr (JStr (s @ t))"
| "py_add (JArr xs) (JArr ys) = Inr (JArr (xs @ ys))"
| "py_add a b =
     (case (number_of a, number_of b) of
        (Some m, Some n) \<Rightarrow> number_add m n
      | _ \<Rightarrow> Inl TypeError)"

definition halve :: "json \<Rightarrow> exn + pyfloat" where
  "halve x =
     (case number_of x of
        None \<Rightarrow> Inl TypeError
      | Some n \<Rightarrow>
          (case to_float n of
             Inl e \<Rightarrow> Inl e
           | Inr f \<Rightarrow> Inr (float_halve f)))"

text \<open>The items a \<^verbatim>\<open>for\<close> loop or \<^verbatim>\<open>map\<close> takes from an object.\<close>

fun py_iter :: "json \<Rightarrow> exn + json list" where
  "py_iter (JArr xs) = Inr xs"
| "py_iter (JObj kvs) = Inr (map (\<lambda>kv. JStr (fst kv)) kvs)"
| "py_iter (JStr s) = Inr (map (\<lambda>c. JStr [c]) s)"
| "py_iter _ = Inl TypeError"

section \<open>Feature extraction (\<^verbatim>\<open>twitter.TweetTransformer\<close>)\<close>

record coordinates =
  longitude :: pyfloat
  latitude :: pyfloat

text \<open>
  The first \<^verbatim>\<open>try\<close> of \<^verbatim>\<open>extract_coordinates_from_geo\<close>, on the value of
  \<^verbatim>\<open>coordinates\<close>: \<open>Inr (Some c)\<close> is returned, \<open>Inr None\<close> goes on to the bounding box,
  \<open>Inl e\<close> leaves the function. The handler catches \<^verbatim>\<open>ValueError\<close> and \<^verbatim>\<open>TypeError\<close>.
\<close>

definition caught_conversion :: "exn \<Rightarrow> exn + coordinates option" where
  "caught_conversion e = (if e = ValueError \<or> e = TypeError then Inr None else Inl e)"

fun point_of_coordinates ::
  "(string \<Rightarrow> pyfloat option) \<Rightarrow> json \<Rightarrow> exn + coordinates option" where
  "point_of_coordinates float_of_str (JArr cs) =
     (if length cs = 2 \<or> length cs = 3
      then (case py_float float_of_str (cs ! 0) of
              Inl e \<Rightarrow> caught_conversion e
            | Inr lon \<Rightarrow>
                (case py_float float_of_str (cs ! 1) of
                   Inl e \<Rightarrow> caught_conversion e
                 | Inr lat \<Rightarrow> Inr (Some \<lparr>longitude = lon, latitude = lat\<rparr>)))
      else Inr None)"
| "point_of_coordinates float_of_str _ = Inr None"

text \<open>
  The second \<^verbatim>\<open>try\<close>, on the value of \<^verbatim>\<open>bbox\<close>. Its handler, \<^verbatim>\<open>except TypeError:\<close>,
  binds no name and then reads \<^verbatim>\<open>ex\<close>, a local variable of the function that is unbound
  there (the first handler's \<^verbatim>\<open>as ex\<close> unbinds it on leaving): a \<^verbatim>\<open>TypeError\<close> in the
  arithmetic becomes an \<^verbatim>\<open>UnboundLocalError\<close> that leaves the function.
\<close>

definition midpoint :: "json \<Rightarrow> json \<Rightarrow> exn + pyfloat" where
  "midpoint a b = (case py_add a b of Inl e \<Rightarrow> Inl e | Inr s \<Rightarrow> halve s)"

definition bbox_handler :: "exn \<Rightarrow> exn + coordinates option" where
  "bbox_handler e = (if e = TypeError then Inl UnboundLocalError else Inl e)"

fun point_of_bbox :: "json \<Rightarrow> exn + coordinates option" where
  "point_of_bbox (JArr bs) =
     (if length bs = 4 \<or> length bs = 6
      then (case midpoint (bs ! 0) (bs ! 2) of
              Inl e \<Rightarrow> bbox_handler e
            | Inr lon \<Rightarrow>
                (case midpoint (bs ! 1) (bs ! 3) of
                   Inl e \<Rightarrow> bbox_handler e
                 | Inr lat \<Rightarrow> Inr (Some \<lparr>longitude = lon, latitude = lat\<rparr>)))
      else Inr None)"
| "point_of_bbox _ = Inr None"

text \<open>The value the first \<^verbatim>\<open>try\<close> looks at: \<^verbatim>\<open>geo['coordinates']\<close>, or the
  \<^verbatim>\<open>coordinates\<close> inside it when it is a dict (a GeoJSON point).\<close>

definition coordinates_entry :: "json \<Rightarrow> exn + json" where
  "coordinates_entry geo =
     (case dict_get geo ''coordinates'' JNull of
        Inl e \<Rightarrow> Inl e
      | Inr c \<Rightarrow> if is_dict c then dict_get c ''coordinates'' JNull else Inr c)"

definition extract_coordinates_from_geo ::
  "(string \<Rightarrow> pyfloat option) \<Rightarrow> json \<Rightarrow> exn + coordinates option" where
  "extract_coordinates_from_geo float_of_str geo =
     (if \<not> truthy geo then Inr None
      else case coordinates_entry geo of
             Inl e \<Rightarrow> Inl e
           | Inr c \<Rightarrow>
               (case point_of_coordinates float_of_str c of
                  Inl e \<Rightarrow> Inl e
                | Inr (Some p) \<Rightarrow> Inr (Some p)
                | Inr None \<Rightarrow>
                    (case dict_get geo ''bbox'' JNull of
                       Inl e \<Rightarrow> Inl e
                     | Inr bbox \<Rightarrow> point_of_bbox bbox)))"

text \<open>
  \<^verbatim>\<open>get_coordinates\<close>. The list \<^verbatim>\<open>geos\<close> is built in full, so every place is asked for
  its \<^verbatim>\<open>geo\<close>; \<^verbatim>\<open>next\<close> then stops at the first one that resolves.
\<close>

fun place_geos :: "json list \<Rightarrow> exn + json list" where
  "place_geos [] = Inr []"
| "place_geos (place # places) =
     (case dict_get place ''geo'' JNull of
        Inl e \<Rightarrow> Inl e
      | Inr g \<Rightarrow>
          (case place_geos places of
             Inl e \<Rightarrow> Inl e
           | Inr gs \<Rightarrow> Inr (if truthy g then g # gs else gs)))"

fun first_resolved :: "(string \<Rightarrow> pyfloat option) \<Rightarrow> json list \<Rightarrow> exn + coordinates option" where
  "first_resolved float_of_str [] = Inr None"
| "first_resolved float_of_str (g # gs) =
     (case extract_coordinates_from_geo float_of_str g of
        Inl e \<Rightarrow> Inl e
      | Inr (Some p) \<Rightarrow> Inr (Some p)
      | Inr None \<Rightarrow> first_resolved float_of_str gs)"

definition get_coordinates :: "(string \<Rightarrow> pyfloat option) \<Rightarrow> json \<Rightarrow> exn + coordinates option" where
  "get_coordinates float_of_str tweet =
     (case dict_get tweet ''data'' (JObj []) of
        Inl e \<Rightarrow> Inl e
      | Inr data \<Rightarrow>
     (case dict_get data ''geo'' (JObj []) of
        Inl e \<Rightarrow> Inl e
      | Inr geo \<Rightarrow>
     (case extract_coordinates_from_geo float_of_str geo of
        Inl e \<Rightarrow> Inl e
      | Inr (Some p) \<Rightarrow> Inr (Some p)
      | Inr None \<Rightarrow>
     (case dict_get tweet ''includes'' (JObj []) of
        Inl e \<Rightarrow> Inl e
      | Inr includes \<Rightarrow>
     (case dict_get includes ''places'' (JArr []) of
        Inl e \<Rightarrow> Inl e
      | Inr places \<Rightarrow>
     (case py_iter places of
        Inl e \<Rightarrow> Inl e
      | Inr ps \<Rightarrow>
     (case place_geos ps of
        Inl e \<Rightarrow> Inl e
      | Inr geos \<Rightarrow> first_resolved float_of_str geos)))))))"

text \<open>
  A parsed timestamp, a \<^verbatim>\<open>datetime.datetime\<close>; \<open>utcoffset\<close> is \<open>None\<close> for a naive one,
  else the offset from UTC in seconds. The parser, \<^verbatim>\<open>dateutil.parser.isoparse\<close>, is a
  parameter: \<open>Inl e\<close> where it raises \<open>e\<close>. \<^verbatim>\<open>get_timestamp\<close> catches \<^verbatim>\<open>ParserError\<close>,
  \<^verbatim>\<open>UnknownTimezoneWarning\<close> and \<^verbatim>\<open>OverflowError\<close>.
\<close>

record datetime =
  year :: nat
  month :: nat
  day :: nat
  hour :: nat
  minute :: nat
  second :: nat
  microsecond :: nat
  utcoffset :: "int option"

definition created_at_field :: "json \<Rightarrow> exn + json" where
  "created_at_field tweet =
     (case dict_get tweet ''data'' (JObj []) of
        Inl e \<Rightarrow> Inl e
      | Inr data \<Rightarrow> dict_get data ''created_at'' JNull)"

text \<open>
  The dict that \<^verbatim>\<open>tweet.get('data', {})\<close> gives when the tweet is a dict whose \<^verbatim>\<open>data\<close>
  is a dict or is missing; \<open>None\<close> for every other tweet.
\<close>

definition data_object :: "json \<Rightarrow> (string \<times> json) list option" where
  "data_object tweet =
     (case tweet of
        JObj kvs \<Rightarrow>
          (case map_of kvs ''data'' of
             None \<Rightarrow> Some []
           | Some (JObj d) \<Rightarrow> Some d
           | Some _ \<Rightarrow> None)
      | _ \<Rightarrow> None)"

definition parse_caught :: "exn \<Rightarrow> bool" where
  "parse_caught e \<longleftrightarrow> e = ParserError \<or> e = UnknownTimezoneWarning \<or> e = OverflowError"

definition get_timestamp :: "(string \<Rightarrow> exn + datetime) \<Rightarrow> json \<Rightarrow> exn + datetime option" where
  "get_timestamp isoparse tweet =
     (case created_at_field tweet of
        Inl e \<Rightarrow> Inl e
      | Inr (JStr created_at) \<Rightarrow>
          (case isoparse created_at of
             Inl e \<Rightarrow> if parse_caught e then Inr None else Inl e
           | Inr timestamp \<Rightarrow> Inr (Some timestamp))
      | Inr _ \<Rightarrow> Inr None)"

text \<open>
  \<^verbatim>\<open>pipeline.extract_time_and_coordinates\<close>. A received line is given as what
  \<^verbatim>\<open>parse_tweet\<close> makes of it: \<open>None\<close> when it does not decode or is not a dict. An
  empty dict is skipped as well (\<^verbatim>\<open>if not tweet\<close>). The loop ends when the receiving
  channel does, with the exception \<open>ending\<close> if the last receive raises one. The result is
  the channel the pairs are sent to and the exception that ended the loop, if any.
\<close>

fun extract_time_and_coordinates ::
  "(string \<Rightarrow> exn + datetime) \<Rightarrow> (string \<Rightarrow> pyfloat option) \<Rightarrow> json option list \<Rightarrow>
     exn option \<Rightarrow> (datetime \<times> coordinates) channel \<Rightarrow>
     (datetime \<times> coordinates) channel \<times> exn option" where
  "extract_time_and_coordinates isoparse float_of_str [] ending send_location =
     (send_location, ending)"
| "extract_time_and_coordinates isoparse float_of_str (None # rest) ending send_location =
     extract_time_and_coordinates isoparse float_of_str rest ending send_location"
| "extract_time_and_coordinates isoparse float_of_str (Some tweet # rest) ending send_location =
     (if \<not> truthy tweet
      then extract_time_and_coordinates isoparse float_of_str rest ending send_location
      else
        case get_timestamp isoparse tweet of
          Inl e \<Rightarrow> (send_location, Some e)
        | Inr None \<Rightarrow>
            extract_time_and_coordinates isoparse float_of_str rest ending send_location
        | Inr (Some timestamp) \<Rightarrow>
            (case get_coordinates float_of_str tweet of
               Inl e \<Rightarrow> (send_location, Some e)
             | Inr None \<Rightarrow>
                 extract_time_and_coordinates isoparse float_of_str rest ending send_location
             | Inr (Some coords) \<Rightarrow>
                 (case send send_location (timestamp, coords) of
                    Inl e \<Rightarrow> (send_location, Some e)
                  | Inr send_location' \<Rightarrow>
                      extract_time_and_coordinates isoparse float_of_str rest ending
                        send_location')))"

text \<open>
  Two strings and what \<^verbatim>\<open>isoparse\<close> returns for them, for the examples: a timestamp with an
  offset and the same without. Every other string is outside this table and is given as
  \<^verbatim>\<open>ValueError\<close>, which is what \<^verbatim>\<open>isoparse\<close> raises for a string it cannot read.
\<close>

definition isoparse_sample :: "string \<Rightarrow> exn + datetime" where
  "isoparse_sample s =
     (if s = ''2021-03-01T12:00:00+00:00''
      then Inr \<lparr>year = 2021, month = 3, day = 1, hour = 12, minute = 0, second = 0,
                microsecond = 0, utcoffset = Some 0\<rparr>
      else if s = ''2021-03-01T12:00:00''
      then Inr \<lparr>year = 2021, month = 3, day = 1, hour = 12, minute = 0, second = 0,
                microsecond = 0, utcoffset = None\<rparr>
      else Inl ValueError)"

text \<open>A conversion of strings to floats for the examples, which hold no string that is a
  number: it rejects every string.\<close>

definition float_of_str_sample :: "string \<Rightarrow> pyfloat option" where
  "float_of_str_sample s = None"

section \<open>The retry policy (\<^verbatim>\<open>tenacity.retry\<close>)\<close>

text \<open>
  Both clients decorate a method with
  \<^verbatim>\<open>retry(wait=wait_exponential(min=1, max=10), stop=stop_after_attempt(5),
  retry=retry_if_exception_type(httpx.TransportError))\<close>.
  \<open>wait_exponential\<close> is the wait after the attempt of the given number (counted from 1):
  \<^verbatim>\<open>max(max(0, min), min(multiplier * exp_base ** (attempt_number - 1), max))\<close> with
  multiplier 1 and base 2.
\<close>

definition wait_exponential :: "nat \<Rightarrow> rat" where
  "wait_exponential attempt_number = max (max 0 1) (min (1 * 2 ^ (attempt_number - 1)) 10)"

definition stop_after_attempt :: "nat \<Rightarrow> bool" where
  "stop_after_attempt attempt_number \<longleftrightarrow> 5 \<le> attempt_number"

definition retry_if_exception_type :: "exn \<Rightarrow> bool" where
  "retry_if_exception_type e \<longleftrightarrow> e = TransportError"

text \<open>
  The wrapper calls the wrapped function; \<open>fn n\<close> is what the \<open>n\<close>-th call does. A result
  is returned. An exception that is not retried is raised again. One that is retried ends in
  \<^verbatim>\<open>RetryError\<close> when the stop condition holds, and otherwise the wrapper sleeps and calls
  again. The waits slept are returned with the outcome.
\<close>

function call_with_retry :: "(nat \<Rightarrow> exn + 'a) \<Rightarrow> nat \<Rightarrow> rat list \<times> (exn + 'a)" where
  "call_with_retry fn attempt_number =
     (case fn attempt_number of
        Inr v \<Rightarrow> ([], Inr v)
      | Inl e \<Rightarrow>
          if \<not> retry_if_exception_type e then ([], Inl e)
          else if stop_after_attempt attempt_number then ([], Inl RetryError)
          else (let (waits, outcome) = call_with_retry fn (attempt_number + 1)
                in (wait_exponential attempt_number # waits, outcome)))"
  by pat_completeness auto
termination
  by (relation "measure (\<lambda>(fn, attempt_number). 5 - attempt_number)")
     (auto simp: stop_after_attempt_def)

declare call_with_retry.simps [simp del]

section \<open>The temperature lookup (\<^verbatim>\<open>weather.WeatherClient\<close>)\<close>

text \<open>
  An HTTP response: its status code and its body as \<^verbatim>\<open>response.json()\<close> decodes it,
  \<open>None\<close> when decoding raises \<^verbatim>\<open>JSONDecodeError\<close>. A response object is always true in a
  condition (\<^verbatim>\<open>httpx.Response\<close> defines neither \<^verbatim>\<open>__bool__\<close> nor \<^verbatim>\<open>__len__\<close>).
\<close>

record response =
  status_code :: int
  body :: "json option"

text \<open>\<^verbatim>\<open>error_code == ErrorCodes.NO_MATCHING_LOCATION\<close>, an \<^verbatim>\<open>IntEnum\<close> member of value 1006.\<close>

fun equals_no_matching_location :: "json \<Rightarrow> bool" where
  "equals_no_matching_location (JInt i) = (i = 1006)"
| "equals_no_matching_location (JReal r) = (r = 1006)"
| "equals_no_matching_location (JBool b) = ((if b then 1 else 0) = (1006::int))"
| "equals_no_matching_location _ = False"

definition should_ignore_error :: "response \<Rightarrow> exn + bool" where
  "should_ignore_error r =
     (if status_code r = 400
      then (case body r of
              None \<Rightarrow> Inr False
            | Some decoded \<Rightarrow>
                (case dict_get decoded ''error'' (JObj []) of
                   Inl e \<Rightarrow> Inl e
                 | Inr error \<Rightarrow>
                     (case (if truthy error then dict_get error ''code'' JNull else Inr JNull) of
                        Inl e \<Rightarrow> Inl e
                      | Inr error_code \<Rightarrow> Inr (equals_no_matching_location error_code))))
      else Inr False)"

text \<open>\<^verbatim>\<open>response.raise_for_status()\<close> of httpx 0.22 raises for every status outside 200 to 299.\<close>

definition is_success :: "response \<Rightarrow> bool" where
  "is_success r \<longleftrightarrow> 200 \<le> status_code r \<and> status_code r \<le> 299"

definition raise_for_status :: "response \<Rightarrow> exn + unit" where
  "raise_for_status r = (if is_success r then Inr () else Inl HTTPStatusError)"

text \<open>
  The part of \<^verbatim>\<open>get_current_temperature_for_coordinates\<close> after the request. The
  conversion \<^verbatim>\<open>decimal.Decimal(s)\<close> of a string is a parameter, \<open>decimal_of_str\<close>, which is
  \<open>None\<close> where Python raises \<^verbatim>\<open>InvalidOperation\<close>.
\<close>

definition temperature_field :: "json \<Rightarrow> exn + json" where
  "temperature_field weather =
     (case dict_get weather ''current'' (JObj []) of
        Inl e \<Rightarrow> Inl e
      | Inr cur \<Rightarrow> dict_get cur ''temp_f'' JNull)"

fun temperature_value :: "(string \<Rightarrow> rat option) \<Rightarrow> json \<Rightarrow> rat option" where
  "temperature_value decimal_of_str (JReal d) = Some d"
| "temperature_value decimal_of_str (JStr s) = decimal_of_str s"
| "temperature_value decimal_of_str _ = None"

definition temperature_of_response ::
  "(string \<Rightarrow> rat option) \<Rightarrow> response \<Rightarrow> exn + rat option" where
  "temperature_of_response decimal_of_str r =
     (case should_ignore_error r of
        Inl e \<Rightarrow> Inl e
      | Inr True \<Rightarrow> Inr None
      | Inr False \<Rightarrow>
          (case raise_for_status r of
             Inl e \<Rightarrow> Inl e
           | Inr _ \<Rightarrow>
               (case body r of
                  None \<Rightarrow> Inr None
                | Some weather \<Rightarrow>
                    if \<not> is_dict weather then Inr None
                    else (case temperature_field weather of
                            Inl e \<Rightarrow> Inl e
                          | Inr temperature \<Rightarrow>
                              Inr (temperature_value decimal_of_str temperature)))))"

text \<open>
  The decorated method. \<open>http_get coords n\<close> is what the \<open>n\<close>-th request for \<open>coords\<close>
  does: it raises, \<^verbatim>\<open>TransportError\<close> for a transport failure, or returns a response.
\<close>

definition lookup_attempt ::
  "(coordinates \<Rightarrow> nat \<Rightarrow> exn + response) \<Rightarrow> (string \<Rightarrow> rat option) \<Rightarrow> coordinates \<Rightarrow> nat \<Rightarrow>
     exn + rat option" where
  "lookup_attempt http_get decimal_of_str coords n =
     (case http_get coords n of
        Inl e \<Rightarrow> Inl e
      | Inr r \<Rightarrow> temperature_of_response decimal_of_str r)"

definition get_current_temperature_for_coordinates ::
  "(coordinates \<Rightarrow> nat \<Rightarrow> exn + response) \<Rightarrow> (string \<Rightarrow> rat option) \<Rightarrow> coordinates \<Rightarrow>
     rat list \<times> (exn + rat option)" where
  "get_current_temperature_for_coordinates http_get decimal_of_str coords =
     call_with_retry (lookup_attempt http_get decimal_of_str coords) 1"

text \<open>Transports for the examples: one that answers 200 with a temperature of 70.5, one that
  always fails, and one that fails twice and then answers.\<close>

definition response_70_5 :: response where
  "response_70_5 =
     \<lparr>status_code = 200,
      body = Some (JObj [(''current'', JObj [(''temp_f'', JReal (141 / 2))])])\<rparr>"

definition http_ok :: "coordinates \<Rightarrow> nat \<Rightarrow> exn + response" where
  "http_ok coords n = Inr response_70_5"

definition http_down :: "coordinates \<Rightarrow> nat \<Rightarrow> exn + response" where
  "http_down coords n = Inl TransportError"

definition http_third_time :: "coordinates \<Rightarrow> nat \<Rightarrow> exn + response" where
  "http_third_time coords n = (if n < 3 then Inl TransportError else Inr response_70_5)"

definition decimal_of_str_sample :: "string \<Rightarrow> rat option" where
  "decimal_of_str_sample s = (if s = ''70.5'' then Some (141 / 2) else None)"

text \<open>Responses and a transport for the examples: the answer of the weather service for
  coordinates it cannot match, a server error, and a service that knows no place at
  longitude 0.\<close>

definition response_no_match :: response where
  "response_no_match =
     \<lparr>status_code = 400,
      body = Some (JObj [(''error'',
               JObj [(''code'', JInt 1006), (''message'', JStr ''No matching location found.'')])])\<rparr>"

definition response_500 :: response where
  "response_500 = \<lparr>status_code = 500, body = None\<rparr>"

definition http_no_place_at_zero :: "coordinates \<Rightarrow> nat \<Rightarrow> exn + response" where
  "http_no_place_at_zero coords n =
     (if longitude coords = Float 0 then Inr response_no_match else Inr response_70_5)"

definition http_500 :: "coordinates \<Rightarrow> nat \<Rightarrow> exn + response" where
  "http_500 coords n = Inr response_500"

text \<open>Two more answers for the examples: status 400 with another error code (2006, an
  invalid API key), and the error code 1006 under status 404. \<open>http_answering r\<close> is a
  service that answers every request with \<open>r\<close>.\<close>

definition response_invalid_key :: response where
  "response_invalid_key =
     \<lparr>status_code = 400,
      body = Some (JObj [(''error'',
               JObj [(''code'', JInt 2006), (''message'', JStr ''API key provided is invalid'')])])\<rparr>"

definition response_404_no_match :: response where
  "response_404_no_match =
     \<lparr>status_code = 404,
      body = Some (JObj [(''error'',
               JObj [(''code'', JInt 1006), (''message'', JStr ''No matching location found.'')])])\<rparr>"

definition http_answering :: "response \<Rightarrow> coordinates \<Rightarrow> nat \<Rightarrow> exn + response" where
  "http_answering r coords n = Inr r"

section \<open>The stream source (\<^verbatim>\<open>twitter.TwitterClient.stream\<close>)\<close>

text \<open>
  A connection to the stream yields lines and then ends, with an exception or without;
  \<open>connect n\<close> is what the \<open>n\<close>-th connection made does. A connection that cannot be
  established yields nothing and ends with \<^verbatim>\<open>TransportError\<close>.

  \<^verbatim>\<open>stream\<close> is an \<^verbatim>\<open>async def\<close> with a \<^verbatim>\<open>yield\<close> in it, an asynchronous generator
  function: calling it runs none of its body and returns a generator object. \<open>stream_call\<close>
  is that call, which is what the retry wrapper calls: it makes no connection and never
  raises. The body runs when the generator is iterated, and \<open>iterate\<close> is that: with
  \<open>made\<close> connections made before, it makes the next one.
\<close>

type_synonym connection = "string list \<times> exn option"

datatype generator = Generator "nat \<Rightarrow> connection"

definition stream_call :: "(nat \<Rightarrow> connection) \<Rightarrow> nat \<Rightarrow> exn + generator" where
  "stream_call connect attempt_number = Inr (Generator connect)"

definition stream :: "(nat \<Rightarrow> connection) \<Rightarrow> rat list \<times> (exn + generator)" where
  "stream connect = call_with_retry (stream_call connect) 1"

fun iterate :: "generator \<Rightarrow> nat \<Rightarrow> connection \<times> nat" where
  "iterate (Generator connect) made = (connect (made + 1), made + 1)"

text \<open>
  \<^verbatim>\<open>pipeline.observe_twitter_sample_stream\<close> calls \<^verbatim>\<open>twitter_client.stream()\<close> once and
  iterates what it returns, sending each line on. The result: the waits slept by the retry
  wrapper, the lines sent, the exception that ended the task, if any, and the number of
  connections made.
\<close>

record observed =
  waits_slept :: "rat list"
  lines_sent :: "string list"
  ended_with :: "exn option"
  connections_made :: nat

definition observe_twitter_sample_stream :: "(nat \<Rightarrow> connection) \<Rightarrow> observed" where
  "observe_twitter_sample_stream connect =
     (case stream connect of
        (waits, Inl e) \<Rightarrow>
          \<lparr>waits_slept = waits, lines_sent = [], ended_with = Some e, connections_made = 0\<rparr>
      | (waits, Inr gen) \<Rightarrow>
          (case iterate gen 0 of
             ((lines, ended), made) \<Rightarrow>
               \<lparr>waits_slept = waits, lines_sent = lines, ended_with = ended,
                connections_made = made\<rparr>))"

text \<open>A stream whose first connection is refused and whose second delivers two lines.\<close>

definition connect_second_time :: "nat \<Rightarrow> connection" where
  "connect_second_time n =
     (if n = 1 then ([], Some TransportError) else ([''tweet 1'', ''tweet 2''], None))"

section \<open>The resolver (\<^verbatim>\<open>pipeline.get_temperature\<close>)\<close>

text \<open>
  \<^verbatim>\<open>get_temperature\<close>: for each received pair the lookup, then the send to the file channel,
  then the send to the averaging channel. \<open>weather_client\<close> is the outcome of
  \<^verbatim>\<open>get_current_temperature_for_coordinates\<close>. The loop ends when the receiving channel
  does, with the exception \<open>ending\<close> if the last receive raises one. The result is the two
  channels and the exception that ended the loop, if any.
\<close>

fun get_temperature ::
  "(coordinates \<Rightarrow> exn + 'v option) \<Rightarrow> ('t \<times> coordinates) list \<Rightarrow> exn option \<Rightarrow>
     ('t \<times> 'v) channel \<Rightarrow> ('t \<times> 'v) channel \<Rightarrow>
     ('t \<times> 'v) channel \<times> ('t \<times> 'v) channel \<times> exn option" where
  "get_temperature weather_client [] ending to_file to_average = (to_file, to_average, ending)"
| "get_temperature weather_client ((timestamp, coords) # rest) ending to_file to_average =
     (case weather_client coords of
        Inl e \<Rightarrow> (to_file, to_average, Some e)
      | Inr None \<Rightarrow> get_temperature weather_client rest ending to_file to_average
      | Inr (Some temperature) \<Rightarrow>
          (case send to_file (timestamp, temperature) of
             Inl e \<Rightarrow> (to_file, to_average, Some e)
           | Inr to_file' \<Rightarrow>
               (case send to_average (timestamp, temperature) of
                  Inl e \<Rightarrow> (to_file', to_average, Some e)
                | Inr to_average' \<Rightarrow>
                    get_temperature weather_client rest ending to_file' to_average')))"

text \<open>The records the lookup resolves, up to the first lookup that raises.\<close>

fun resolved :: "(coordinates \<Rightarrow> exn + 'v option) \<Rightarrow> ('t \<times> coordinates) list \<Rightarrow> ('t \<times> 'v) list" where
  "resolved weather_client [] = []"
| "resolved weather_client ((timestamp, coords) # rest) =
     (case weather_client coords of
        Inl e \<Rightarrow> []
      | Inr None \<Rightarrow> resolved weather_client rest
      | Inr (Some temperature) \<Rightarrow> (timestamp, temperature) # resolved weather_client rest)"

text \<open>The weather client as the resolver sees it: the outcome of the decorated lookup.\<close>

definition weather_client_of ::
  "(coordinates \<Rightarrow> nat \<Rightarrow> exn + response) \<Rightarrow> (string \<Rightarrow> rat option) \<Rightarrow> coordinates \<Rightarrow>
     exn + rat option" where
  "weather_client_of http_get decimal_of_str coords =
     snd (get_current_temperature_for_coordinates http_get decimal_of_str coords)"

section \<open>The sinks (\<^verbatim>\<open>pipeline.write_data\<close>)\<close>

text \<open>
  A sink writes \<^verbatim>\<open>f'{timestamp},{datum}\n'\<close> for every pair it receives: the texts that
  \<^verbatim>\<open>str\<close> gives for a \<^verbatim>\<open>datetime\<close> and for a \<^verbatim>\<open>Decimal\<close>.

  The decimal digits of a natural number, and a text padded with zeros on the left to a
  width, as \<^verbatim>\<open>%02d\<close> pads.
\<close>

definition digit_char :: "nat \<Rightarrow> char" where
  "digit_char n = ''0123456789'' ! n"

function show_nat :: "nat \<Rightarrow> string" where
  "show_nat n = (if n < 10 then [digit_char n] else show_nat (n div 10) @ [digit_char (n mod 10)])"
  by pat_completeness auto
termination
  by (relation "measure id") auto

declare show_nat.simps [simp del]

definition pad :: "nat \<Rightarrow> string \<Rightarrow> string" where
  "pad width s = replicate (width - length s) CHR ''0'' @ s"

text \<open>
  \<^verbatim>\<open>str\<close> of a \<^verbatim>\<open>datetime\<close> is \<^verbatim>\<open>isoformat(sep=' ')\<close>: the date, a space, the time, the
  microseconds when they are not zero, and the offset from UTC when the date-time has one.
\<close>

definition format_offset :: "int \<Rightarrow> string" where
  "format_offset off =
     (let seconds = nat \<bar>off\<bar>
      in (if off < 0 then ''-'' else ''+'') @
         pad 2 (show_nat (seconds div 3600)) @ '':'' @
         pad 2 (show_nat (seconds mod 3600 div 60)) @
         (if seconds mod 60 \<noteq> 0 then '':'' @ pad 2 (show_nat (seconds mod 60)) else []))"

definition str_datetime :: "datetime \<Rightarrow> string" where
  "str_datetime t =
     pad 4 (show_nat (year t)) @ ''-'' @ pad 2 (show_nat (month t)) @ ''-'' @
     pad 2 (show_nat (day t)) @ '' '' @
     pad 2 (show_nat (hour t)) @ '':'' @ pad 2 (show_nat (minute t)) @ '':'' @
     pad 2 (show_nat (second t)) @
     (if microsecond t \<noteq> 0 then ''.'' @ pad 6 (show_nat (microsecond t)) else []) @
     (case utcoffset t of None \<Rightarrow> [] | Some off \<Rightarrow> format_offset off)"

text \<open>
  The text of a Decimal depends on the digits it holds, not only on its value
  (\<^verbatim>\<open>70.5\<close> and \<^verbatim>\<open>70.50\<close> are written differently), so a sink receives a Decimal as the
  module stores it: a sign (true when negative), the coefficient and the exponent of a finite
  number, or the sign of an infinity, or the sign and the payload of a NaN. \<open>str_decimal\<close>
  is \<^verbatim>\<open>Decimal.__str__\<close>: plain notation when the exponent is at most 0 and the number has
  fewer than six zeros after the point before its first digit, else scientific notation.
\<close>

datatype decimal_tuple =
    Finite bool nat int
  | Infinite bool
  | Quiet bool nat
  | Signalling bool nat

definition sign_text :: "bool \<Rightarrow> string" where
  "sign_text negative = (if negative then ''-'' else [])"

definition payload_text :: "nat \<Rightarrow> string" where
  "payload_text payload = (if payload = 0 then [] else show_nat payload)"

definition str_finite :: "nat \<Rightarrow> int \<Rightarrow> string" where
  "str_finite coefficient exponent =
     (let digits = show_nat coefficient;
          leftdigits = exponent + int (length digits);
          dotplace = (if exponent \<le> 0 \<and> - 6 < leftdigits then leftdigits else 1);
          intpart =
            (if dotplace \<le> 0 then ''0''
             else if int (length digits) \<le> dotplace
             then digits @ replicate (nat (dotplace - int (length digits))) CHR ''0''
             else take (nat dotplace) digits);
          fracpart =
            (if dotplace \<le> 0 then ''.'' @ replicate (nat (- dotplace)) CHR ''0'' @ digits
             else if int (length digits) \<le> dotplace then []
             else ''.'' @ drop (nat dotplace) digits);
          exp =
            (if leftdigits = dotplace then []
             else ''E'' @ (if leftdigits - dotplace < 0 then ''-'' else ''+'') @
                  show_nat (nat \<bar>leftdigits - dotplace\<bar>))
      in intpart @ fracpart @ exp)"

fun str_decimal :: "decimal_tuple \<Rightarrow> string" where
  "str_decimal (Finite negative coefficient exponent) =
     sign_text negative @ str_finite coefficient exponent"
| "str_decimal (Infinite negative) = sign_text negative @ ''Infinity''"
| "str_decimal (Quiet negative payload) = sign_text negative @ ''NaN'' @ payload_text payload"
| "str_decimal (Signalling negative payload) =
     sign_text negative @ ''sNaN'' @ payload_text payload"

text \<open>The value the arithmetic sees in a Decimal so stored.\<close>

fun decimal_of_tuple :: "decimal_tuple \<Rightarrow> decimal" where
  "decimal_of_tuple (Finite negative coefficient exponent) =
     Fin ((if negative then - 1 else 1) * of_nat coefficient * pow10 exponent)"
| "decimal_of_tuple (Infinite negative) = (if negative then NegInfinity else PosInfinity)"
| "decimal_of_tuple (Quiet negative payload) = QNaN"
| "decimal_of_tuple (Signalling negative payload) = SNaN"

text \<open>
  \<^verbatim>\<open>write_data\<close>: the file is opened with mode \<^verbatim>\<open>'wt'\<close>, which empties it, and a line is
  written for every received pair. The function takes the content the file had and returns
  the content it has in the end.
\<close>

definition record_line :: "datetime \<times> decimal_tuple \<Rightarrow> string" where
  "record_line item = str_datetime (fst item) @ '','' @ str_decimal (snd item) @ [CHR 0x0A]"

fun write_loop :: "string \<Rightarrow> (datetime \<times> decimal_tuple) list \<Rightarrow> string" where
  "write_loop output_file [] = output_file"
| "write_loop output_file (item # rest) = write_loop (output_file @ record_line item) rest"

definition write_data :: "(datetime \<times> decimal_tuple) list \<Rightarrow> string \<Rightarrow> string" where
  "write_data data_source old_content = write_loop [] data_source"

text \<open>The lines of a text: the pieces that a line feed ends, without it, and what follows
  the last line feed when that is not empty.\<close>

fun text_lines :: "string \<Rightarrow> string \<Rightarrow> string list" where
  "text_lines line [] = (if line = [] then [] else [line])"
| "text_lines line (c # cs) =
     (if c = CHR 0x0A then line # text_lines [] cs else text_lines (line @ [c]) cs)"

text \<open>
  Modelled from the spec: the form \<^verbatim>\<open><ISO-8601 timestamp>\<close>. An ISO 8601 date and time
  of day in one text are joined by the letter T, which follows the ten characters of the
  date \<^verbatim>\<open>YYYY-MM-DD\<close>.
\<close>

definition iso_8601_separator :: "string \<Rightarrow> bool" where
  "iso_8601_separator s \<longleftrightarrow> 10 < length s \<and> s ! 10 = CHR ''T''"

text \<open>The characters of ASCII, which UTF-8 encodes as themselves.\<close>

definition is_ascii :: "char \<Rightarrow> bool" where
  "is_ascii c \<longleftrightarrow> of_char c < (128::nat)"

chapter \<open>Properties\<close>

section \<open>Decimal rounding\<close>

lemma pow10_powi: "pow10 e = 10 powi e"
  by (simp add: pow10_def power_int_def inverse_eq_divide power_divide)

lemma pow10_pos: "0 < pow10 e"
  by (simp add: pow10_powi)

lemma pow10_add: "pow10 (a + b) = pow10 a * pow10 b"
  by (simp add: pow10_powi power_int_add)

lemma pow10_nat: "pow10 (int n) = 10 ^ n"
  by (simp add: pow10_def)

lemma pow10_less: "a < b \<Longrightarrow> pow10 a < pow10 b"
  using power_int_strict_increasing [of a b "10::rat"] by (simp add: pow10_powi)

lemma pow10_less_imp: "pow10 a < pow10 b \<Longrightarrow> a < b"
  using power_int_increasing [of b a "10::rat"] by (fastforce simp: pow10_powi)

lemma ndigits_pos: "0 < ndigits n"
  by (subst ndigits.simps) simp

lemma ndigits_upper: "n < 10 ^ ndigits n"
proof (induction n rule: ndigits.induct)
  case (1 n)
  show ?case
  proof (cases "n < 10")
    case True
    then show ?thesis by (simp add: ndigits.simps [of n])
  next
    case False
    with 1 have "n div 10 < 10 ^ ndigits (n div 10)" by simp
    then have "n < 10 * 10 ^ ndigits (n div 10)" by linarith
    with False show ?thesis by (simp add: ndigits.simps [of n])
  qed
qed

lemma ndigits_lower: "0 < n \<Longrightarrow> 10 ^ (ndigits n - 1) \<le> n"
proof (induction n rule: ndigits.induct)
  case (1 n)
  show ?case
  proof (cases "n < 10")
    case True
    with 1 show ?thesis by (simp add: ndigits.simps [of n])
  next
    case False
    with 1 have "10 ^ (ndigits (n div 10) - 1) \<le> n div 10" by simp
    then have "10 * 10 ^ (ndigits (n div 10) - 1) \<le> n" by linarith
    moreover have "Suc (ndigits (n div 10) - 1) = ndigits (n div 10)"
      using ndigits_pos [of "n div 10"] by simp
    ultimately show ?thesis using False
      by (simp add: ndigits.simps [of n] flip: power_Suc)
  qed
qed

lemma round_half_even_of_int: "round_half_even (of_int n) = n"
  by (simp add: round_half_even_def)

text \<open>The exponent found is the one that leaves 28 digits before the point.\<close>

lemma dec_exponent_lower:
  assumes "0 < x"
  shows "10 ^ 27 * pow10 (dec_exponent x) \<le> x"
proof -
  define e0 where "e0 = (if 1 \<le> x then int (ndigits \<lfloor>x\<rfloor>) - 28
                else - int (ndigits \<lfloor>1 / x\<rfloor>) - 27)"
  have e: "dec_exponent x = (if x < 10 ^ 28 * pow10 e0 then e0 else e0 + 1)"
    by (simp add: dec_exponent_def e0_def Let_def)
  have base: "10 ^ 27 * pow10 e0 \<le> x"
  proof (cases "1 \<le> x")
    case True
    then have fl: "0 < \<lfloor>x\<rfloor>" by simp
    define d where "d = ndigits \<lfloor>x\<rfloor>"
    have dpos: "0 < d" by (simp add: d_def ndigits_pos)
    have "(10::int) ^ (d - 1) \<le> \<lfloor>x\<rfloor>" unfolding d_def by (rule ndigits_lower [OF fl])
    then have "of_int ((10::int) ^ (d - 1)) \<le> (of_int \<lfloor>x\<rfloor> :: rat)" by (simp only: of_int_le_iff)
    also have "\<dots> \<le> x" by simp
    finally have 1: "(10::rat) ^ (d - 1) \<le> x" by simp
    have "e0 = int d - 28" using True by (simp add: e0_def d_def)
    then have "27 + e0 = int (d - 1)" using dpos by simp
    then have "pow10 27 * pow10 e0 = 10 ^ (d - 1)"
      by (simp only: pow10_nat flip: pow10_add)
    moreover have "pow10 27 = 10 ^ 27" by (simp add: pow10_def)
    ultimately show ?thesis using 1 by simp
  next
    case False
    define d where "d = ndigits \<lfloor>1 / x\<rfloor>"
    have "\<lfloor>1 / x\<rfloor> < 10 ^ d" unfolding d_def by (rule ndigits_upper)
    then have "1 / x < of_int (10 ^ d)" by (simp only: floor_less_iff)
    then have "1 / x < 10 ^ d" by simp
    then have 2: "1 < x * 10 ^ d" using assms by (simp add: field_simps)
    have "e0 = - int d - 27" using False by (simp add: e0_def d_def)
    then have "(27 + e0) + int d = 0" by simp
    then have "pow10 (27 + e0) * pow10 (int d) = 1"
      by (simp only: flip: pow10_add) (simp add: pow10_def)
    then have 3: "10 ^ 27 * pow10 e0 * 10 ^ d = 1"
      by (simp add: pow10_add pow10_nat) (simp add: pow10_def)
    have "10 ^ 27 * pow10 e0 * 10 ^ d \<le> x * 10 ^ d" using 2 3 by simp
    then show ?thesis by simp
  qed
  show ?thesis
  proof (cases "x < 10 ^ 28 * pow10 e0")
    case True
    with e base show ?thesis by simp
  next
    case False
    have "pow10 (e0 + 1) = pow10 e0 * 10" by (simp add: pow10_add) (simp add: pow10_def)
    with False e show ?thesis by simp
  qed
qed

lemma dec_exponent_upper:
  assumes "0 < x"
  shows "x < 10 ^ 28 * pow10 (dec_exponent x)"
proof -
  define e0 where "e0 = (if 1 \<le> x then int (ndigits \<lfloor>x\<rfloor>) - 28
                else - int (ndigits \<lfloor>1 / x\<rfloor>) - 27)"
  have e: "dec_exponent x = (if x < 10 ^ 28 * pow10 e0 then e0 else e0 + 1)"
    by (simp add: dec_exponent_def e0_def Let_def)
  have next_exp: "x < 10 ^ 28 * pow10 (e0 + 1)"
  proof (cases "1 \<le> x")
    case True
    define d where "d = ndigits \<lfloor>x\<rfloor>"
    have "\<lfloor>x\<rfloor> < 10 ^ d" unfolding d_def by (rule ndigits_upper)
    then have "x < of_int (10 ^ d)" by (simp only: floor_less_iff)
    then have 1: "x < 10 ^ d" by simp
    have "e0 = int d - 28" using True by (simp add: e0_def d_def)
    then have "28 + e0 = int d" by simp
    then have "pow10 28 * pow10 e0 = 10 ^ d" by (simp only: pow10_nat flip: pow10_add)
    moreover have "pow10 28 = 10 ^ 28" by (simp add: pow10_def)
    ultimately have "x < 10 ^ 28 * pow10 e0" using 1 by simp
    moreover have "pow10 e0 < pow10 (e0 + 1)"
      using pow10_pos [of e0] by (simp add: pow10_add) (simp add: pow10_def)
    ultimately have "x < 10 ^ 28 * pow10 e0" and "10 ^ 28 * pow10 e0 < 10 ^ 28 * pow10 (e0 + 1)"
      by simp_all
    then show ?thesis by (rule less_trans)
  next
    case False
    define d where "d = ndigits \<lfloor>1 / x\<rfloor>"
    from False assms have "1 < 1 / x" by (simp add: field_simps)
    then have fl: "0 < \<lfloor>1 / x\<rfloor>" by simp
    have dpos: "0 < d" by (simp add: d_def ndigits_pos)
    have "(10::int) ^ (d - 1) \<le> \<lfloor>1 / x\<rfloor>" unfolding d_def by (rule ndigits_lower [OF fl])
    then have "of_int ((10::int) ^ (d - 1)) \<le> (of_int \<lfloor>1 / x\<rfloor> :: rat)"
      by (simp only: of_int_le_iff)
    also have "\<dots> \<le> 1 / x" by simp
    finally have "(10::rat) ^ (d - 1) \<le> 1 / x" by simp
    then have 2: "x * 10 ^ (d - 1) \<le> 1" using assms by (simp add: field_simps)
    have "e0 = - int d - 27" using False by (simp add: e0_def d_def)
    then have "(28 + (e0 + 1)) + int (d - 1) = 1" using dpos by simp
    then have h: "pow10 (28 + (e0 + 1)) * pow10 (int (d - 1)) = 10"
      by (simp only: flip: pow10_add) (simp add: pow10_def)
    have a: "pow10 (28 + (e0 + 1)) = pow10 28 * pow10 (e0 + 1)" by (rule pow10_add)
    have b: "pow10 28 = 10 ^ 28" by (simp add: pow10_def)
    have 3: "10 ^ 28 * pow10 (e0 + 1) * 10 ^ (d - 1) = 10"
      using h unfolding a b pow10_nat .
    have lt: "x * 10 ^ (d - 1) < 10" using 2 by simp
    have "x * 10 ^ (d - 1) < (10 ^ 28 * pow10 (e0 + 1)) * 10 ^ (d - 1)"
      unfolding 3 by (rule lt)
    moreover have "(0::rat) < 10 ^ (d - 1)" by simp
    ultimately show ?thesis by (simp only: mult_less_cancel_right_pos)
  qed
  show ?thesis
  proof (cases "x < 10 ^ 28 * pow10 e0")
    case True
    with e show ?thesis by simp
  next
    case False
    with e next_exp show ?thesis by simp
  qed
qed

text \<open>
  A value of at most 28 digits whose last digit is not below \<open>10 ^ Etiny\<close> is not changed
  by the rounding, and raises no overflow.
\<close>

lemma dec_round_exact:
  assumes m: "x = of_int m * pow10 e" and small: "\<bar>m\<bar> < 10 ^ 28" and e: "Etiny \<le> e"
  shows "dec_round x = x"
proof (cases "x = 0")
  case True
  then show ?thesis by (simp add: dec_round_def)
next
  case False
  define d where "d = max (dec_exponent \<bar>x\<bar>) Etiny"
  have pe: "0 < pow10 e" by (rule pow10_pos)
  have absx: "\<bar>x\<bar> = of_int \<bar>m\<bar> * pow10 e"
    using pe by (simp add: m abs_mult)
  have "of_int \<bar>m\<bar> < (of_int (10 ^ 28) :: rat)" using small by (simp only: of_int_less_iff)
  then have "of_int \<bar>m\<bar> * pow10 e < of_int (10 ^ 28) * pow10 e"
    using pe by (simp only: mult_less_cancel_right_pos)
  then have up: "\<bar>x\<bar> < 10 ^ 28 * pow10 e" by (simp add: absx)
  have "10 ^ 27 * pow10 (dec_exponent \<bar>x\<bar>) \<le> \<bar>x\<bar>"
    using False by (intro dec_exponent_lower) simp
  from this up have "10 ^ 27 * pow10 (dec_exponent \<bar>x\<bar>) < 10 ^ 28 * pow10 e"
    by (rule le_less_trans)
  then have "pow10 (dec_exponent \<bar>x\<bar>) < 10 * pow10 e" by simp
  also have "\<dots> = pow10 (e + 1)" by (simp add: pow10_add) (simp add: pow10_def)
  finally have "dec_exponent \<bar>x\<bar> < e + 1" by (rule pow10_less_imp)
  with e have le: "d \<le> e" by (simp add: d_def)
  define j where "j = nat (e - d)"
  have "e = d + int j" using le by (simp add: j_def)
  then have pw: "pow10 e = pow10 d * 10 ^ j" by (simp only: pow10_add pow10_nat)
  have pos: "0 < pow10 d" by (rule pow10_pos)
  have "\<bar>x\<bar> / pow10 d = of_int \<bar>m\<bar> * 10 ^ j" using pos by (simp add: absx pw)
  also have "\<dots> = of_int (\<bar>m\<bar> * 10 ^ j)" by simp
  finally have q: "\<bar>x\<bar> / pow10 d = of_int (\<bar>m\<bar> * 10 ^ j)" .
  have "dec_round x = sgn x * of_int (round_half_even (\<bar>x\<bar> / pow10 d)) * pow10 d"
    using False by (simp add: dec_round_def d_def Let_def)
  also have "\<dots> = sgn x * (\<bar>x\<bar> / pow10 d) * pow10 d"
    by (simp only: q round_half_even_of_int)
  also have "\<dots> = sgn x * \<bar>x\<bar>" using pos by simp
  also have "\<dots> = x" by (simp add: sgn_mult_abs)
  finally show ?thesis .
qed

text \<open>The exponent is determined by the two bounds.\<close>

lemma dec_exponent_unique:
  assumes lo: "10 ^ 27 * pow10 e \<le> x" and up: "x < 10 ^ 28 * pow10 e"
  shows "dec_exponent x = e"
proof -
  have "0 < 10 ^ 27 * pow10 e" using pow10_pos [of e] by simp
  from this lo have xpos: "0 < x" by (rule less_le_trans)
  define d where "d = dec_exponent x"
  have l: "10 ^ 27 * pow10 d \<le> x" unfolding d_def by (rule dec_exponent_lower [OF xpos])
  have u: "x < 10 ^ 28 * pow10 d" unfolding d_def by (rule dec_exponent_upper [OF xpos])
  have ten: "\<And>a. 10 * pow10 a = pow10 (a + 1)" by (simp add: pow10_add) (simp add: pow10_def)
  from l up have "10 ^ 27 * pow10 d < 10 ^ 28 * pow10 e" by (rule le_less_trans)
  then have "pow10 d < 10 * pow10 e" by simp
  then have "d < e + 1" unfolding ten by (rule pow10_less_imp)
  moreover from lo u have "10 ^ 27 * pow10 e < 10 ^ 28 * pow10 d" by (rule le_less_trans)
  then have "pow10 e < 10 * pow10 d" by simp
  then have "e < d + 1" unfolding ten by (rule pow10_less_imp)
  ultimately show ?thesis by (simp add: d_def)
qed

text \<open>A result below \<open>10 ^ 29\<close> in magnitude is far from the overflow threshold.\<close>

lemma no_overflow_below:
  assumes "\<bar>r\<bar> < 10 ^ 29"
  shows "\<not> (r \<noteq> 0 \<and> Emax < dec_exponent \<bar>r\<bar> + 27)"
proof
  assume a: "r \<noteq> 0 \<and> Emax < dec_exponent \<bar>r\<bar> + 27"
  then have "10 ^ 27 * pow10 (dec_exponent \<bar>r\<bar>) \<le> \<bar>r\<bar>"
    by (intro dec_exponent_lower) simp
  from this assms have "10 ^ 27 * pow10 (dec_exponent \<bar>r\<bar>) < 10 ^ 29" by (rule le_less_trans)
  then have "pow10 (dec_exponent \<bar>r\<bar>) < pow10 2" by (simp add: pow10_def)
  then have "dec_exponent \<bar>r\<bar> < 2" by (rule pow10_less_imp)
  with a show False by (simp add: Emax_def)
qed

lemma round_half_even_bounds:
  assumes "0 \<le> y"
  shows "0 \<le> round_half_even y" and "y < of_int n \<Longrightarrow> round_half_even y \<le> n"
proof -
  have f: "0 \<le> \<lfloor>y\<rfloor>" using assms by simp
  then show "0 \<le> round_half_even y" by (simp add: round_half_even_def Let_def)
  assume "y < of_int n"
  then have "\<lfloor>y\<rfloor> < n" by (simp add: floor_less_iff)
  then show "round_half_even y \<le> n" by (simp add: round_half_even_def Let_def)
qed

text \<open>The rounding of a value below \<open>10 ^ 28\<close> in magnitude stays below \<open>10 ^ 29\<close>.\<close>

lemma dec_round_bounded:
  assumes "\<bar>x\<bar> < 10 ^ 28"
  shows "\<bar>dec_round x\<bar> < 10 ^ 29"
proof (cases "x = 0")
  case True
  then show ?thesis by (simp add: dec_round_def)
next
  case False
  define e where "e = max (dec_exponent \<bar>x\<bar>) Etiny"
  define y where "y = \<bar>x\<bar> / pow10 e"
  have pos: "0 < pow10 e" by (rule pow10_pos)
  have xpos: "0 < \<bar>x\<bar>" using False by simp
  have ynn: "0 \<le> y" using pos by (simp add: y_def)
  have "pow10 (dec_exponent \<bar>x\<bar>) \<le> pow10 e"
    using power_int_increasing [of "dec_exponent \<bar>x\<bar>" e "10::rat"]
    by (simp add: pow10_powi e_def)
  then have "10 ^ 28 * pow10 (dec_exponent \<bar>x\<bar>) \<le> 10 ^ 28 * pow10 e" by simp
  with dec_exponent_upper [OF xpos] have "\<bar>x\<bar> < 10 ^ 28 * pow10 e" by (rule less_le_trans)
  then have "y < 10 ^ 28" using pos by (simp add: y_def field_simps)
  then have "y < of_int (10 ^ 28)" by simp
  with ynn have n: "round_half_even y \<le> 10 ^ 28" "0 \<le> round_half_even y"
    by (simp_all only: round_half_even_bounds)
  have qsmall: "pow10 e < 10"
  proof (cases "dec_exponent \<bar>x\<bar> \<le> Etiny")
    case True
    then have "e < 1" by (simp add: e_def Etiny_def Emin_def)
    then have "pow10 e < pow10 1" by (rule pow10_less)
    then show ?thesis by (simp add: pow10_def)
  next
    case False
    then have ee: "e = dec_exponent \<bar>x\<bar>" by (simp add: e_def)
    have "10 ^ 27 * pow10 e \<le> \<bar>x\<bar>" unfolding ee by (rule dec_exponent_lower [OF xpos])
    from this assms have "10 ^ 27 * pow10 e < 10 ^ 28" by (rule le_less_trans)
    then show ?thesis by simp
  qed
  have "dec_round x = sgn x * of_int (round_half_even y) * pow10 e"
    using False by (simp add: dec_round_def e_def y_def Let_def)
  then have "\<bar>dec_round x\<bar> = of_int (round_half_even y) * pow10 e"
    using False n(2) pos by (simp add: abs_mult abs_sgn_eq)
  also have "\<dots> \<le> of_int (10 ^ 28) * pow10 e"
    using n(1) pos by (intro mult_right_mono) (simp_all only: of_int_le_iff less_imp_le)
  also have "\<dots> < of_int (10 ^ 28) * 10" using qsmall by simp
  finally show ?thesis by simp
qed

lemma dec_fix_bounded:
  assumes "\<bar>x\<bar> < 10 ^ 28"
  shows "dec_fix x = Inr (Fin (dec_round x))"
  using no_overflow_below [OF dec_round_bounded [OF assms]] by (simp add: dec_fix_def Let_def)

section \<open>Float rounding\<close>

lemma pow2_powi: "pow2 e = 2 powi e"
  by (simp add: pow2_def power_int_def inverse_eq_divide power_divide)

lemma pow2_pos: "0 < pow2 e"
  by (simp add: pow2_powi)

lemma pow2_add: "pow2 (a + b) = pow2 a * pow2 b"
  by (simp add: pow2_powi power_int_add)

lemma pow2_nat: "pow2 (int n) = 2 ^ n"
  by (simp add: pow2_def)

lemma pow2_less: "a < b \<Longrightarrow> pow2 a < pow2 b"
  using power_int_strict_increasing [of a b "2::rat"] by (simp add: pow2_powi)

lemma pow2_less_imp: "pow2 a < pow2 b \<Longrightarrow> a < b"
  using power_int_increasing [of b a "2::rat"] by (fastforce simp: pow2_powi)

lemma nbits_pos: "0 < nbits n"
  by (subst nbits.simps) simp

lemma nbits_upper: "n < 2 ^ nbits n"
proof (induction n rule: nbits.induct)
  case (1 n)
  show ?case
  proof (cases "n < 2")
    case True
    then show ?thesis by (simp add: nbits.simps [of n])
  next
    case False
    with 1 have "n div 2 < 2 ^ nbits (n div 2)" by simp
    then have "n < 2 * 2 ^ nbits (n div 2)" by linarith
    with False show ?thesis by (simp add: nbits.simps [of n])
  qed
qed

lemma nbits_lower: "0 < n \<Longrightarrow> 2 ^ (nbits n - 1) \<le> n"
proof (induction n rule: nbits.induct)
  case (1 n)
  show ?case
  proof (cases "n < 2")
    case True
    with 1 show ?thesis by (simp add: nbits.simps [of n])
  next
    case False
    with 1 have "2 ^ (nbits (n div 2) - 1) \<le> n div 2" by simp
    then have "2 * 2 ^ (nbits (n div 2) - 1) \<le> n" by linarith
    moreover have "Suc (nbits (n div 2) - 1) = nbits (n div 2)"
      using nbits_pos [of "n div 2"] by simp
    ultimately show ?thesis using False
      by (simp add: nbits.simps [of n] flip: power_Suc)
  qed
qed

text \<open>The exponent found is the one that leaves 53 bits before the point.\<close>

lemma bin_exponent_lower:
  assumes "0 < x"
  shows "2 ^ 52 * pow2 (bin_exponent x) \<le> x"
proof -
  define e0 where "e0 = (if 1 \<le> x then int (nbits \<lfloor>x\<rfloor>) - 53
                else - int (nbits \<lfloor>1 / x\<rfloor>) - 52)"
  have e: "bin_exponent x = (if x < 2 ^ 53 * pow2 e0 then e0 else e0 + 1)"
    by (simp add: bin_exponent_def e0_def Let_def)
  have base: "2 ^ 52 * pow2 e0 \<le> x"
  proof (cases "1 \<le> x")
    case True
    then have fl: "0 < \<lfloor>x\<rfloor>" by simp
    define d where "d = nbits \<lfloor>x\<rfloor>"
    have dpos: "0 < d" by (simp add: d_def nbits_pos)
    have "(2::int) ^ (d - 1) \<le> \<lfloor>x\<rfloor>" unfolding d_def by (rule nbits_lower [OF fl])
    then have "of_int ((2::int) ^ (d - 1)) \<le> (of_int \<lfloor>x\<rfloor> :: rat)" by (simp only: of_int_le_iff)
    also have "\<dots> \<le> x" by simp
    finally have 1: "(2::rat) ^ (d - 1) \<le> x" by simp
    have "e0 = int d - 53" using True by (simp add: e0_def d_def)
    then have "52 + e0 = int (d - 1)" using dpos by simp
    then have "pow2 52 * pow2 e0 = 2 ^ (d - 1)"
      by (simp only: pow2_nat flip: pow2_add)
    moreover have "pow2 52 = 2 ^ 52" by (simp add: pow2_def)
    ultimately show ?thesis using 1 by simp
  next
    case False
    define d where "d = nbits \<lfloor>1 / x\<rfloor>"
    have "\<lfloor>1 / x\<rfloor> < 2 ^ d" unfolding d_def by (rule nbits_upper)
    then have "1 / x < of_int (2 ^ d)" by (simp only: floor_less_iff)
    then have "1 / x < 2 ^ d" by simp
    then have 2: "1 < x * 2 ^ d" using assms by (simp add: field_simps)
    have "e0 = - int d - 52" using False by (simp add: e0_def d_def)
    then have "(52 + e0) + int d = 0" by simp
    then have "pow2 (52 + e0) * pow2 (int d) = 1"
      by (simp only: flip: pow2_add) (simp add: pow2_def)
    then have 3: "2 ^ 52 * pow2 e0 * 2 ^ d = 1"
      by (simp add: pow2_add pow2_nat) (simp add: pow2_def)
    have "2 ^ 52 * pow2 e0 * 2 ^ d \<le> x * 2 ^ d" using 2 3 by simp
    then show ?thesis by simp
  qed
  show ?thesis
  proof (cases "x < 2 ^ 53 * pow2 e0")
    case True
    with e base show ?thesis by simp
  next
    case False
    have "pow2 (e0 + 1) = pow2 e0 * 2" by (simp add: pow2_add) (simp add: pow2_def)
    with False e show ?thesis by simp
  qed
qed

lemma bin_exponent_upper:
  assumes "0 < x"
  shows "x < 2 ^ 53 * pow2 (bin_exponent x)"
proof -
  define e0 where "e0 = (if 1 \<le> x then int (nbits \<lfloor>x\<rfloor>) - 53
                else - int (nbits \<lfloor>1 / x\<rfloor>) - 52)"
  have e: "bin_exponent x = (if x < 2 ^ 53 * pow2 e0 then e0 else e0 + 1)"
    by (simp add: bin_exponent_def e0_def Let_def)
  have next_exp: "x < 2 ^ 53 * pow2 (e0 + 1)"
  proof (cases "1 \<le> x")
    case True
    define d where "d = nbits \<lfloor>x\<rfloor>"
    have "\<lfloor>x\<rfloor> < 2 ^ d" unfolding d_def by (rule nbits_upper)
    then have "x < of_int (2 ^ d)" by (simp only: floor_less_iff)
    then have 1: "x < 2 ^ d" by simp
    have "e0 = int d - 53" using True by (simp add: e0_def d_def)
    then have "53 + e0 = int d" by simp
    then have "pow2 53 * pow2 e0 = 2 ^ d" by (simp only: pow2_nat flip: pow2_add)
    moreover have "pow2 53 = 2 ^ 53" by (simp add: pow2_def)
    ultimately have "x < 2 ^ 53 * pow2 e0" using 1 by simp
    moreover have "pow2 e0 < pow2 (e0 + 1)"
      using pow2_pos [of e0] by (simp add: pow2_add) (simp add: pow2_def)
    ultimately have "x < 2 ^ 53 * pow2 e0" and "2 ^ 53 * pow2 e0 < 2 ^ 53 * pow2 (e0 + 1)"
      by simp_all
    then show ?thesis by (rule less_trans)
  next
    case False
    define d where "d = nbits \<lfloor>1 / x\<rfloor>"
    from False assms have "1 < 1 / x" by (simp add: field_simps)
    then have fl: "0 < \<lfloor>1 / x\<rfloor>" by simp
    have dpos: "0 < d" by (simp add: d_def nbits_pos)
    have "(2::int) ^ (d - 1) \<le> \<lfloor>1 / x\<rfloor>" unfolding d_def by (rule nbits_lower [OF fl])
    then have "of_int ((2::int) ^ (d - 1)) \<le> (of_int \<lfloor>1 / x\<rfloor> :: rat)"
      by (simp only: of_int_le_iff)
    also have "\<dots> \<le> 1 / x" by simp
    finally have "(2::rat) ^ (d - 1) \<le> 1 / x" by simp
    then have 2: "x * 2 ^ (d - 1) \<le> 1" using assms by (simp add: field_simps)
    have "e0 = - int d - 52" using False by (simp add: e0_def d_def)
    then have "(53 + (e0 + 1)) + int (d - 1) = 1" using dpos by simp
    then have h: "pow2 (53 + (e0 + 1)) * pow2 (int (d - 1)) = 2"
      by (simp only: flip: pow2_add) (simp add: pow2_def)
    have a: "pow2 (53 + (e0 + 1)) = pow2 53 * pow2 (e0 + 1)" by (rule pow2_add)
    have b: "pow2 53 = 2 ^ 53" by (simp add: pow2_def)
    have 3: "2 ^ 53 * pow2 (e0 + 1) * 2 ^ (d - 1) = 2"
      using h unfolding a b pow2_nat .
    have lt: "x * 2 ^ (d - 1) < 2" using 2 by simp
    have "x * 2 ^ (d - 1) < (2 ^ 53 * pow2 (e0 + 1)) * 2 ^ (d - 1)"
      unfolding 3 by (rule lt)
    moreover have "(0::rat) < 2 ^ (d - 1)" by simp
    ultimately show ?thesis by (simp only: mult_less_cancel_right_pos)
  qed
  show ?thesis
  proof (cases "x < 2 ^ 53 * pow2 e0")
    case True
    with e show ?thesis by simp
  next
    case False
    with e next_exp show ?thesis by simp
  qed
qed

text \<open>An int of \<open>2 ^ 1024\<close> or more is too large to convert to a float.\<close>

lemma round_half_even_ge:
  assumes "of_int n \<le> y"
  shows "n \<le> round_half_even y"
proof -
  have "n \<le> \<lfloor>y\<rfloor>" using assms by (simp add: le_floor_iff)
  then show ?thesis by (simp add: round_half_even_def Let_def)
qed

lemma float_of_int_overflow:
  assumes "2 ^ 1024 \<le> i"
  shows "float_of_int i = Inl OverflowError"
proof -
  define x :: rat where "x = of_int i"
  have "(of_int (2 ^ 1024) :: rat) \<le> of_int i" using assms by (simp only: of_int_le_iff)
  then have big: "2 ^ 1024 \<le> x" by (simp add: x_def)
  then have xpos: "0 < x" by simp
  have p52: "pow2 52 = 2 ^ 52" and p53: "pow2 53 = 2 ^ 53" by (simp_all add: pow2_def)
  have split: "(2::rat) ^ 1024 = 2 ^ 53 * pow2 971" "(2::rat) ^ 1024 = 2 ^ 52 * pow2 972"
    by (simp_all add: pow2_def)
  define e where "e = bin_exponent x"
  have lo: "2 ^ 52 * pow2 e \<le> x" unfolding e_def by (rule bin_exponent_lower [OF xpos])
  have up: "x < 2 ^ 53 * pow2 e" unfolding e_def by (rule bin_exponent_upper [OF xpos])
  from big up have "2 ^ 1024 < 2 ^ 53 * pow2 e" by (rule le_less_trans)
  then have "pow2 971 < pow2 e" by (simp only: split(1)) simp
  then have e971: "971 < e" by (rule pow2_less_imp)
  then have m: "max e (- 1074) = e" by simp
  define n where "n = round_half_even (x / pow2 e)"
  have pe: "0 < pow2 e" by (rule pow2_pos)
  have "of_int (2 ^ 52) \<le> x / pow2 e" using lo pe by (simp add: field_simps)
  then have n52: "2 ^ 52 \<le> n" unfolding n_def by (rule round_half_even_ge)
  define r where "r = of_int n * pow2 e"
  have "(of_int (2 ^ 52) :: rat) \<le> of_int n" using n52 by (simp only: of_int_le_iff)
  then have "of_int (2 ^ 52) * pow2 e \<le> r" unfolding r_def using pe
    by (intro mult_right_mono) simp_all
  then have rlo: "2 ^ 52 * pow2 e \<le> r" by simp
  have "2 ^ 52 * pow2 972 \<le> 2 ^ 52 * pow2 e"
    using e971 power_int_increasing [of 972 e "2::rat"] by (simp add: pow2_powi)
  from this rlo have "2 ^ 52 * pow2 972 \<le> r" by (rule order_trans)
  then have rbig: "2 ^ 1024 \<le> r" by (simp only: split(2))
  then have rpos: "0 < r" by simp
  have "r < 2 ^ 53 * pow2 (bin_exponent r)" by (rule bin_exponent_upper [OF rpos])
  with rbig have "2 ^ 1024 < 2 ^ 53 * pow2 (bin_exponent r)" by (rule le_less_trans)
  then have "pow2 971 < pow2 (bin_exponent r)" by (simp only: split(1)) simp
  then have "971 < bin_exponent r" by (rule pow2_less_imp)
  moreover have "n \<noteq> 0" using n52 by auto
  moreover have "pow2 e \<noteq> 0" using pe by simp
  ultimately have "round_double x = NonFinite PosInf"
    using xpos rpos by (simp add: round_double_def Let_def m flip: e_def n_def r_def)
  then show ?thesis by (simp add: float_of_int_def x_def)
qed

text \<open>A value of at most 53 bits in the range of the doubles is not changed by the rounding.\<close>

lemma round_double_exact:
  assumes m: "x = of_int m * pow2 e" and small: "\<bar>m\<bar> < 2 ^ 53" and e: "- 1074 \<le> e"
    and range: "\<bar>x\<bar> < 2 ^ 1024"
  shows "round_double x = Float x"
proof (cases "x = 0")
  case True
  then show ?thesis by (simp add: round_double_def)
next
  case False
  define d where "d = max (bin_exponent \<bar>x\<bar>) (- 1074)"
  have xpos: "0 < \<bar>x\<bar>" using False by simp
  have pe: "0 < pow2 e" by (rule pow2_pos)
  have absx: "\<bar>x\<bar> = of_int \<bar>m\<bar> * pow2 e"
    using pe by (simp add: m abs_mult)
  have "of_int \<bar>m\<bar> < (of_int (2 ^ 53) :: rat)" using small by (simp only: of_int_less_iff)
  then have "of_int \<bar>m\<bar> * pow2 e < of_int (2 ^ 53) * pow2 e"
    using pe by (simp only: mult_less_cancel_right_pos)
  then have up: "\<bar>x\<bar> < 2 ^ 53 * pow2 e" by (simp add: absx)
  have lo: "2 ^ 52 * pow2 (bin_exponent \<bar>x\<bar>) \<le> \<bar>x\<bar>" by (rule bin_exponent_lower [OF xpos])
  from lo up have "2 ^ 52 * pow2 (bin_exponent \<bar>x\<bar>) < 2 ^ 53 * pow2 e"
    by (rule le_less_trans)
  then have "pow2 (bin_exponent \<bar>x\<bar>) < 2 * pow2 e" by simp
  also have "\<dots> = pow2 (e + 1)" by (simp add: pow2_add) (simp add: pow2_def)
  finally have "bin_exponent \<bar>x\<bar> < e + 1" by (rule pow2_less_imp)
  with e have le: "d \<le> e" by (simp add: d_def)
  define j where "j = nat (e - d)"
  have "e = d + int j" using le by (simp add: j_def)
  then have pw: "pow2 e = pow2 d * 2 ^ j" by (simp only: pow2_add pow2_nat)
  have pos: "0 < pow2 d" by (rule pow2_pos)
  have "\<bar>x\<bar> / pow2 d = of_int \<bar>m\<bar> * 2 ^ j" using pos by (simp add: absx pw)
  also have "\<dots> = of_int (\<bar>m\<bar> * 2 ^ j)" by simp
  finally have q: "\<bar>x\<bar> / pow2 d = of_int (\<bar>m\<bar> * 2 ^ j)" .
  have "sgn x * of_int (round_half_even (\<bar>x\<bar> / pow2 d)) * pow2 d = sgn x * (\<bar>x\<bar> / pow2 d) * pow2 d"
    by (simp only: q round_half_even_of_int)
  also have "\<dots> = sgn x * \<bar>x\<bar>" using pos by simp
  also have "\<dots> = x" by (simp add: sgn_mult_abs)
  finally have r: "sgn x * of_int (round_half_even (\<bar>x\<bar> / pow2 d)) * pow2 d = x" .
  have split: "(2::rat) ^ 1024 = 2 ^ 52 * pow2 972" by (simp add: pow2_def)
  from lo range have "2 ^ 52 * pow2 (bin_exponent \<bar>x\<bar>) < 2 ^ 1024" by (rule le_less_trans)
  then have "pow2 (bin_exponent \<bar>x\<bar>) < pow2 972" by (simp only: split) simp
  then have "bin_exponent \<bar>x\<bar> < 972" by (rule pow2_less_imp)
  then have "\<not> 971 < bin_exponent \<bar>x\<bar>" by simp
  then show ?thesis
    using False by (simp add: round_double_def Let_def r flip: d_def)
qed

lemma float_of_int_exact:
  assumes "\<bar>i\<bar> < 2 ^ 53"
  shows "float_of_int i = Inr (Float (of_int i))"
proof -
  have "of_int i = of_int i * pow2 0" by (simp add: pow2_def)
  moreover have "\<bar>of_int i :: rat\<bar> < 2 ^ 1024"
  proof -
    have "\<bar>i\<bar> < 2 ^ 1024" using assms by simp
    then have "(of_int \<bar>i\<bar> :: rat) < of_int (2 ^ 1024)" by (simp only: of_int_less_iff)
    then show ?thesis by simp
  qed
  ultimately have "round_double (of_int i) = Float (of_int i)"
    using assms by (intro round_double_exact [where m = i and e = 0]) simp_all
  then show ?thesis by (simp add: float_of_int_def)
qed

lemma float_halve_exact:
  assumes "\<bar>i\<bar> < 2 ^ 53"
  shows "float_halve (Float (of_int i)) = Float (of_int i / 2)"
proof -
  have "of_int i / 2 = of_int i * pow2 (- 1)" by (simp add: pow2_def)
  moreover have "\<bar>of_int i / 2 :: rat\<bar> < 2 ^ 1024"
  proof -
    have "\<bar>i\<bar> < 2 ^ 1024" using assms by simp
    then have "(of_int \<bar>i\<bar> :: rat) < of_int (2 ^ 1024)" by (simp only: of_int_less_iff)
    then show ?thesis by simp
  qed
  ultimately have "round_double (of_int i / 2) = Float (of_int i / 2)"
    using assms by (intro round_double_exact [where m = i and e = "- 1"]) simp_all
  then show ?thesis by simp
qed

section \<open>Invariants of the sliding window\<close>

lemma frac_digits_iff: "frac_digits k v \<longleftrightarrow> (\<exists>m::int. v * 10 ^ k = of_int m)"
  by (simp add: frac_digits_def)

lemma frac_digits_add: "frac_digits k a \<Longrightarrow> frac_digits k b \<Longrightarrow> frac_digits k (a + b)"
proof -
  assume "frac_digits k a" "frac_digits k b"
  then obtain m n :: int where "a * 10 ^ k = of_int m" "b * 10 ^ k = of_int n"
    by (auto simp: frac_digits_iff)
  then have "(a + b) * 10 ^ k = of_int (m + n)" by (simp add: distrib_right)
  then show ?thesis unfolding frac_digits_iff ..
qed

lemma frac_digits_sum_list: "\<forall>v\<in>set vs. frac_digits k v \<Longrightarrow> frac_digits k (sum_list vs)"
proof (induction vs)
  case Nil
  show ?case by (simp add: frac_digits_def)
next
  case (Cons v vs)
  then show ?case by (simp add: frac_digits_add)
qed

lemma frac_digits_pow10:
  assumes "frac_digits k x"
  shows "\<exists>m. x = of_int m * pow10 (- int k) \<and> \<bar>of_int m :: rat\<bar> = \<bar>x\<bar> * 10 ^ k"
proof -
  from assms obtain m :: int where m: "x * 10 ^ k = of_int m"
    by (auto simp: frac_digits_iff)
  have "pow10 (- int k) * pow10 (int k) = 1"
    by (simp only: flip: pow10_add) (simp add: pow10_def)
  then have inv: "pow10 (- int k) * 10 ^ k = 1" by (simp only: pow10_nat)
  have "x = (x * 10 ^ k) * pow10 (- int k)" using inv by (simp add: mult.assoc mult.commute)
  then have "x = of_int m * pow10 (- int k)" by (simp only: m)
  moreover have "\<bar>of_int m :: rat\<bar> = \<bar>x\<bar> * 10 ^ k" by (simp add: abs_mult flip: m)
  ultimately show ?thesis by blast
qed

lemma dec_round_frac_digits:
  assumes "frac_digits k x" and "\<bar>x\<bar> * 10 ^ k < 10 ^ 28" and "int k \<le> - Etiny"
  shows "dec_round x = x"
proof -
  from frac_digits_pow10 [OF assms(1)] obtain m :: int where
    m: "x = of_int m * pow10 (- int k)" and am: "\<bar>of_int m :: rat\<bar> = \<bar>x\<bar> * 10 ^ k"
    by blast
  have "(of_int \<bar>m\<bar> :: rat) = \<bar>x\<bar> * 10 ^ k" using am by simp
  with assms(2) have "(of_int \<bar>m\<bar> :: rat) < of_int (10 ^ 28)" by simp
  then have "\<bar>m\<bar> < 10 ^ 28" by (simp only: of_int_less_iff)
  moreover have "Etiny \<le> - int k" using assms(3) by simp
  ultimately show ?thesis using m by (intro dec_round_exact)
qed

lemma abs_le_scaled:
  fixes x :: rat
  shows "\<bar>x\<bar> \<le> \<bar>x\<bar> * 10 ^ k"
proof -
  have "\<bar>x\<bar> * 1 \<le> \<bar>x\<bar> * 10 ^ k" by (intro mult_left_mono) simp_all
  then show ?thesis by simp
qed

lemma dec_fix_frac_digits:
  assumes "frac_digits k x" and "\<bar>x\<bar> * 10 ^ k < 10 ^ 28" and "int k \<le> - Etiny"
  shows "dec_fix x = Inr (Fin x)"
proof -
  have "\<bar>x\<bar> < 10 ^ 28" using abs_le_scaled assms(2) by (rule le_less_trans)
  then have "dec_fix x = Inr (Fin (dec_round x))" by (rule dec_fix_bounded)
  with dec_round_frac_digits [OF assms] show ?thesis by simp
qed

lemma abs_sum_bound:
  fixes W K T :: rat
  assumes "vs \<noteq> []" and "\<forall>v\<in>set vs. \<bar>v\<bar> * W * K < T"
  shows "sum_list (map abs vs) * W * K < of_nat (length vs) * T"
  using assms
proof (induction vs rule: list_nonempty_induct)
  case (single v)
  then show ?case by simp
next
  case (cons v vs)
  then have "\<bar>v\<bar> * W * K < T" and "sum_list (map abs vs) * W * K < of_nat (length vs) * T"
    by simp_all
  then show ?case by (simp add: algebra_simps)
qed

lemma sum_list_bound:
  assumes ws: "0 < ws" and fits: "\<forall>v\<in>set vs. fits ws k v" and len: "length vs \<le> ws"
  shows "\<bar>sum_list vs\<bar> * 10 ^ k < 10 ^ 28"
proof (cases "vs = []")
  case True
  then show ?thesis by simp
next
  case False
  have "\<forall>v\<in>set vs. \<bar>v\<bar> * of_nat ws * 10 ^ k < 10 ^ 28"
    using fits by (simp add: fits_def)
  with False have "sum_list (map abs vs) * of_nat ws * 10 ^ k < of_nat (length vs) * 10 ^ 28"
    by (rule abs_sum_bound)
  also have "\<dots> \<le> of_nat ws * 10 ^ 28" using len by simp
  finally have "(sum_list (map abs vs) * 10 ^ k) * of_nat ws < 10 ^ 28 * of_nat ws"
    by (simp add: mult.commute mult.left_commute)
  then have upper: "sum_list (map abs vs) * 10 ^ k < 10 ^ 28"
    using ws by (simp only: mult_less_cancel_right_pos of_nat_0_less_iff)
  have "\<bar>sum_list vs\<bar> \<le> sum_list (map abs vs)" by (rule sum_list_abs)
  then have "\<bar>sum_list vs\<bar> * 10 ^ k \<le> sum_list (map abs vs) * 10 ^ k"
    by (intro mult_right_mono) simp_all
  from this upper show ?thesis by (rule le_less_trans)
qed

lemma dec_fix_sum_list:
  assumes ws: "0 < ws" and fits: "\<forall>v\<in>set vs. fits ws k v" and len: "length vs \<le> ws"
    and k: "int k \<le> - Etiny"
  shows "dec_fix (sum_list vs) = Inr (Fin (sum_list vs))"
proof -
  have "frac_digits k (sum_list vs)"
    using fits by (intro frac_digits_sum_list) (simp add: fits_def)
  moreover have "\<bar>sum_list vs\<bar> * 10 ^ k < 10 ^ 28" using ws fits len by (rule sum_list_bound)
  ultimately show ?thesis using k by (rule dec_fix_frac_digits)
qed

text \<open>The quotient of an exact window sum by the count is rounded, and nothing is raised.\<close>

lemma dec_fix_mean:
  assumes ws: "0 < ws" and fits: "\<forall>v\<in>set vs. fits ws k v" and len: "length vs \<le> ws"
    and n: "0 < n"
  shows "dec_fix (sum_list vs / of_nat n) = Inr (Fin (dec_round (sum_list vs / of_nat n)))"
proof -
  have "\<bar>sum_list vs\<bar> \<le> \<bar>sum_list vs\<bar> * 10 ^ k" by (rule abs_le_scaled)
  moreover have "\<bar>sum_list vs\<bar> * 10 ^ k < 10 ^ 28" using ws fits len by (rule sum_list_bound)
  ultimately have b: "\<bar>sum_list vs\<bar> < 10 ^ 28" by (rule le_less_trans)
  have "(1::rat) \<le> of_nat n" using n by simp
  then have "\<bar>sum_list vs\<bar> / of_nat n \<le> \<bar>sum_list vs\<bar> / 1"
    by (intro divide_left_mono) simp_all
  then have "\<bar>sum_list vs / of_nat n\<bar> \<le> \<bar>sum_list vs\<bar>" by simp
  from this b have "\<bar>sum_list vs / of_nat n\<bar> < 10 ^ 28" by (rule le_less_trans)
  then show ?thesis by (rule dec_fix_bounded)
qed

lemma take_rev_snoc: "0 < ws \<Longrightarrow> take ws (rev (seen @ [t])) = t # take (ws - 1) (rev seen)"
  by (cases ws) simp_all

lemma sum_take_drop_last:
  fixes seen :: "rat list"
  assumes "ws \<le> length seen" and "0 < ws"
  shows "sum_list (take ws (rev seen)) - seen ! (length seen - ws) =
         sum_list (take (ws - 1) (rev seen))"
proof -
  have "ws - 1 < length (rev seen)" using assms by simp
  then have "take (Suc (ws - 1)) (rev seen) = take (ws - 1) (rev seen) @ [rev seen ! (ws - 1)]"
    by (rule take_Suc_conv_app_nth)
  moreover have "rev seen ! (ws - 1) = seen ! (length seen - Suc (ws - 1))"
    using assms by (intro rev_nth) simp
  ultimately show ?thesis using assms by simp
qed

lemma mod_neq_within_window:
  fixes i n ws :: nat
  assumes "i < n" and "n - i < ws"
  shows "i mod ws \<noteq> n mod ws"
proof
  assume "i mod ws = n mod ws"
  then have "n mod ws = i mod ws" by simp
  then have "ws dvd n - i" using assms(1) by (simp add: mod_eq_dvd_iff_nat)
  moreover have "0 < n - i" using assms(1) by simp
  ultimately have "ws \<le> n - i" by (rule dvd_imp_le)
  with assms(2) show False by simp
qed

lemma update_tracks:
  assumes ws: "0 < ws" and tr: "tracks ws seen s" and fits: "\<forall>v\<in>set (seen @ [t]). fits ws k v"
    and k: "int k \<le> - Etiny"
  shows "\<exists>s'. update ws s (Fin t) = Inr (s', Fin (dec_round (window_mean ws (seen @ [t])))) \<and>
              tracks ws (seen @ [t]) s'"
proof -
  define n where "n = length seen"
  from tr have len: "length (buffer s) = ws" and cnt: "count s = min n ws"
    and cur: "current s = n mod ws"
    and tot: "total_sum s = Fin (sum_list (take ws (rev seen)))"
    and buf: "\<And>i. i < n \<Longrightarrow> n - i \<le> ws \<Longrightarrow> buffer s ! (i mod ws) = Fin (seen ! i)"
    by (simp_all add: tracks_def n_def)
  have inrange: "current s < length (buffer s)" using ws by (simp add: len cur)
  define total1 where "total1 = sum_list (take (ws - 1) (rev seen))"
  have t1: "(if count s = ws then dec_sub (total_sum s) (buffer s ! current s)
             else Inr (total_sum s)) = Inr (Fin total1)"
  proof (cases "count s = ws")
    case True
    then have ge: "ws \<le> n" by (simp add: cnt)
    have "buffer s ! current s = buffer s ! ((n - ws) mod ws)"
      using ge by (simp add: cur le_mod_geq)
    also have "\<dots> = Fin (seen ! (n - ws))" using ge ws by (intro buf) simp_all
    finally have b: "buffer s ! current s = Fin (seen ! (n - ws))" .
    have d: "sum_list (take ws (rev seen)) - seen ! (n - ws) = total1"
      using sum_take_drop_last [of ws seen] ge ws by (simp add: n_def total1_def)
    have "dec_fix total1 = Inr (Fin total1)"
      unfolding total1_def using fits
      by (intro dec_fix_sum_list [OF ws _ _ k]) (auto dest: in_set_takeD)
    then have "dec_sub (total_sum s) (buffer s ! current s) = Inr (Fin total1)"
      by (simp add: dec_sub_def tot b d)
    with True show ?thesis by simp
  next
    case False
    then have "n < ws" by (simp add: cnt)
    then have "take ws (rev seen) = take (ws - 1) (rev seen)" by (simp add: n_def)
    then show ?thesis using False by (simp add: total1_def tot)
  qed
  define total2 where "total2 = sum_list (take ws (rev (seen @ [t])))"
  have infits: "\<forall>v\<in>set (take ws (rev (seen @ [t]))). fits ws k v"
  proof
    fix v
    assume "v \<in> set (take ws (rev (seen @ [t])))"
    then have "v \<in> set (rev (seen @ [t]))" by (rule in_set_takeD)
    then have "v \<in> set (seen @ [t])" by (simp only: set_rev)
    with fits show "fits ws k v" by blast
  qed
  have t2: "dec_add (Fin total1) (Fin t) = Inr (Fin total2)"
  proof -
    have "dec_fix total2 = Inr (Fin total2)"
      unfolding total2_def using ws infits _ k by (rule dec_fix_sum_list) simp
    moreover have "take ws (rev (seen @ [t])) = t # take (ws - 1) (rev seen)"
      using ws by (rule take_rev_snoc)
    then have "total1 + t = total2" by (simp add: total1_def total2_def)
    ultimately show ?thesis by simp
  qed
  define count' where "count' = (if count s \<noteq> ws then count s + 1 else count s)"
  have c': "count' = min (length (seen @ [t])) ws" by (auto simp: count'_def cnt n_def)
  have cpos: "0 < count'" using ws by (simp add: c')
  have mean: "total2 / of_nat count' = window_mean ws (seen @ [t])"
    by (simp add: window_mean_def total2_def c')
  have "dec_fix (total2 / of_nat count') = Inr (Fin (dec_round (total2 / of_nat count')))"
    unfolding total2_def using ws infits _ cpos by (rule dec_fix_mean) simp
  then have dv: "dec_div (Fin total2) (Fin (of_nat count')) =
      Inr (Fin (dec_round (window_mean ws (seen @ [t]))))"
    using cpos by (simp add: mean)
  define s' where "s' = \<lparr>buffer = (buffer s)[current s := Fin t], count = count',
    current = (current s + 1) mod ws, total_sum = Fin total2\<rparr>"
  have upd: "update ws s (Fin t) = Inr (s', Fin (dec_round (window_mean ws (seen @ [t]))))"
    using inrange dv [unfolded count'_def]
    by (simp add: update_def t1 t2 Let_def s'_def count'_def del: dec_add.simps dec_div.simps)
  have slot: "buffer s' ! (i mod ws) = Fin ((seen @ [t]) ! i)"
    if i: "i < length (seen @ [t])" "length (seen @ [t]) - i \<le> ws" for i
  proof (cases "i = n")
    case True
    then show ?thesis using inrange by (simp add: s'_def cur n_def)
  next
    case False
    with i have lt: "i < n" and near: "n - i < ws" by (simp_all add: n_def)
    then have "i mod ws \<noteq> n mod ws" by (rule mod_neq_within_window)
    then have "buffer s' ! (i mod ws) = buffer s ! (i mod ws)" by (simp add: s'_def cur)
    also have "\<dots> = Fin (seen ! i)" using lt near by (intro buf) simp_all
    finally show ?thesis using lt by (simp add: nth_append n_def)
  qed
  have "tracks ws (seen @ [t]) s'"
    unfolding tracks_def
  proof (intro conjI allI impI)
    show "length (buffer s') = ws" by (simp add: s'_def len)
    show "count s' = min (length (seen @ [t])) ws" by (simp add: s'_def c')
    show "current s' = length (seen @ [t]) mod ws" by (simp add: s'_def cur n_def mod_Suc_eq)
    show "total_sum s' = Fin (sum_list (take ws (rev (seen @ [t]))))"
      by (simp add: s'_def total2_def)
    show "buffer s' ! (i mod ws) = Fin ((seen @ [t]) ! i)"
      if "i < length (seen @ [t])" "length (seen @ [t]) - i \<le> ws" for i
      using that by (rule slot)
  qed
  with upd show ?thesis by simp
qed

lemma tracks_initial: "tracks ws [] (initial_state ws)"
  by (simp add: tracks_def initial_state_def)

lemma fits_window_Fin: "fits_window ws k d \<Longrightarrow> \<exists>v. d = Fin v \<and> fits ws k v"
  by (cases d) (simp_all add: fits_window_def)

lemma send_open:
  "raises_at ch = None \<Longrightarrow> send ch x = Inr (ch\<lparr>delivered := delivered ch @ [x]\<rparr>)"
  by (simp add: send_def)

lemma send_delivers:
  "send ch x = Inr ch' \<Longrightarrow> ch' = ch\<lparr>delivered := delivered ch @ [x]\<rparr>"
  by (auto simp: send_def split: option.splits if_splits)

lemma sliding_loop_tracks:
  assumes ws: "0 < ws" and k: "int k \<le> - Etiny"
  shows "tracks ws seen s \<Longrightarrow> \<forall>v\<in>set seen. fits ws k v \<Longrightarrow>
         \<forall>x\<in>set rest. fits_window ws k (snd x) \<Longrightarrow> raises_at ch = None \<Longrightarrow>
         \<exists>sent. sliding_loop ws s rest ending ch =
                  (ch\<lparr>delivered := delivered ch @ sent\<rparr>, ending) \<and>
           length sent = length rest \<and>
           (\<forall>i<length rest. sent ! i =
              (fst (rest ! i),
               Fin (dec_round (window_mean ws
                      (seen @ map (finite_value \<circ> snd) (take (Suc i) rest))))))"
proof (induction rest arbitrary: seen s ch)
  case Nil
  show ?case by simp
next
  case (Cons x rest)
  obtain ts d where x: "x = (ts, d)" by (cases x)
  from Cons.prems(3) have "fits_window ws k d" by (simp add: x)
  then obtain t where d: "d = Fin t" and ft: "fits ws k t" using fits_window_Fin by blast
  have fs: "\<forall>v\<in>set (seen @ [t]). fits ws k v" using Cons.prems(2) ft by simp
  with ws Cons.prems(1) k obtain s' where
    upd: "update ws s (Fin t) = Inr (s', Fin (dec_round (window_mean ws (seen @ [t]))))" and
    tr': "tracks ws (seen @ [t]) s'"
    using update_tracks by blast
  define avg where "avg = Fin (dec_round (window_mean ws (seen @ [t])))"
  define ch' where "ch' = ch\<lparr>delivered := delivered ch @ [(ts, avg)]\<rparr>"
  have snd': "send ch (ts, avg) = Inr ch'"
    using Cons.prems(4) by (simp add: send_open ch'_def)
  have op': "raises_at ch' = None" using Cons.prems(4) by (simp add: ch'_def)
  have rest: "\<forall>x\<in>set rest. fits_window ws k (snd x)" using Cons.prems(3) by simp
  from Cons.IH [OF tr' fs rest op'] obtain sent where
    run: "sliding_loop ws s' rest ending ch' = (ch'\<lparr>delivered := delivered ch' @ sent\<rparr>, ending)"
    and len: "length sent = length rest" and
    nth: "\<And>i. i < length rest \<Longrightarrow> sent ! i =
              (fst (rest ! i),
               Fin (dec_round (window_mean ws
                 ((seen @ [t]) @ map (finite_value \<circ> snd) (take (Suc i) rest)))))"
    by blast
  let ?out = "(ts, avg) # sent"
  have "sliding_loop ws s (x # rest) ending ch = (ch\<lparr>delivered := delivered ch @ ?out\<rparr>, ending)"
    by (simp add: x d upd snd' run flip: avg_def) (simp add: ch'_def)
  moreover have "length ?out = length (x # rest)" by (simp add: len)
  moreover have "?out ! i =
      (fst ((x # rest) ! i),
       Fin (dec_round (window_mean ws
              (seen @ map (finite_value \<circ> snd) (take (Suc i) (x # rest))))))"
    if "i < length (x # rest)" for i
  proof (cases i)
    case 0
    then show ?thesis by (simp add: x d avg_def)
  next
    case (Suc j)
    with that have "j < length rest" by simp
    then show ?thesis using nth [of j] by (simp add: Suc x d)
  qed
  ultimately show ?case by blast
qed

text \<open>Whatever the values are, the averages sent carry the timestamps of the pairs
  received, in order, one for each pair taken up to the point where the loop ended.\<close>

lemma sliding_loop_prefix:
  "\<exists>sent err. sliding_loop ws s rest ending ch = (ch\<lparr>delivered := delivered ch @ sent\<rparr>, err) \<and>
     map fst sent = take (length sent) (map fst rest) \<and>
     (err = None \<longrightarrow> length sent = length rest)"
proof (induction rest arbitrary: s ch)
  case Nil
  have "sliding_loop ws s [] ending ch = (ch\<lparr>delivered := delivered ch @ []\<rparr>, ending)" by simp
  then show ?case by fastforce
next
  case (Cons x rest)
  obtain ts d where x: "x = (ts, d)" by (cases x)
  show ?case
  proof (cases "update ws s d")
    case (Inl e)
    then have "sliding_loop ws s (x # rest) ending ch = (ch\<lparr>delivered := delivered ch @ []\<rparr>, Some e)"
      by (simp add: x)
    then show ?thesis by fastforce
  next
    case (Inr r)
    obtain s' avg where r: "r = (s', avg)" by (cases r)
    show ?thesis
    proof (cases "send ch (ts, avg)")
      case (Inl e)
      then have "sliding_loop ws s (x # rest) ending ch =
          (ch\<lparr>delivered := delivered ch @ []\<rparr>, Some e)"
        using Inr by (simp add: x r)
      then show ?thesis by fastforce
    next
      case sent: (Inr ch')
      then have ch': "ch' = ch\<lparr>delivered := delivered ch @ [(ts, avg)]\<rparr>" by (rule send_delivers)
      from Cons.IH [of s' ch'] obtain sent err where
        run: "sliding_loop ws s' rest ending ch' = (ch'\<lparr>delivered := delivered ch' @ sent\<rparr>, err)"
        and pre: "map fst sent = take (length sent) (map fst rest)"
        and all: "err = None \<longrightarrow> length sent = length rest"
        by blast
      have "sliding_loop ws s (x # rest) ending ch =
          (ch\<lparr>delivered := delivered ch @ ((ts, avg) # sent)\<rparr>, err)"
        using Inr sent run by (simp add: x r) (simp add: ch')
      moreover have "map fst ((ts, avg) # sent) =
          take (length ((ts, avg) # sent)) (map fst (x # rest))"
        using pre by (simp add: x)
      moreover have "err = None \<longrightarrow> length ((ts, avg) # sent) = length (x # rest)"
        using all by simp
      ultimately show ?thesis by blast
    qed
  qed
qed

lemma window_states_tracks:
  assumes ws: "0 < ws" and k: "int k \<le> - Etiny"
  shows "tracks ws seen s \<Longrightarrow> \<forall>v\<in>set (seen @ temps). fits ws k v \<Longrightarrow>
         \<exists>s'. window_states ws s (map Fin temps) = Inr s' \<and> tracks ws (seen @ temps) s'"
proof (induction temps arbitrary: seen s)
  case Nil
  then show ?case by simp
next
  case (Cons t temps)
  have "\<forall>v\<in>set (seen @ [t]). fits ws k v" using Cons.prems(2) by simp
  with ws Cons.prems(1) k obtain s' where
    upd: "update ws s (Fin t) = Inr (s', Fin (dec_round (window_mean ws (seen @ [t]))))" and
    tr': "tracks ws (seen @ [t]) s'"
    using update_tracks by blast
  have "\<forall>v\<in>set ((seen @ [t]) @ temps). fits ws k v" using Cons.prems(2) by simp
  with Cons.IH [OF tr'] obtain s'' where
    "window_states ws s' (map Fin temps) = Inr s''" and "tracks ws ((seen @ [t]) @ temps) s''"
    by blast
  then show ?case by (simp add: upd)
qed

text \<open>The filled count never passes the window size, whatever the values are.\<close>

lemma update_count:
  assumes "update ws s d = Inr (s', average)" and "count s \<le> ws"
  shows "count s' \<le> ws"
  using assms
  by (auto simp: update_def Let_def split: if_splits sum.splits)

lemma window_states_count:
  "window_states ws s temps = Inr s' \<Longrightarrow> count s \<le> ws \<Longrightarrow> count s' \<le> ws"
proof (induction temps arbitrary: s)
  case Nil
  then show ?case by simp
next
  case (Cons d temps)
  from Cons.prems(1) obtain s1 average where
    upd: "update ws s d = Inr (s1, average)" and run: "window_states ws s1 temps = Inr s'"
    by (auto split: sum.splits)
  from upd Cons.prems(2) have "count s1 \<le> ws" by (rule update_count)
  with run show ?case by (rule Cons.IH)
qed

lemma recent_slot:
  fixes n ws i :: nat
  assumes "i < n" and "i < ws"
  shows "(n mod ws + ws - Suc i) mod ws = (n - Suc i) mod ws"
proof -
  define a where "a = n - Suc i"
  have n: "n = a + Suc i" using assms(1) by (simp add: a_def)
  have "n mod ws + ws - Suc i = n mod ws + (ws - Suc i)" using assms(2) by simp
  also have "\<dots> mod ws = (n + (ws - Suc i)) mod ws" by (simp add: mod_add_left_eq)
  also have "n + (ws - Suc i) = a + ws" using assms(2) by (simp add: n)
  also have "(a + ws) mod ws = a mod ws" by simp
  finally show ?thesis by (simp add: a_def)
qed

lemma tracks_recent_values:
  assumes ws: "0 < ws" and tr: "tracks ws seen s"
  shows "recent_values ws s = map Fin (take (count s) (rev seen))"
proof (rule nth_equalityI)
  from tr have cnt: "count s = min (length seen) ws" by (simp add: tracks_def)
  show "length (recent_values ws s) = length (map Fin (take (count s) (rev seen)))"
    by (simp add: recent_values_def cnt)
  fix i
  assume "i < length (recent_values ws s)"
  then have i: "i < length seen" "i < ws" by (simp_all add: recent_values_def cnt)
  from tr have cur: "current s = length seen mod ws" by (simp add: tracks_def)
  have "length seen - Suc i < length seen" using i by simp
  moreover have "length seen - (length seen - Suc i) \<le> ws" using i by simp
  ultimately have "buffer s ! ((length seen - Suc i) mod ws) = Fin (seen ! (length seen - Suc i))"
    using tr by (simp add: tracks_def)
  moreover have "rev seen ! i = seen ! (length seen - Suc i)" using i by (simp add: rev_nth)
  ultimately show "recent_values ws s ! i = map Fin (take (count s) (rev seen)) ! i"
    using i by (simp add: recent_values_def cnt cur recent_slot)
qed
section \<open>Properties of the sliding average\<close>

subsection \<open>Concrete runs\<close>

lemma update_10_20_30_40:
  "update 3 (initial_state 3) (Fin 10) =
    Inr (\<lparr>buffer = [Fin 10, Fin 0, Fin 0], count = 1, current = 1, total_sum = Fin 10\<rparr>, Fin 10)"
  "update 3 \<lparr>buffer = [Fin 10, Fin 0, Fin 0], count = 1, current = 1, total_sum = Fin 10\<rparr> (Fin 20) =
    Inr (\<lparr>buffer = [Fin 10, Fin 20, Fin 0], count = 2, current = 2, total_sum = Fin 30\<rparr>, Fin 15)"
  "update 3 \<lparr>buffer = [Fin 10, Fin 20, Fin 0], count = 2, current = 2, total_sum = Fin 30\<rparr> (Fin 30) =
    Inr (\<lparr>buffer = [Fin 10, Fin 20, Fin 30], count = 3, current = 0, total_sum = Fin 60\<rparr>, Fin 20)"
  "update 3 \<lparr>buffer = [Fin 10, Fin 20, Fin 30], count = 3, current = 0, total_sum = Fin 60\<rparr> (Fin 40) =
    Inr (\<lparr>buffer = [Fin 40, Fin 20, Fin 30], count = 3, current = 1, total_sum = Fin 90\<rparr>, Fin 30)"
  by code_simp+

lemma run_10_20_30_40:
  "compute_sliding_average 3 [(t1, Fin 10), (t2, Fin 20), (t3, Fin 30), (t4, Fin 40)] None
     (open_channel None) =
     (\<lparr>raises_at = None,
       delivered = [(t1, Fin 10), (t2, Fin 15), (t3, Fin 20), (t4, Fin 30)]\<rparr>, None)"
  by (simp add: compute_sliding_average_def update_10_20_30_40 send_def open_channel_def
        del: One_nat_def)

lemma states_10_20_30_40:
  "window_states 3 (initial_state 3) [Fin 10, Fin 20, Fin 30, Fin 40] =
     Inr \<lparr>buffer = [Fin 40, Fin 20, Fin 30], count = 3, current = 1, total_sum = Fin 90\<rparr>"
  by (simp add: update_10_20_30_40 del: One_nat_def)

lemma update_1_1_2:
  "update 3 (initial_state 3) (Fin 1) =
    Inr (\<lparr>buffer = [Fin 1, Fin 0, Fin 0], count = 1, current = 1, total_sum = Fin 1\<rparr>, Fin 1)"
  "update 3 \<lparr>buffer = [Fin 1, Fin 0, Fin 0], count = 1, current = 1, total_sum = Fin 1\<rparr> (Fin 1) =
    Inr (\<lparr>buffer = [Fin 1, Fin 1, Fin 0], count = 2, current = 2, total_sum = Fin 2\<rparr>, Fin 1)"
  "update 3 \<lparr>buffer = [Fin 1, Fin 1, Fin 0], count = 2, current = 2, total_sum = Fin 2\<rparr> (Fin 2) =
    Inr (\<lparr>buffer = [Fin 1, Fin 1, Fin 2], count = 3, current = 0, total_sum = Fin 4\<rparr>,
         Fin (1333333333333333333333333333 / 1000000000000000000000000000))"
  by code_simp+

lemma run_1_1_2:
  "compute_sliding_average 3 [(''t1'', Fin 1), (''t2'', Fin 1), (''t3'', Fin 2)] None
     (open_channel None) =
     (\<lparr>raises_at = None,
       delivered = [(''t1'', Fin 1), (''t2'', Fin 1),
         (''t3'', Fin (1333333333333333333333333333 / 1000000000000000000000000000))]\<rparr>, None)"
  by (simp add: compute_sliding_average_def update_1_1_2 send_def open_channel_def
        del: One_nat_def)

lemma update_after_large_value:
  "update 2 (initial_state 2) (Fin (10 ^ 28)) =
     Inr (\<lparr>buffer = [Fin (10 ^ 28), Fin 0], count = 1, current = 1, total_sum = Fin (10 ^ 28)\<rparr>,
          Fin (10 ^ 28))"
  "update 2 \<lparr>buffer = [Fin (10 ^ 28), Fin 0], count = 1, current = 1, total_sum = Fin (10 ^ 28)\<rparr>
     (Fin 1) =
     Inr (\<lparr>buffer = [Fin (10 ^ 28), Fin 1], count = 2, current = 0, total_sum = Fin (10 ^ 28)\<rparr>,
          Fin (5 * 10 ^ 27))"
  "update 2 \<lparr>buffer = [Fin (10 ^ 28), Fin 1], count = 2, current = 0, total_sum = Fin (10 ^ 28)\<rparr>
     (Fin 1) =
     Inr (\<lparr>buffer = [Fin 1, Fin 1], count = 2, current = 1, total_sum = Fin 1\<rparr>, Fin (1 / 2))"
  by code_simp+

lemma run_large_1_1:
  "compute_sliding_average 2 [(''t1'', Fin (10 ^ 28)), (''t2'', Fin 1), (''t3'', Fin 1)] None
     (open_channel None) =
     (\<lparr>raises_at = None,
       delivered = [(''t1'', Fin (10 ^ 28)), (''t2'', Fin (5 * 10 ^ 27)), (''t3'', Fin (1 / 2))]\<rparr>,
      None)"
proof -
  have s: "\<And>xs x. send \<lparr>raises_at = None, delivered = xs\<rparr> (x :: string \<times> decimal) =
      Inr \<lparr>raises_at = None, delivered = xs @ [x]\<rparr>"
    by (simp add: send_def)
  show ?thesis
    by (simp only: compute_sliding_average_def sliding_loop.simps update_after_large_value
          open_channel_def s sum.case prod.case append.simps)
qed

lemma states_large_1:
  "window_states 2 (initial_state 2) [Fin (10 ^ 28), Fin 1] =
     Inr \<lparr>buffer = [Fin (10 ^ 28), Fin 1], count = 2, current = 0, total_sum = Fin (10 ^ 28)\<rparr>"
  by (simp only: window_states.simps update_after_large_value sum.case prod.case)

lemma naive_10_20_30_40:
  "naive_sliding_average 3 [(t1, Fin 10), (t2, Fin 20), (t3, Fin 30), (t4, Fin 40)] =
     [(t1, Fin 10), (t2, Fin 15), (t3, Fin 20), (t4, Fin 30)]"
proof -
  have r: "dec_round 10 = 10" "dec_round 15 = 15" "dec_round 20 = 20" "dec_round 30 = 30"
    by code_simp+
  show ?thesis
    by (simp add: naive_sliding_average_def window_mean_def upt_rec r)
qed

lemma fits_10_20_30_40:
  "fits_window 3 0 (Fin 10) \<and> fits_window 3 0 (Fin 20) \<and> fits_window 3 0 (Fin 30) \<and>
   fits_window 3 0 (Fin 40)"
  by (simp add: fits_window_def fits_def frac_digits_def)

lemma Etiny_neg: "int 0 \<le> - Etiny"
  by (simp add: Etiny_def Emin_def)

text \<open>
  Two runs that an exception ends. An infinite temperature makes the running sum infinite,
  and taking it out of the window again is \<^verbatim>\<open>Infinity - Infinity\<close>. And the sum of two
  temperatures of 9E+999999 needs the exponent 1000000.
\<close>

lemma run_infinity_evicted:
  "compute_sliding_average 1 [(''t1'', PosInfinity), (''t2'', Fin 1)] None (open_channel None) =
     (\<lparr>raises_at = None, delivered = [(''t1'', PosInfinity)]\<rparr>, Some InvalidOperation)"
  by (simp add: compute_sliding_average_def initial_state_def update_def dec_sub_def send_def
      open_channel_def)

lemma pow10_999999:
  "pow10 999999 = 10 ^ 27 * pow10 999972" "10 * pow10 999999 = 10 ^ 27 * pow10 999973"
proof -
  have p: "pow10 27 = 10 ^ 27" "pow10 26 = 10 ^ 26" by (simp_all add: pow10_def)
  have "pow10 999999 = pow10 (27 + 999972)" by simp
  also have "\<dots> = pow10 27 * pow10 999972" by (rule pow10_add)
  finally show "pow10 999999 = 10 ^ 27 * pow10 999972" by (simp only: p)
  have "pow10 999999 = pow10 (26 + 999973)" by simp
  also have "\<dots> = pow10 26 * pow10 999973" by (rule pow10_add)
  finally have "10 * pow10 999999 = 10 * (10 ^ 26 * pow10 999973)" by (simp only: p)
  then show "10 * pow10 999999 = 10 ^ 27 * pow10 999973" by simp
qed

lemma dec_fix_largest_exponent: "dec_fix (9 * pow10 999999) = Inr (Fin (9 * pow10 999999))"
proof -
  define p where "p = pow10 999999"
  define q where "q = pow10 999972"
  have pos: "0 < p" unfolding p_def by (rule pow10_pos)
  have pq: "p = 10 ^ 27 * q" unfolding p_def q_def by (rule pow10_999999)
  have "9 * p = of_int 9 * pow10 999999" by (simp add: p_def)
  moreover have "\<bar>9::int\<bar> < 10 ^ 28" by simp
  moreover have "Etiny \<le> 999999" by (simp add: Etiny_def Emin_def)
  ultimately have r: "dec_round (9 * p) = 9 * p" by (rule dec_round_exact)
  have "p \<le> \<bar>9 * p\<bar>" using pos by simp
  then have "10 ^ 27 * q \<le> \<bar>9 * p\<bar>" by (simp only: pq)
  moreover have "\<bar>9 * p\<bar> < 10 ^ 28 * q"
  proof -
    have "\<bar>9 * p\<bar> < 10 * p" using pos by simp
    also have "\<dots> = 10 * (10 ^ 27 * q)" by (simp only: pq)
    also have "\<dots> = 10 ^ 28 * q" by simp
    finally show ?thesis .
  qed
  ultimately have "dec_exponent \<bar>9 * p\<bar> = 999972" unfolding q_def by (rule dec_exponent_unique)
  then have "dec_fix (9 * p) = Inr (Fin (9 * p))" by (simp add: dec_fix_def Let_def r Emax_def)
  then show ?thesis by (simp only: p_def)
qed

lemma dec_fix_overflow: "dec_fix (9 * pow10 999999 + 9 * pow10 999999) = Inl Overflow"
proof -
  define p where "p = pow10 999999"
  define q where "q = pow10 999973"
  have pos: "0 < p" unfolding p_def by (rule pow10_pos)
  have pq: "10 * p = 10 ^ 27 * q" unfolding p_def q_def by (rule pow10_999999)
  have "9 * p + 9 * p = of_int 18 * pow10 999999" by (simp add: p_def)
  moreover have "\<bar>18::int\<bar> < 10 ^ 28" by simp
  moreover have "Etiny \<le> 999999" by (simp add: Etiny_def Emin_def)
  ultimately have r: "dec_round (9 * p + 9 * p) = 9 * p + 9 * p" by (rule dec_round_exact)
  have "10 * p \<le> \<bar>9 * p + 9 * p\<bar>" using pos by simp
  then have "10 ^ 27 * q \<le> \<bar>9 * p + 9 * p\<bar>" by (simp only: pq)
  moreover have "\<bar>9 * p + 9 * p\<bar> < 10 ^ 28 * q"
  proof -
    have "\<bar>9 * p + 9 * p\<bar> < 10 * (10 * p)" using pos by simp
    also have "\<dots> = 10 * (10 ^ 27 * q)" by (simp only: pq)
    also have "\<dots> = 10 ^ 28 * q" by simp
    finally show ?thesis .
  qed
  ultimately have "dec_exponent \<bar>9 * p + 9 * p\<bar> = 999973"
    unfolding q_def by (rule dec_exponent_unique)
  moreover have "9 * p + 9 * p \<noteq> 0" using pos by simp
  ultimately have "dec_fix (9 * p + 9 * p) = Inl Overflow"
    by (simp only: dec_fix_def Let_def r Emax_def) simp
  then show ?thesis by (simp only: p_def)
qed

lemma update_overflow:
  "update 2 (initial_state 2) (Fin (9 * pow10 999999)) =
     Inr (\<lparr>buffer = [Fin (9 * pow10 999999), Fin 0], count = 1, current = 1,
            total_sum = Fin (9 * pow10 999999)\<rparr>, Fin (9 * pow10 999999))"
  "update 2 \<lparr>buffer = [Fin (9 * pow10 999999), Fin 0], count = 1, current = 1,
            total_sum = Fin (9 * pow10 999999)\<rparr> (Fin (9 * pow10 999999)) = Inl Overflow"
proof -
  define x where "x = 9 * pow10 999999"
  have f: "dec_fix x = Inr (Fin x)" unfolding x_def by (rule dec_fix_largest_exponent)
  have "dec_fix (x + x) = Inl Overflow" unfolding x_def by (rule dec_fix_overflow)
  then have o: "dec_fix (2 * x) = Inl Overflow" by simp
  have nz: "x \<noteq> 0" using pow10_pos [of 999999] by (simp add: x_def)
  have "update 2 (initial_state 2) (Fin x) =
     Inr (\<lparr>buffer = [Fin x, Fin 0], count = 1, current = 1, total_sum = Fin x\<rparr>, Fin x)"
    by (simp add: initial_state_def update_def f numeral_2_eq_2)
  then show "update 2 (initial_state 2) (Fin (9 * pow10 999999)) =
     Inr (\<lparr>buffer = [Fin (9 * pow10 999999), Fin 0], count = 1, current = 1,
            total_sum = Fin (9 * pow10 999999)\<rparr>, Fin (9 * pow10 999999))"
    by (simp only: x_def)
  have "update 2 \<lparr>buffer = [Fin x, Fin 0], count = 1, current = 1, total_sum = Fin x\<rparr> (Fin x) =
      Inl Overflow"
    by (simp add: update_def o)
  then show "update 2 \<lparr>buffer = [Fin (9 * pow10 999999), Fin 0], count = 1, current = 1,
            total_sum = Fin (9 * pow10 999999)\<rparr> (Fin (9 * pow10 999999)) = Inl Overflow"
    by (simp only: x_def)
qed

lemma run_overflow:
  "compute_sliding_average 2
     [(''t1'', Fin (9 * pow10 999999)), (''t2'', Fin (9 * pow10 999999))] None (open_channel None) =
     (\<lparr>raises_at = None, delivered = [(''t1'', Fin (9 * pow10 999999))]\<rparr>, Some Overflow)"
proof -
  have s: "\<And>xs x. send \<lparr>raises_at = None, delivered = xs\<rparr> (x :: string \<times> decimal) =
      Inr \<lparr>raises_at = None, delivered = xs @ [x]\<rparr>"
    by (simp add: send_def)
  show ?thesis
    by (simp only: compute_sliding_average_def sliding_loop.simps update_overflow
          open_channel_def s sum.case prod.case append.simps)
qed

subsection \<open>The claims\<close>

text \<open>
  C1 (as amended). Whatever the window size and the values are, the averages sent carry the
  timestamps of the pairs received, in arrival order, one for each pair taken until the loop
  ends, and one for every pair when no exception ends it. For a window size from 1 to 100
  and a receiver that takes every average, the loop raises nothing and the \<open>n\<close>-th average
  is the mean of the last \<open>min n window_size\<close> temperatures rounded as the decimal context
  rounds (\<open>naive_sliding_average\<close>: to 28 significant digits, ties to even, and not below
  the digit of exponent \<open>Etiny\<close>), provided the sums stay exact: every temperature is
  finite, has at most \<open>k\<close> digits after the point, where \<open>k \<le> - Etiny\<close>, and
  \<open>\<bar>v\<bar> * window_size * 10 ^ k < 10 ^ 28\<close>. With window size 3 the temperatures
  10, 20, 30, 40 give the averages 10, 15, 20, 30.
\<close>

theorem sliding_average_rounded_mean:
  "(\<exists>sent err.
      compute_sliding_average window_size received ending send_average =
        (send_average\<lparr>delivered := delivered send_average @ sent\<rparr>, err) \<and>
      map fst sent = take (length sent) (map fst received) \<and>
      (err = None \<longrightarrow> length sent = length received)) \<and>
   (0 < window_size \<and> window_size \<le> 100 \<and> int k \<le> - Etiny \<and>
    (\<forall>x\<in>set received. fits_window window_size k (snd x)) \<and>
    raises_at send_average = None \<longrightarrow>
      compute_sliding_average window_size received ending send_average =
        (send_average\<lparr>delivered :=
           delivered send_average @ naive_sliding_average window_size received\<rparr>, ending)) \<and>
   compute_sliding_average 3 [(t1, Fin 10), (t2, Fin 20), (t3, Fin 30), (t4, Fin 40)] None
     (open_channel None) =
     (\<lparr>raises_at = None,
       delivered = [(t1, Fin 10), (t2, Fin 15), (t3, Fin 20), (t4, Fin 30)]\<rparr>, None)"
proof (intro conjI impI)
  show "\<exists>sent err.
      compute_sliding_average window_size received ending send_average =
        (send_average\<lparr>delivered := delivered send_average @ sent\<rparr>, err) \<and>
      map fst sent = take (length sent) (map fst received) \<and>
      (err = None \<longrightarrow> length sent = length received)"
    unfolding compute_sliding_average_def by (rule sliding_loop_prefix)
  show "compute_sliding_average 3 [(t1, Fin 10), (t2, Fin 20), (t3, Fin 30), (t4, Fin 40)] None
     (open_channel None) =
     (\<lparr>raises_at = None,
       delivered = [(t1, Fin 10), (t2, Fin 15), (t3, Fin 20), (t4, Fin 30)]\<rparr>, None)"
    by (rule run_10_20_30_40)
next
  assume a: "0 < window_size \<and> window_size \<le> 100 \<and> int k \<le> - Etiny \<and>
    (\<forall>x\<in>set received. fits_window window_size k (snd x)) \<and>
    raises_at send_average = None"
  then have ws: "0 < window_size" and k: "int k \<le> - Etiny"
    and fits: "\<forall>x\<in>set received. fits_window window_size k (snd x)"
    and op: "raises_at send_average = None"
    by simp_all
  have "\<forall>v\<in>set []. fits window_size k v" by simp
  from sliding_loop_tracks [OF ws k tracks_initial this fits op] obtain sent where
    run: "sliding_loop window_size (initial_state window_size) received ending send_average =
            (send_average\<lparr>delivered := delivered send_average @ sent\<rparr>, ending)" and
    len: "length sent = length received" and
    nth: "\<And>i. i < length received \<Longrightarrow> sent ! i =
       (fst (received ! i),
        Fin (dec_round (window_mean window_size
               ([] @ map (finite_value \<circ> snd) (take (Suc i) received)))))"
    by blast
  have "sent = naive_sliding_average window_size received"
    by (rule nth_equalityI) (simp_all add: naive_sliding_average_def len nth)
  with run show "compute_sliding_average window_size received ending send_average =
        (send_average\<lparr>delivered :=
           delivered send_average @ naive_sliding_average window_size received\<rparr>, ending)"
    by (simp add: compute_sliding_average_def)
qed

theorem sliding_average_rounded_mean_witness:
  "0 < (3::nat) \<and> (3::nat) \<le> 100 \<and> int 0 \<le> - Etiny \<and>
   fits_window 3 0 (Fin 10) \<and> fits_window 3 0 (Fin 20) \<and> fits_window 3 0 (Fin 30) \<and>
   fits_window 3 0 (Fin 40) \<and>
   raises_at (open_channel None :: (string \<times> decimal) channel) = None \<and>
   compute_sliding_average 3
       [(''t1'', Fin 10), (''t2'', Fin 20), (''t3'', Fin 30), (''t4'', Fin 40)] None
       (open_channel None) =
     (\<lparr>raises_at = None,
       delivered = naive_sliding_average 3
         [(''t1'', Fin 10), (''t2'', Fin 20), (''t3'', Fin 30), (''t4'', Fin 40)]\<rparr>, None) \<and>
   naive_sliding_average 3
       [(''t1'', Fin 10), (''t2'', Fin 20), (''t3'', Fin 30), (''t4'', Fin 40)] =
     [(''t1'', Fin 10), (''t2'', Fin 15), (''t3'', Fin 20), (''t4'', Fin 30)]"
proof -
  let ?received = "[(''t1'', Fin 10), (''t2'', Fin 20), (''t3'', Fin 30), (''t4'', Fin 40)]"
  let ?ch = "open_channel None :: (string \<times> decimal) channel"
  have op: "raises_at ?ch = None" by (simp add: open_channel_def)
  have fits: "\<forall>x\<in>set ?received. fits_window 3 0 (snd x)"
    using fits_10_20_30_40 by simp
  have "(0::nat) < 3 \<and> (3::nat) \<le> 100 \<and> int 0 \<le> - Etiny \<and>
    (\<forall>x\<in>set ?received. fits_window 3 0 (snd x)) \<and> raises_at ?ch = None"
    using op fits Etiny_neg by simp
  then have "compute_sliding_average 3 ?received None ?ch =
      (?ch\<lparr>delivered := delivered ?ch @ naive_sliding_average 3 ?received\<rparr>, None)"
    by (rule sliding_average_rounded_mean
      [where window_size = 3 and received = ?received and k = 0 and send_average = ?ch
         and ending = None,
       THEN conjunct2, THEN conjunct1, rule_format])
  then have "compute_sliding_average 3 ?received None ?ch =
      (\<lparr>raises_at = None, delivered = naive_sliding_average 3 ?received\<rparr>, None)"
    by (simp add: open_channel_def)
  then show ?thesis
    using fits_10_20_30_40 op Etiny_neg
      naive_10_20_30_40 [of "''t1''" "''t2''" "''t3''" "''t4''"]
    by simp
qed

text \<open>
  C1 as stated fails twice. The average is not the exact mean when the mean has no finite
  decimal expansion: with window size 3 the temperatures 1, 1, 2 have the mean \<open>4 / 3\<close>, and
  the third average sent is 1.333333333333333333333333333. And the running sum loses what
  rounding dropped: with window size 2 and the temperatures \<open>10 ^ 28\<close>, 1, 1 the third
  average sent is \<open>1 / 2\<close>, while the last two temperatures have the mean 1.
\<close>

theorem sliding_average_not_exact_mean:
  "compute_sliding_average 3 [(''t1'', Fin 1), (''t2'', Fin 1), (''t3'', Fin 2)] None
     (open_channel None) =
     (\<lparr>raises_at = None,
       delivered = [(''t1'', Fin 1), (''t2'', Fin 1),
         (''t3'', Fin (1333333333333333333333333333 / 1000000000000000000000000000))]\<rparr>, None) \<and>
   window_mean 3 [1, 1, 2] = 4 / 3 \<and>
   Fin (1333333333333333333333333333 / 1000000000000000000000000000) \<noteq>
     Fin (window_mean 3 [1, 1, 2]) \<and>
   compute_sliding_average 2 [(''t1'', Fin (10 ^ 28)), (''t2'', Fin 1), (''t3'', Fin 1)] None
     (open_channel None) =
     (\<lparr>raises_at = None,
       delivered = [(''t1'', Fin (10 ^ 28)), (''t2'', Fin (5 * 10 ^ 27)), (''t3'', Fin (1 / 2))]\<rparr>,
      None) \<and>
   window_mean 2 [10 ^ 28, 1, 1] = 1 \<and>
   Fin (1 / 2) \<noteq> Fin (window_mean 2 [10 ^ 28, 1, 1])"
proof -
  have m1: "window_mean 3 [1, 1, 2] = 4 / 3" by (simp add: window_mean_def)
  have m2: "window_mean 2 [10 ^ 28, 1, 1] = 1" by (simp add: window_mean_def)
  have d1: "Fin (1333333333333333333333333333 / 1000000000000000000000000000) \<noteq>
     Fin (window_mean 3 [1, 1, 2])"
    by (simp only: m1) simp
  have d2: "Fin (1 / 2) \<noteq> Fin (window_mean 2 [10 ^ 28, 1, 1])"
    by (simp only: m2) simp
  from run_1_1_2 m1 d1 run_large_1_1 m2 d2 show ?thesis by (intro conjI)
qed

text \<open>
  C5 (as amended). After every processed input the filled count is at most the window size,
  whatever the values are. For a window size from 1 to 100 no update raises, and the running
  sum equals the sum of the \<open>count\<close> most recently written values in the buffer, which are
  the last \<open>count\<close> inputs, provided the sums stay exact: every temperature is finite, has
  at most \<open>k\<close> digits after the point, where \<open>k \<le> - Etiny\<close>, and
  \<open>\<bar>v\<bar> * window_size * 10 ^ k < 10 ^ 28\<close>.
\<close>

theorem window_invariant_when_exact:
  "(\<forall>s. window_states window_size (initial_state window_size) temperatures = Inr s \<longrightarrow>
        count s \<le> window_size) \<and>
   (0 < window_size \<and> window_size \<le> 100 \<and> int k \<le> - Etiny \<and>
    (\<forall>d\<in>set temperatures. fits_window window_size k d) \<longrightarrow>
      (\<exists>s. window_states window_size (initial_state window_size) temperatures = Inr s \<and>
           total_sum s = Fin (sum_list (map finite_value (recent_values window_size s))) \<and>
           recent_values window_size s = take (count s) (rev temperatures)))"
proof (intro conjI impI allI)
  fix s
  assume "window_states window_size (initial_state window_size) temperatures = Inr s"
  moreover have "count (initial_state window_size) \<le> window_size"
    by (simp add: initial_state_def)
  ultimately show "count s \<le> window_size" by (rule window_states_count)
next
  assume a: "0 < window_size \<and> window_size \<le> 100 \<and> int k \<le> - Etiny \<and>
    (\<forall>d\<in>set temperatures. fits_window window_size k d)"
  then have ws: "0 < window_size" and k: "int k \<le> - Etiny"
    and fits: "\<forall>d\<in>set temperatures. fits_window window_size k d"
    by simp_all
  define vs where "vs = map finite_value temperatures"
  have fin: "map Fin vs = temperatures"
    unfolding vs_def using fits
    by (induction temperatures) (auto dest: fits_window_Fin)
  have "\<forall>v\<in>set ([] @ vs). fits window_size k v"
    unfolding vs_def using fits by (auto simp: fits_window_def)
  from window_states_tracks [OF ws k tracks_initial this] obtain s where
    run: "window_states window_size (initial_state window_size) (map Fin vs) = Inr s" and
    tr: "tracks window_size vs s"
    by auto
  have rv: "recent_values window_size s = map Fin (take (count s) (rev vs))"
    using ws tr by (rule tracks_recent_values)
  have "take (min (length vs) window_size) (rev vs) = take window_size (rev vs)"
    by (cases "length vs \<le> window_size") (simp_all add: min_def)
  with tr have "total_sum s = Fin (sum_list (take (count s) (rev vs)))"
    by (simp add: tracks_def)
  moreover have "map finite_value (map Fin (take (count s) (rev vs))) = take (count s) (rev vs)"
    by (simp add: comp_def)
  ultimately have ts: "total_sum s = Fin (sum_list (map finite_value (recent_values window_size s)))"
    by (simp only: rv)
  have "map Fin (take (count s) (rev vs)) = take (count s) (rev (map Fin vs))"
    by (simp add: take_map rev_map)
  with rv have "recent_values window_size s = take (count s) (rev temperatures)"
    by (simp only: fin)
  with run ts show "\<exists>s. window_states window_size (initial_state window_size) temperatures = Inr s \<and>
           total_sum s = Fin (sum_list (map finite_value (recent_values window_size s))) \<and>
           recent_values window_size s = take (count s) (rev temperatures)"
    by (auto simp: fin)
qed

theorem window_invariant_when_exact_witness:
  "0 < (3::nat) \<and> (3::nat) \<le> 100 \<and> int 0 \<le> - Etiny \<and>
   fits_window 3 0 (Fin 10) \<and> fits_window 3 0 (Fin 20) \<and> fits_window 3 0 (Fin 30) \<and>
   fits_window 3 0 (Fin 40) \<and>
   window_states 3 (initial_state 3) [Fin 10, Fin 20, Fin 30, Fin 40] =
     Inr \<lparr>buffer = [Fin 40, Fin 20, Fin 30], count = 3, current = 1, total_sum = Fin 90\<rparr> \<and>
   count \<lparr>buffer = [Fin 40, Fin 20, Fin 30], count = 3, current = 1, total_sum = Fin 90\<rparr> \<le> 3 \<and>
   total_sum \<lparr>buffer = [Fin 40, Fin 20, Fin 30], count = 3, current = 1, total_sum = Fin 90\<rparr> =
     Fin (sum_list (map finite_value (recent_values 3
       \<lparr>buffer = [Fin 40, Fin 20, Fin 30], count = 3, current = 1, total_sum = Fin 90\<rparr>))) \<and>
   recent_values 3 \<lparr>buffer = [Fin 40, Fin 20, Fin 30], count = 3, current = 1, total_sum = Fin 90\<rparr> =
     [Fin 40, Fin 30, Fin 20]"
proof -
  let ?s = "\<lparr>buffer = [Fin 40, Fin 20, Fin 30], count = 3, current = 1, total_sum = Fin 90\<rparr>"
  let ?temps = "[Fin 10, Fin 20, Fin 30, Fin 40]"
  note inv = window_invariant_when_exact [where window_size = 3 and temperatures = ?temps and k = 0]
  have c: "count ?s \<le> 3"
    using inv [THEN conjunct1, rule_format, OF states_10_20_30_40] .
  have "(0::nat) < 3 \<and> (3::nat) \<le> 100 \<and> int 0 \<le> - Etiny \<and>
    (\<forall>d\<in>set ?temps. fits_window 3 0 d)"
    using fits_10_20_30_40 Etiny_neg by simp
  from inv [THEN conjunct2, rule_format, OF this]
  obtain s where run: "window_states 3 (initial_state 3) ?temps = Inr s"
    and t: "total_sum s = Fin (sum_list (map finite_value (recent_values 3 s)))"
    and r: "recent_values 3 s = take (count s) (rev ?temps)"
    by blast
  from run have s: "s = ?s" by (simp only: states_10_20_30_40 sum.inject)
  from t have t': "total_sum ?s = Fin (sum_list (map finite_value (recent_values 3 ?s)))"
    by (simp only: s)
  from r have "recent_values 3 ?s = take (count ?s) (rev ?temps)" by (simp only: s)
  then have r': "recent_values 3 ?s = [Fin 40, Fin 30, Fin 20]" by simp
  from c t' r' show ?thesis
    using fits_10_20_30_40 states_10_20_30_40 Etiny_neg by (intro conjI) simp_all
qed

text \<open>
  C5 as stated fails: with window size 2, after the temperatures \<open>10 ^ 28\<close> and 1 the buffer
  holds both, whose sum has 29 digits, and the running sum is \<open>10 ^ 28\<close>.
\<close>

theorem running_sum_drifts:
  "window_states 2 (initial_state 2) [Fin (10 ^ 28), Fin 1] =
     Inr \<lparr>buffer = [Fin (10 ^ 28), Fin 1], count = 2, current = 0, total_sum = Fin (10 ^ 28)\<rparr> \<and>
   recent_values 2
       \<lparr>buffer = [Fin (10 ^ 28), Fin 1], count = 2, current = 0, total_sum = Fin (10 ^ 28)\<rparr> =
     [Fin 1, Fin (10 ^ 28)] \<and>
   total_sum \<lparr>buffer = [Fin (10 ^ 28), Fin 1], count = 2, current = 0, total_sum = Fin (10 ^ 28)\<rparr> \<noteq>
     Fin (sum_list (map finite_value (recent_values 2
       \<lparr>buffer = [Fin (10 ^ 28), Fin 1], count = 2, current = 0, total_sum = Fin (10 ^ 28)\<rparr>)))"
proof -
  have r: "recent_values 2
      \<lparr>buffer = [Fin (10 ^ 28), Fin 1], count = 2, current = 0, total_sum = Fin (10 ^ 28)\<rparr> =
      [Fin 1, Fin (10 ^ 28)]"
    by (simp add: recent_values_def upt_rec)
  show ?thesis
    by (simp only: states_large_1 r) simp
qed

section \<open>Properties of the feature extraction\<close>

lemma point_of_coordinates_unusable:
  assumes "(length cs \<noteq> 2 \<and> length cs \<noteq> 3) \<or>
           py_float fos (cs ! 0) \<in> {Inl ValueError, Inl TypeError} \<or>
           ((\<exists>f. py_float fos (cs ! 0) = Inr f) \<and>
            py_float fos (cs ! 1) \<in> {Inl ValueError, Inl TypeError})"
  shows "point_of_coordinates fos (JArr cs) = Inr None"
  using assms by (auto simp: caught_conversion_def)

lemma halve_json_of_float: "halve (json_of_float f) = Inr (float_halve f)"
  by (cases f) (simp_all add: halve_def)

lemma midpoint_floats:
  "midpoint (JReal x) (JReal y) = Inr (float_halve (round_double (x + y)))"
  by (simp add: midpoint_def halve_json_of_float)

lemma midpoint_ints:
  assumes "\<bar>i + j\<bar> < 2 ^ 53"
  shows "midpoint (JInt i) (JInt j) = Inr (Float (of_int (i + j) / 2))"
  using assms
  by (simp add: midpoint_def halve_def float_of_int_exact float_halve_exact
      del: float_halve.simps of_int_add)

lemma midpoint_10_15: "midpoint (JInt 10) (JInt 15) = Inr (Float (25 / 2))"
  using midpoint_ints [of 10 15] by simp

lemma midpoint_40_50: "midpoint (JInt 40) (JInt 50) = Inr (Float 45)"
  using midpoint_ints [of 40 50] by simp

text \<open>
  Two records that \<^verbatim>\<open>get_timestamp\<close> does not skip but raises on. A creation timestamp
  that the parser rejects with \<^verbatim>\<open>ValueError\<close>, the exception \<^verbatim>\<open>isoparse\<close> raises for a
  string it cannot read, is not caught by the handler. And a \<^verbatim>\<open>data\<close> that is not a dict
  (\<^verbatim>\<open>{"data": null}\<close>) has no \<^verbatim>\<open>get\<close>. Either exception ends the extraction loop.
\<close>

lemma created_at_field_data_object:
  "data_object tweet = Some d \<Longrightarrow>
   created_at_field tweet = Inr (case map_of d ''created_at'' of Some v \<Rightarrow> v | None \<Rightarrow> JNull)"
  by (auto simp: data_object_def created_at_field_def split: json.splits option.splits)

lemma created_at_field_no_data_object:
  "data_object tweet = None \<Longrightarrow> created_at_field tweet = Inl AttributeError"
  by (auto simp: data_object_def created_at_field_def split: json.splits option.splits)

lemma unparsable_timestamp_raises:
  "isoparse s = Inl ValueError \<Longrightarrow> created_at_field tweet = Inr (JStr s) \<Longrightarrow>
   get_timestamp isoparse tweet = Inl ValueError \<and>
   (truthy tweet \<longrightarrow>
    extract_time_and_coordinates isoparse float_of_str (Some tweet # rest) ending send_location =
      (send_location, Some ValueError))"
  by (simp add: get_timestamp_def parse_caught_def)

lemma data_not_object_raises:
  "data_object tweet = None \<Longrightarrow>
   get_timestamp isoparse tweet = Inl AttributeError \<and>
   (truthy tweet \<longrightarrow>
    extract_time_and_coordinates isoparse float_of_str (Some tweet # rest) ending send_location =
      (send_location, Some AttributeError))"
  by (simp add: get_timestamp_def created_at_field_no_data_object)

text \<open>
  C6 (as amended). Timestamp extraction succeeds exactly when the \<^verbatim>\<open>data\<close> of the record is
  a dict whose creation-timestamp field is a string that the date-time parser accepts, and
  then returns what the parser returns, with or without a timezone. In a record whose
  \<^verbatim>\<open>data\<close> is a dict or is missing, a creation-timestamp field that is absent or is not a
  string gives no timestamp, and the record is skipped: the extractor goes on with the
  records that follow.
\<close>

theorem timestamp_extraction:
  "(get_timestamp isoparse tweet = Inr (Some timestamp) \<longleftrightarrow>
      (\<exists>d s. data_object tweet = Some d \<and> map_of d ''created_at'' = Some (JStr s) \<and>
             isoparse s = Inr timestamp)) \<and>
   (data_object tweet = Some d \<and>
    (map_of d ''created_at'' = None \<or>
     (\<exists>v. map_of d ''created_at'' = Some v \<and> (\<forall>s. v \<noteq> JStr s))) \<longrightarrow>
      get_timestamp isoparse tweet = Inr None) \<and>
   (get_timestamp isoparse tweet = Inr None \<longrightarrow>
      extract_time_and_coordinates isoparse float_of_str (Some tweet # rest) ending send_location =
        extract_time_and_coordinates isoparse float_of_str rest ending send_location)"
proof (intro conjI)
  show "get_timestamp isoparse tweet = Inr (Some timestamp) \<longleftrightarrow>
      (\<exists>d s. data_object tweet = Some d \<and> map_of d ''created_at'' = Some (JStr s) \<and>
             isoparse s = Inr timestamp)"
  proof (cases "data_object tweet")
    case None
    then show ?thesis by (simp add: get_timestamp_def created_at_field_no_data_object)
  next
    case (Some d)
    then show ?thesis
      by (auto simp: get_timestamp_def created_at_field_data_object
          split: sum.splits json.splits if_splits option.splits)
  qed
  show "data_object tweet = Some d \<and>
    (map_of d ''created_at'' = None \<or>
     (\<exists>v. map_of d ''created_at'' = Some v \<and> (\<forall>s. v \<noteq> JStr s))) \<longrightarrow>
      get_timestamp isoparse tweet = Inr None"
    by (auto simp: get_timestamp_def created_at_field_data_object split: json.splits)
  show "get_timestamp isoparse tweet = Inr None \<longrightarrow>
      extract_time_and_coordinates isoparse float_of_str (Some tweet # rest) ending send_location =
        extract_time_and_coordinates isoparse float_of_str rest ending send_location"
    by simp
qed

theorem timestamp_extraction_witness:
  "data_object (JObj [(''data'', JObj [(''id'', JStr ''1'')])]) = Some [(''id'', JStr ''1'')] \<and>
   map_of [(''id'', JStr ''1'')] ''created_at'' = None \<and>
   get_timestamp isoparse_sample (JObj [(''data'', JObj [(''id'', JStr ''1'')])]) = Inr None \<and>
   data_object
     (JObj [(''data'', JObj [(''created_at'', JStr ''2021-03-01T12:00:00+00:00''),
                             (''geo'', JObj [(''coordinates'', JArr [JReal (25 / 2), JReal 45])])])]) =
     Some [(''created_at'', JStr ''2021-03-01T12:00:00+00:00''),
           (''geo'', JObj [(''coordinates'', JArr [JReal (25 / 2), JReal 45])])] \<and>
   get_timestamp isoparse_sample
     (JObj [(''data'', JObj [(''created_at'', JStr ''2021-03-01T12:00:00+00:00''),
                             (''geo'', JObj [(''coordinates'', JArr [JReal (25 / 2), JReal 45])])])]) =
     Inr (Some \<lparr>year = 2021, month = 3, day = 1, hour = 12, minute = 0, second = 0,
                 microsecond = 0, utcoffset = Some 0\<rparr>) \<and>
   extract_time_and_coordinates isoparse_sample float_of_str_sample
     [Some (JObj [(''data'', JObj [(''id'', JStr ''1'')])]),
      Some (JObj [(''data'', JObj [(''created_at'', JStr ''2021-03-01T12:00:00+00:00''),
                             (''geo'', JObj [(''coordinates'', JArr [JReal (25 / 2), JReal 45])])])])]
     None (open_channel None) =
     (\<lparr>raises_at = None,
       delivered = [(\<lparr>year = 2021, month = 3, day = 1, hour = 12, minute = 0, second = 0,
                      microsecond = 0, utcoffset = Some 0\<rparr>,
                    \<lparr>longitude = Float (25 / 2), latitude = Float 45\<rparr>)]\<rparr>, None)"
proof -
  let ?d0 = "[(''id'', JStr ''1'')]"
  let ?t0 = "JObj [(''data'', JObj ?d0)]"
  let ?d1 = "[(''created_at'', JStr ''2021-03-01T12:00:00+00:00''),
              (''geo'', JObj [(''coordinates'', JArr [JReal (25 / 2), JReal 45])])]"
  let ?t1 = "JObj [(''data'', JObj ?d1)]"
  let ?ts = "\<lparr>year = 2021, month = 3, day = 1, hour = 12, minute = 0, second = 0,
                 microsecond = 0, utcoffset = Some (0::int)\<rparr>"
  let ?ch = "open_channel None :: (datetime \<times> coordinates) channel"
  note thm0 = timestamp_extraction [where isoparse = isoparse_sample and tweet = ?t0
      and d = ?d0 and float_of_str = float_of_str_sample and rest = "[Some ?t1]"
      and ending = None and send_location = ?ch]
  note thm1 = timestamp_extraction [where isoparse = isoparse_sample and tweet = ?t1
      and timestamp = ?ts]
  have f0: "data_object ?t0 = Some ?d0" by (simp add: data_object_def)
  have m0: "map_of ?d0 ''created_at'' = None" by simp
  from f0 m0 have n0: "get_timestamp isoparse_sample ?t0 = Inr None"
    using thm0 [THEN conjunct2, THEN conjunct1] by blast
  then have skip: "extract_time_and_coordinates isoparse_sample float_of_str_sample
      [Some ?t0, Some ?t1] None ?ch =
      extract_time_and_coordinates isoparse_sample float_of_str_sample [Some ?t1] None ?ch"
    using thm0 [THEN conjunct2, THEN conjunct2] by blast
  have f1: "data_object ?t1 = Some ?d1" by (simp add: data_object_def)
  have m1: "map_of ?d1 ''created_at'' = Some (JStr ''2021-03-01T12:00:00+00:00'')" by simp
  have p1: "isoparse_sample ''2021-03-01T12:00:00+00:00'' = Inr ?ts"
    by (simp add: isoparse_sample_def)
  from f1 m1 p1 have s1: "get_timestamp isoparse_sample ?t1 = Inr (Some ?ts)"
    using thm1 [THEN conjunct1] by blast
  have c1: "get_coordinates float_of_str_sample ?t1 =
      Inr (Some \<lparr>longitude = Float (25 / 2), latitude = Float 45\<rparr>)"
    by (simp add: get_coordinates_def extract_coordinates_from_geo_def coordinates_entry_def)
  have "extract_time_and_coordinates isoparse_sample float_of_str_sample [Some ?t1] None ?ch =
      (\<lparr>raises_at = None, delivered = [(?ts, \<lparr>longitude = Float (25 / 2), latitude = Float 45\<rparr>)]\<rparr>,
       None)"
    by (simp add: s1 c1 send_def open_channel_def)
  with skip f0 m0 n0 f1 s1 show ?thesis by simp
qed

text \<open>
  C6 as stated fails: a creation timestamp without a timezone is extracted. The parser
  returns a naive date-time for it, and nothing in \<^verbatim>\<open>get_timestamp\<close> looks at the
  timezone.
\<close>

theorem naive_timestamp_accepted:
  "get_timestamp isoparse_sample
     (JObj [(''data'', JObj [(''created_at'', JStr ''2021-03-01T12:00:00'')])]) =
     Inr (Some \<lparr>year = 2021, month = 3, day = 1, hour = 12, minute = 0, second = 0,
                 microsecond = 0, utcoffset = None\<rparr>)"
  by (simp add: get_timestamp_def created_at_field_def isoparse_sample_def)

text \<open>
  C8. A point \<open>[12.5, 45.0]\<close> gives longitude 12.5 and latitude 45.0; a bounding box
  \<open>[10, 40, 15, 50]\<close> alone gives its midpoint, the same coordinates; a record with no
  geolocation gives nothing. But a bounding box that does not resolve because its entries
  are not numbers, such as \<open>["10", "40", "15", "50"]\<close>, is not skipped: the arithmetic
  raises \<^verbatim>\<open>TypeError\<close>, whose handler reads the unbound name \<^verbatim>\<open>ex\<close>, and
  \<^verbatim>\<open>UnboundLocalError\<close> leaves the extraction.
\<close>

theorem bbox_of_strings_raises:
  "get_coordinates float_of_str
     (JObj [(''data'', JObj [(''geo'', JObj [(''coordinates'', JArr [JReal (25 / 2), JReal 45])])])]) =
     Inr (Some \<lparr>longitude = Float (25 / 2), latitude = Float 45\<rparr>) \<and>
   get_coordinates float_of_str
     (JObj [(''data'', JObj [(''geo'', JObj [(''bbox'', JArr [JInt 10, JInt 40, JInt 15, JInt 50])])])]) =
     Inr (Some \<lparr>longitude = Float (25 / 2), latitude = Float 45\<rparr>) \<and>
   get_coordinates float_of_str (JObj [(''data'', JObj [(''id'', JStr ''1'')])]) = Inr None \<and>
   get_coordinates float_of_str
     (JObj [(''data'', JObj [(''geo'',
        JObj [(''bbox'', JArr [JStr ''10'', JStr ''40'', JStr ''15'', JStr ''50''])])])]) =
     Inl UnboundLocalError"
proof -
  have s: "midpoint (JStr ''10'') (JStr ''15'') = Inl TypeError"
    by (simp add: midpoint_def halve_def)
  show ?thesis
    by (simp add: get_coordinates_def extract_coordinates_from_geo_def coordinates_entry_def
          midpoint_10_15 midpoint_40_50 s bbox_handler_def)
qed

text \<open>
  C10 (as amended). When the \<^verbatim>\<open>coordinates\<close> list of a geo object is unusable, because its
  length is neither 2 nor 3 or because \<^verbatim>\<open>float\<close> raises \<^verbatim>\<open>ValueError\<close> or \<^verbatim>\<open>TypeError\<close> on
  its first or second entry, the extraction goes on to the \<^verbatim>\<open>bbox\<close> of the same object. A
  bounding box of 4 or 6 entries gives the results of \<^verbatim>\<open>(bbox[0] + bbox[2]) / 2.0\<close> and
  \<^verbatim>\<open>(bbox[1] + bbox[3]) / 2.0\<close> as longitude and latitude when neither raises, whatever
  entries 4 and 5 are. These are floats: for two ints whose sum is below \<open>2 ^ 53\<close> in
  magnitude the result is half their sum, and for two floats it is the rounded sum, halved
  and rounded.
\<close>

theorem unusable_point_falls_back_to_bbox:
  "(truthy geo \<and> coordinates_entry geo = Inr (JArr cs) \<and>
    ((length cs \<noteq> 2 \<and> length cs \<noteq> 3) \<or>
     py_float float_of_str (cs ! 0) \<in> {Inl ValueError, Inl TypeError} \<or>
     ((\<exists>f. py_float float_of_str (cs ! 0) = Inr f) \<and>
      py_float float_of_str (cs ! 1) \<in> {Inl ValueError, Inl TypeError})) \<and>
    dict_get geo ''bbox'' JNull = Inr (JArr bs) \<and> (length bs = 4 \<or> length bs = 6) \<and>
    midpoint (bs ! 0) (bs ! 2) = Inr lon \<and> midpoint (bs ! 1) (bs ! 3) = Inr lat \<longrightarrow>
      extract_coordinates_from_geo float_of_str geo =
        Inr (Some \<lparr>longitude = lon, latitude = lat\<rparr>)) \<and>
   (\<bar>i + j\<bar> < 2 ^ 53 \<longrightarrow> midpoint (JInt i) (JInt j) = Inr (Float (of_int (i + j) / 2))) \<and>
   midpoint (JReal x) (JReal y) = Inr (float_halve (round_double (x + y)))"
proof (intro conjI impI)
  assume a: "truthy geo \<and> coordinates_entry geo = Inr (JArr cs) \<and>
    ((length cs \<noteq> 2 \<and> length cs \<noteq> 3) \<or>
     py_float float_of_str (cs ! 0) \<in> {Inl ValueError, Inl TypeError} \<or>
     ((\<exists>f. py_float float_of_str (cs ! 0) = Inr f) \<and>
      py_float float_of_str (cs ! 1) \<in> {Inl ValueError, Inl TypeError})) \<and>
    dict_get geo ''bbox'' JNull = Inr (JArr bs) \<and> (length bs = 4 \<or> length bs = 6) \<and>
    midpoint (bs ! 0) (bs ! 2) = Inr lon \<and> midpoint (bs ! 1) (bs ! 3) = Inr lat"
  then have "point_of_coordinates float_of_str (JArr cs) = Inr None"
    by (intro point_of_coordinates_unusable) blast
  moreover have "point_of_bbox (JArr bs) = Inr (Some \<lparr>longitude = lon, latitude = lat\<rparr>)"
    using a by auto
  ultimately show "extract_coordinates_from_geo float_of_str geo =
        Inr (Some \<lparr>longitude = lon, latitude = lat\<rparr>)"
    using a by (simp add: extract_coordinates_from_geo_def)
next
  assume "\<bar>i + j\<bar> < 2 ^ 53"
  then show "midpoint (JInt i) (JInt j) = Inr (Float (of_int (i + j) / 2))"
    by (rule midpoint_ints)
next
  show "midpoint (JReal x) (JReal y) = Inr (float_halve (round_double (x + y)))"
    by (rule midpoint_floats)
qed

theorem unusable_point_falls_back_to_bbox_witness:
  "truthy (JObj [(''coordinates'', JArr [JNull, JNull]),
                 (''bbox'', JArr [JInt 10, JInt 40, JInt 15, JInt 50, JInt 99, JInt 99])]) \<and>
   coordinates_entry (JObj [(''coordinates'', JArr [JNull, JNull]),
                 (''bbox'', JArr [JInt 10, JInt 40, JInt 15, JInt 50, JInt 99, JInt 99])]) =
     Inr (JArr [JNull, JNull]) \<and>
   py_float float_of_str_sample ([JNull, JNull] ! 0) = Inl TypeError \<and>
   \<bar>10 + 15 :: int\<bar> < 2 ^ 53 \<and> \<bar>40 + 50 :: int\<bar> < 2 ^ 53 \<and>
   midpoint (JInt 10) (JInt 15) = Inr (Float (25 / 2)) \<and>
   midpoint (JInt 40) (JInt 50) = Inr (Float 45) \<and>
   extract_coordinates_from_geo float_of_str_sample
     (JObj [(''coordinates'', JArr [JNull, JNull]),
            (''bbox'', JArr [JInt 10, JInt 40, JInt 15, JInt 50, JInt 99, JInt 99])]) =
     Inr (Some \<lparr>longitude = Float (25 / 2), latitude = Float 45\<rparr>)"
proof -
  let ?bs = "[JInt 10, JInt 40, JInt 15, JInt 50, JInt 99, JInt 99]"
  let ?cs = "[JNull, JNull]"
  let ?geo = "JObj [(''coordinates'', JArr ?cs), (''bbox'', JArr ?bs)]"
  note fallback = unusable_point_falls_back_to_bbox [where geo = "?geo" and cs = "?cs" and bs = "?bs"
      and float_of_str = float_of_str_sample]
  have 1: "truthy ?geo" by simp
  have 2: "coordinates_entry ?geo = Inr (JArr ?cs)"
    by (simp add: coordinates_entry_def)
  have 3: "py_float float_of_str_sample (?cs ! 0) = Inl TypeError" by simp
  have 4: "dict_get ?geo ''bbox'' JNull = Inr (JArr ?bs)" by simp
  have b: "\<bar>10 + 15 :: int\<bar> < 2 ^ 53" "\<bar>40 + 50 :: int\<bar> < 2 ^ 53" by simp_all
  have m1: "midpoint (JInt 10) (JInt 15) = Inr (Float (25 / 2))"
    using fallback [where i = 10 and j = 15, THEN conjunct2, THEN conjunct1] b by simp
  have m2: "midpoint (JInt 40) (JInt 50) = Inr (Float 45)"
    using fallback [where i = 40 and j = 50, THEN conjunct2, THEN conjunct1] b by simp
  have "extract_coordinates_from_geo float_of_str_sample ?geo =
     Inr (Some \<lparr>longitude = Float (25 / 2), latitude = Float 45\<rparr>)"
    by (rule fallback [where lon = "Float (25 / 2)" and lat = "Float 45", THEN conjunct1, rule_format])
       (simp add: 2 m1 m2)
  with 1 2 3 b m1 m2 show ?thesis by (intro conjI)
qed

text \<open>
  C10 as stated fails. An int too large for a float is an entry that is not convertible to
  float, but \<^verbatim>\<open>float\<close> raises \<^verbatim>\<open>OverflowError\<close> for it, which the handler does not catch:
  with the coordinates \<open>[10 ^ 400, "x"]\<close> the extraction raises instead of going on to the
  bounding box \<open>[10, 40, 15, 50]\<close>. And the midpoint is computed in floats: for the doubles
  nearest to 0.1 and 0.2 the longitude is not half their sum.
\<close>

theorem unconvertible_point_raises:
  "extract_coordinates_from_geo float_of_str_sample
     (JObj [(''coordinates'', JArr [JInt (10 ^ 400), JStr ''x'']),
            (''bbox'', JArr [JInt 10, JInt 40, JInt 15, JInt 50])]) = Inl OverflowError \<and>
   extract_coordinates_from_geo float_of_str_sample
     (JObj [(''bbox'', JArr [JReal (3602879701896397 / 36028797018963968), JInt 0,
                             JReal (3602879701896397 / 18014398509481984), JInt 0])]) =
     Inr (Some \<lparr>longitude = Float (1351079888211149 / 9007199254740992), latitude = Float 0\<rparr>) \<and>
   Float (1351079888211149 / 9007199254740992) \<noteq>
     Float ((3602879701896397 / 36028797018963968 + 3602879701896397 / 18014398509481984) / 2)"
proof -
  have "(2::int) ^ 1024 \<le> 10 ^ 400" by simp
  then have o: "float_of_int (10 ^ 400) = Inl OverflowError" by (rule float_of_int_overflow)
  have 1: "extract_coordinates_from_geo float_of_str_sample
     (JObj [(''coordinates'', JArr [JInt (10 ^ 400), JStr ''x'']),
            (''bbox'', JArr [JInt 10, JInt 40, JInt 15, JInt 50])]) = Inl OverflowError"
    by (simp add: extract_coordinates_from_geo_def coordinates_entry_def o caught_conversion_def
        del: power_numeral)
  have m: "midpoint (JReal (3602879701896397 / 36028797018963968))
             (JReal (3602879701896397 / 18014398509481984)) =
           Inr (Float (1351079888211149 / 9007199254740992))"
    "midpoint (JInt 0) (JInt 0) = Inr (Float 0)"
    by code_simp+
  have 2: "extract_coordinates_from_geo float_of_str_sample
     (JObj [(''bbox'', JArr [JReal (3602879701896397 / 36028797018963968), JInt 0,
                             JReal (3602879701896397 / 18014398509481984), JInt 0])]) =
     Inr (Some \<lparr>longitude = Float (1351079888211149 / 9007199254740992), latitude = Float 0\<rparr>)"
    by (simp add: extract_coordinates_from_geo_def coordinates_entry_def m)
  have 3: "Float (1351079888211149 / 9007199254740992) \<noteq>
     Float ((3602879701896397 / 36028797018963968 + 3602879701896397 / 18014398509481984) / 2)"
    by simp
  from 1 2 3 show ?thesis by (intro conjI)
qed

section \<open>Properties of the retry policy and the temperature lookup\<close>

lemma call_with_retry_returns:
  "fn n = Inr v \<Longrightarrow> call_with_retry fn n = ([], Inr v)"
  by (simp add: call_with_retry.simps)

lemma call_with_retry_reraises:
  "fn n = Inl e \<Longrightarrow> e \<noteq> TransportError \<Longrightarrow> call_with_retry fn n = ([], Inl e)"
  by (simp add: call_with_retry.simps retry_if_exception_type_def)

lemma equals_no_matching_location_iff:
  "equals_no_matching_location c \<longleftrightarrow> c = JInt 1006 \<or> c = JReal 1006"
  by (cases c) auto

text \<open>The responses whose error is ignored: status 400 and a body that is a dict with a
  dict under \<^verbatim>\<open>error\<close> whose \<^verbatim>\<open>code\<close> is 1006.\<close>

lemma should_ignore_error_iff:
  "should_ignore_error r = Inr True \<longleftrightarrow>
     status_code r = 400 \<and>
     (\<exists>obj err c. body r = Some (JObj obj) \<and> map_of obj ''error'' = Some (JObj err) \<and>
        map_of err ''code'' = Some c \<and> (c = JInt 1006 \<or> c = JReal 1006))"
proof (cases "status_code r = 400")
  case False
  then show ?thesis by (simp add: should_ignore_error_def)
next
  case s: True
  show ?thesis
  proof (cases "body r")
    case None
    with s show ?thesis by (simp add: should_ignore_error_def)
  next
    case (Some decoded)
    show ?thesis
    proof (cases decoded)
      case (JObj obj)
      show ?thesis
      proof (cases "map_of obj ''error''")
        case None
        with s Some JObj show ?thesis by (simp add: should_ignore_error_def)
      next
        case e: (Some error)
        show ?thesis
        proof (cases "truthy error")
          case False
          have "\<not> (\<exists>err c. error = JObj err \<and> map_of err ''code'' = Some c)"
            using False by auto
          with s Some JObj e False show ?thesis by (simp add: should_ignore_error_def)
        next
          case t: True
          show ?thesis
          proof (cases error)
            case err: (JObj err)
            show ?thesis
            proof (cases "map_of err ''code''")
              case None
              with s Some JObj e t err show ?thesis by (simp add: should_ignore_error_def)
            next
              case c: (Some c)
              with s Some JObj e t err show ?thesis
                by (simp add: should_ignore_error_def equals_no_matching_location_iff)
            qed
          qed (use s Some JObj e t in \<open>simp_all add: should_ignore_error_def\<close>)
        qed
      qed
    qed (use s Some in \<open>simp_all add: should_ignore_error_def\<close>)
  qed
qed

lemma should_ignore_error_raises: "should_ignore_error r = Inl e \<Longrightarrow> e = AttributeError"
  by (cases "body r")
     (auto simp: should_ignore_error_def split: if_splits sum.splits elim!: dict_get.elims)

lemma temperature_of_response_other_status:
  assumes "\<not> is_success r" and "should_ignore_error r \<noteq> Inr True"
  shows "temperature_of_response dos r = Inl HTTPStatusError \<or>
         temperature_of_response dos r = Inl AttributeError"
proof (cases "should_ignore_error r")
  case (Inl e)
  then have "e = AttributeError" by (rule should_ignore_error_raises)
  with Inl show ?thesis by (simp add: temperature_of_response_def)
next
  case (Inr b)
  with assms(2) have "should_ignore_error r = Inr False" by simp
  with assms(1) show ?thesis by (simp add: temperature_of_response_def raise_for_status_def)
qed

text \<open>Status 400 with an error code that is an int other than 1006.\<close>

lemma temperature_of_response_other_code:
  assumes "status_code r = 400" and "body r = Some (JObj obj)"
    and "map_of obj ''error'' = Some (JObj err)" and "map_of err ''code'' = Some (JInt n)"
    and "n \<noteq> 1006"
  shows "temperature_of_response dos r = Inl HTTPStatusError"
proof -
  from assms(4) have "err \<noteq> []" by auto
  with assms have "should_ignore_error r = Inr False" by (simp add: should_ignore_error_def)
  moreover have "\<not> is_success r" using assms(1) by (simp add: is_success_def)
  ultimately show ?thesis by (simp add: temperature_of_response_def raise_for_status_def)
qed

text \<open>Five transport errors in a row end in \<^verbatim>\<open>RetryError\<close> after four waits.\<close>

lemma call_with_retry_exhausted:
  assumes "\<And>n. n \<le> 5 \<Longrightarrow> fn n = Inl TransportError"
  shows "call_with_retry fn 1 = ([1, 2, 4, 8], Inl RetryError)"
proof -
  have 5: "call_with_retry fn 5 = ([], Inl RetryError)"
    using assms [of 5]
    by (simp add: call_with_retry.simps [of fn 5] retry_if_exception_type_def stop_after_attempt_def)
  have 4: "call_with_retry fn 4 = ([8], Inl RetryError)"
    using assms [of 4] 5
    by (simp add: call_with_retry.simps [of fn 4] retry_if_exception_type_def
        stop_after_attempt_def wait_exponential_def)
  have 3: "call_with_retry fn 3 = ([4, 8], Inl RetryError)"
    using assms [of 3] 4
    by (simp add: call_with_retry.simps [of fn 3] retry_if_exception_type_def
        stop_after_attempt_def wait_exponential_def)
  have 2: "call_with_retry fn 2 = ([2, 4, 8], Inl RetryError)"
    using assms [of 2] 3
    by (simp add: call_with_retry.simps [of fn 2] retry_if_exception_type_def
        stop_after_attempt_def wait_exponential_def)
  show ?thesis
    using assms [of 1] 2
    by (subst call_with_retry.simps)
       (simp add: retry_if_exception_type_def stop_after_attempt_def wait_exponential_def
          del: One_nat_def)
qed

text \<open>
  When the attempts before the \<open>k\<close>-th fail with a transport error and the \<open>k\<close>-th, not
  later than the fifth, returns, the wrapper returns its result after the waits of the failed
  attempts.
\<close>

lemma call_with_retry_succeeds_at:
  assumes "n \<le> k" and "k \<le> 5"
    and "\<And>m. n \<le> m \<Longrightarrow> m < k \<Longrightarrow> fn m = Inl TransportError"
    and "fn k = Inr v"
  shows "call_with_retry fn n = (map wait_exponential [n..<k], Inr v)"
  using assms(1,3)
proof (induction "k - n" arbitrary: n)
  case 0
  then have "n = k" by simp
  with assms(4) show ?case by (simp add: call_with_retry_returns)
next
  case (Suc d)
  then have lt: "n < k" by simp
  with Suc.prems have fail: "fn n = Inl TransportError" by simp
  from lt assms(2) have go: "\<not> stop_after_attempt n" by (simp add: stop_after_attempt_def)
  have "d = k - (n + 1)" using Suc.hyps(2) by simp
  moreover have "n + 1 \<le> k" using lt by simp
  moreover have "fn m = Inl TransportError" if "n + 1 \<le> m" "m < k" for m
    using that Suc.prems(2) [of m] by simp
  ultimately have rest: "call_with_retry fn (n + 1) = (map wait_exponential [n + 1..<k], Inr v)"
    by (rule Suc.hyps(1))
  have "[n..<k] = n # [n + 1..<k]" using lt by (simp add: upt_conv_Cons)
  with fail go rest show ?case
    by (simp add: call_with_retry.simps [of fn n] retry_if_exception_type_def)
qed

lemma call_with_retry_waits_bound:
  "length (fst (call_with_retry fn n)) \<le> 5 - n"
proof (induction fn n rule: call_with_retry.induct)
  case (1 fn n)
  show ?case
  proof (cases "fn n")
    case (Inr v)
    then show ?thesis by (simp add: call_with_retry.simps [of fn n])
  next
    case (Inl e)
    show ?thesis
    proof (cases "retry_if_exception_type e \<and> \<not> stop_after_attempt n")
      case True
      obtain waits outcome where r: "call_with_retry fn (n + 1) = (waits, outcome)"
        by (cases "call_with_retry fn (n + 1)")
      from True 1 [OF Inl] have "length (fst (call_with_retry fn (n + 1))) \<le> 5 - (n + 1)"
        by simp
      with r have "length waits \<le> 5 - (n + 1)" by simp
      moreover from True have "n < 5" by (simp add: stop_after_attempt_def)
      ultimately show ?thesis using Inl True r
        by (simp add: call_with_retry.simps [of fn n])
    next
      case False
      with Inl show ?thesis by (auto simp: call_with_retry.simps [of fn n])
    qed
  qed
qed

text \<open>
  C3. The retry policy waits 1, 2, 4 and 8 after the first four failed attempts (the wait
  after a fifth would be the cap, 10) and gives up at the fifth, and the weather lookup is
  retried so: five transport failures end in \<^verbatim>\<open>RetryError\<close> after the waits 1, 2, 4, 8,
  and two failures followed by an answer give the answer after the waits 1, 2. The stream
  source is not: the wrapper around \<^verbatim>\<open>stream\<close> only ever obtains the generator, so no
  wait is slept and exactly one connection is made, whatever it does. A stream whose
  first connection is refused and whose second would deliver ends the source with
  \<^verbatim>\<open>TransportError\<close> at once, with nothing sent.
\<close>

theorem stream_is_not_retried:
  "map wait_exponential [1, 2, 3, 4, 5] = [1, 2, 4, 8, 10] \<and>
   get_current_temperature_for_coordinates http_down decimal_of_str_sample
     \<lparr>longitude = Float (25 / 2), latitude = Float 45\<rparr> = ([1, 2, 4, 8], Inl RetryError) \<and>
   get_current_temperature_for_coordinates http_third_time decimal_of_str_sample
     \<lparr>longitude = Float (25 / 2), latitude = Float 45\<rparr> = ([1, 2], Inr (Some (141 / 2))) \<and>
   observe_twitter_sample_stream connect =
     \<lparr>waits_slept = [], lines_sent = fst (connect 1), ended_with = snd (connect 1),
      connections_made = 1\<rparr> \<and>
   observe_twitter_sample_stream connect_second_time =
     \<lparr>waits_slept = [], lines_sent = [], ended_with = Some TransportError,
      connections_made = 1\<rparr>"
proof (intro conjI)
  show "map wait_exponential [1, 2, 3, 4, 5] = [1, 2, 4, 8, 10]"
    by (simp add: wait_exponential_def)
  show "get_current_temperature_for_coordinates http_down decimal_of_str_sample
     \<lparr>longitude = Float (25 / 2), latitude = Float 45\<rparr> = ([1, 2, 4, 8], Inl RetryError)"
    unfolding get_current_temperature_for_coordinates_def
    by (rule call_with_retry_exhausted) (simp add: lookup_attempt_def http_down_def)
  show "get_current_temperature_for_coordinates http_third_time decimal_of_str_sample
     \<lparr>longitude = Float (25 / 2), latitude = Float 45\<rparr> = ([1, 2], Inr (Some (141 / 2)))"
    by (simp add: get_current_temperature_for_coordinates_def call_with_retry.simps
      lookup_attempt_def http_third_time_def retry_if_exception_type_def stop_after_attempt_def
      wait_exponential_def temperature_of_response_def should_ignore_error_def
      raise_for_status_def is_success_def temperature_field_def response_70_5_def)
  have s: "stream c = ([], Inr (Generator c))" for c
    unfolding stream_def by (rule call_with_retry_returns) (simp add: stream_call_def)
  show "observe_twitter_sample_stream connect =
     \<lparr>waits_slept = [], lines_sent = fst (connect 1), ended_with = snd (connect 1),
      connections_made = 1\<rparr>"
    by (simp add: observe_twitter_sample_stream_def s split: prod.splits)
  show "observe_twitter_sample_stream connect_second_time =
     \<lparr>waits_slept = [], lines_sent = [], ended_with = Some TransportError,
      connections_made = 1\<rparr>"
    by (simp add: observe_twitter_sample_stream_def s connect_second_time_def)
qed

text \<open>
  C4. A response with status 400 whose body carries the error code 1006 (a dict with a dict
  under \<^verbatim>\<open>error\<close> whose \<^verbatim>\<open>code\<close> is 1006) makes the lookup return nothing, without a
  retry, and the resolver goes on with the records that follow. Every other response with a
  status outside 200 to 299, whatever its status and its body are, makes the lookup raise
  \<^verbatim>\<open>HTTPStatusError\<close>, or \<^verbatim>\<open>AttributeError\<close> for a malformed error body: the exception is
  raised at the first attempt, no wait is slept, and it ends the resolver. In particular
  status 400 with an error code that is an int other than 1006 raises \<^verbatim>\<open>HTTPStatusError\<close>.
\<close>

theorem no_match_is_skipped_other_statuses_raise:
  "(status_code r = 400 \<and> body r = Some (JObj obj) \<and> map_of obj ''error'' = Some (JObj err) \<and>
      map_of err ''code'' = Some c \<and> (c = JInt 1006 \<or> c = JReal 1006) \<and>
      http_get coords 1 = Inr r \<longrightarrow>
      get_current_temperature_for_coordinates http_get decimal_of_str coords = ([], Inr None) \<and>
      get_temperature (weather_client_of http_get decimal_of_str) ((timestamp, coords) # rest)
          ending to_file to_average =
        get_temperature (weather_client_of http_get decimal_of_str) rest ending
          to_file to_average) \<and>
   (\<not> is_success r \<and>
    \<not> (status_code r = 400 \<and>
       (\<exists>obj err c. body r = Some (JObj obj) \<and> map_of obj ''error'' = Some (JObj err) \<and>
          map_of err ''code'' = Some c \<and> (c = JInt 1006 \<or> c = JReal 1006))) \<and>
    http_get coords 1 = Inr r \<longrightarrow>
      (\<exists>e. (e = HTTPStatusError \<or> e = AttributeError) \<and>
           get_current_temperature_for_coordinates http_get decimal_of_str coords = ([], Inl e) \<and>
           get_temperature (weather_client_of http_get decimal_of_str) ((timestamp, coords) # rest)
               ending to_file to_average =
             (to_file, to_average, Some e))) \<and>
   (status_code r = 400 \<and> body r = Some (JObj obj) \<and> map_of obj ''error'' = Some (JObj err) \<and>
      map_of err ''code'' = Some (JInt n) \<and> n \<noteq> 1006 \<and> http_get coords 1 = Inr r \<longrightarrow>
      get_current_temperature_for_coordinates http_get decimal_of_str coords =
        ([], Inl HTTPStatusError))"
proof (intro conjI impI)
  assume a: "status_code r = 400 \<and> body r = Some (JObj obj) \<and>
      map_of obj ''error'' = Some (JObj err) \<and> map_of err ''code'' = Some c \<and>
      (c = JInt 1006 \<or> c = JReal 1006) \<and> http_get coords 1 = Inr r"
  then have "should_ignore_error r = Inr True"
    unfolding should_ignore_error_iff by blast
  then have "temperature_of_response decimal_of_str r = Inr None"
    by (simp add: temperature_of_response_def)
  with a have "lookup_attempt http_get decimal_of_str coords 1 = Inr None"
    by (simp add: lookup_attempt_def)
  then show got: "get_current_temperature_for_coordinates http_get decimal_of_str coords =
      ([], Inr None)"
    unfolding get_current_temperature_for_coordinates_def by (rule call_with_retry_returns)
  show "get_temperature (weather_client_of http_get decimal_of_str) ((timestamp, coords) # rest)
          ending to_file to_average =
        get_temperature (weather_client_of http_get decimal_of_str) rest ending
          to_file to_average"
    by (simp add: weather_client_of_def got)
next
  assume a: "\<not> is_success r \<and>
    \<not> (status_code r = 400 \<and>
       (\<exists>obj err c. body r = Some (JObj obj) \<and> map_of obj ''error'' = Some (JObj err) \<and>
          map_of err ''code'' = Some c \<and> (c = JInt 1006 \<or> c = JReal 1006))) \<and>
    http_get coords 1 = Inr r"
  then have "should_ignore_error r \<noteq> Inr True"
    unfolding should_ignore_error_iff by blast
  with a obtain e where e: "temperature_of_response decimal_of_str r = Inl e"
    and ne: "e = HTTPStatusError \<or> e = AttributeError"
    using temperature_of_response_other_status [of r decimal_of_str] by auto
  from ne have nt: "e \<noteq> TransportError" by auto
  from a e have "lookup_attempt http_get decimal_of_str coords 1 = Inl e"
    by (simp add: lookup_attempt_def)
  then have got: "get_current_temperature_for_coordinates http_get decimal_of_str coords =
      ([], Inl e)"
    unfolding get_current_temperature_for_coordinates_def
    using nt by (rule call_with_retry_reraises)
  then have "get_temperature (weather_client_of http_get decimal_of_str)
      ((timestamp, coords) # rest) ending to_file to_average = (to_file, to_average, Some e)"
    by (simp add: weather_client_of_def)
  with ne got show "\<exists>e. (e = HTTPStatusError \<or> e = AttributeError) \<and>
           get_current_temperature_for_coordinates http_get decimal_of_str coords = ([], Inl e) \<and>
           get_temperature (weather_client_of http_get decimal_of_str) ((timestamp, coords) # rest)
               ending to_file to_average =
             (to_file, to_average, Some e)"
    by blast
next
  assume a: "status_code r = 400 \<and> body r = Some (JObj obj) \<and>
      map_of obj ''error'' = Some (JObj err) \<and> map_of err ''code'' = Some (JInt n) \<and>
      n \<noteq> 1006 \<and> http_get coords 1 = Inr r"
  then have "temperature_of_response decimal_of_str r = Inl HTTPStatusError"
    by (intro temperature_of_response_other_code [of r obj err n]) simp_all
  with a have "lookup_attempt http_get decimal_of_str coords 1 = Inl HTTPStatusError"
    by (simp add: lookup_attempt_def)
  then show "get_current_temperature_for_coordinates http_get decimal_of_str coords =
        ([], Inl HTTPStatusError)"
    unfolding get_current_temperature_for_coordinates_def
    by (rule call_with_retry_reraises) simp
qed

theorem no_match_is_skipped_other_statuses_raise_witness:
  "status_code response_no_match = 400 \<and>
   body response_no_match = Some (JObj [(''error'',
     JObj [(''code'', JInt 1006), (''message'', JStr ''No matching location found.'')])]) \<and>
   get_current_temperature_for_coordinates http_no_place_at_zero decimal_of_str_sample
     \<lparr>longitude = Float 0, latitude = Float 0\<rparr> = ([], Inr None) \<and>
   get_temperature (weather_client_of http_no_place_at_zero decimal_of_str_sample)
     [(''t1'', \<lparr>longitude = Float 0, latitude = Float 0\<rparr>),
      (''t2'', \<lparr>longitude = Float (25 / 2), latitude = Float 45\<rparr>)]
     None (open_channel None) (open_channel None) =
     (\<lparr>raises_at = None, delivered = [(''t2'', 141 / 2)]\<rparr>,
      \<lparr>raises_at = None, delivered = [(''t2'', 141 / 2)]\<rparr>, None) \<and>
   \<not> is_success response_500 \<and> status_code response_500 \<noteq> 400 \<and>
   get_current_temperature_for_coordinates (http_answering response_500) decimal_of_str_sample
     \<lparr>longitude = Float 0, latitude = Float 0\<rparr> = ([], Inl HTTPStatusError) \<and>
   get_temperature (weather_client_of (http_answering response_500) decimal_of_str_sample)
     [(''t1'', \<lparr>longitude = Float 0, latitude = Float 0\<rparr>),
      (''t2'', \<lparr>longitude = Float (25 / 2), latitude = Float 45\<rparr>)]
     None (open_channel None) (open_channel None) =
     (open_channel None, open_channel None, Some HTTPStatusError) \<and>
   \<not> is_success response_404_no_match \<and> status_code response_404_no_match \<noteq> 400 \<and>
   get_current_temperature_for_coordinates (http_answering response_404_no_match)
     decimal_of_str_sample \<lparr>longitude = Float 0, latitude = Float 0\<rparr> =
     ([], Inl HTTPStatusError) \<and>
   status_code response_invalid_key = 400 \<and>
   body response_invalid_key = Some (JObj [(''error'',
     JObj [(''code'', JInt 2006), (''message'', JStr ''API key provided is invalid'')])]) \<and>
   (2006::int) \<noteq> 1006 \<and>
   get_current_temperature_for_coordinates (http_answering response_invalid_key)
     decimal_of_str_sample \<lparr>longitude = Float 0, latitude = Float 0\<rparr> =
     ([], Inl HTTPStatusError)"
proof -
  let ?zero = "\<lparr>longitude = Float 0, latitude = Float 0\<rparr>"
  let ?rest = "[(''t2'', \<lparr>longitude = Float (25 / 2), latitude = Float 45\<rparr>)]"
  let ?wc = "weather_client_of http_no_place_at_zero decimal_of_str_sample"
  let ?wc5 = "weather_client_of (http_answering response_500) decimal_of_str_sample"
  let ?ch = "open_channel None :: (string \<times> rat) channel"
  let ?err = "[(''code'', JInt 1006), (''message'', JStr ''No matching location found.'')]"
  let ?err2 = "[(''code'', JInt 2006), (''message'', JStr ''API key provided is invalid'')]"
  note skip = no_match_is_skipped_other_statuses_raise
    [where r = response_no_match and http_get = http_no_place_at_zero and coords = ?zero
       and obj = "[(''error'', JObj ?err)]" and err = ?err and c = "JInt 1006"
       and decimal_of_str = decimal_of_str_sample and timestamp = "''t1''" and rest = ?rest
       and ending = None and to_file = ?ch and to_average = ?ch,
     THEN conjunct1, rule_format]
  note fatal = no_match_is_skipped_other_statuses_raise
    [where http_get = "http_answering response_500" and r = response_500 and coords = ?zero
       and decimal_of_str = decimal_of_str_sample and timestamp = "''t1''" and rest = ?rest
       and ending = None and to_file = ?ch and to_average = ?ch,
     THEN conjunct2, THEN conjunct1, rule_format]
  note fatal404 = no_match_is_skipped_other_statuses_raise
    [where http_get = "http_answering response_404_no_match" and r = response_404_no_match
       and coords = ?zero
       and decimal_of_str = decimal_of_str_sample and timestamp = "''t1''" and rest = ?rest
       and ending = None and to_file = ?ch and to_average = ?ch,
     THEN conjunct2, THEN conjunct1, rule_format]
  note other = no_match_is_skipped_other_statuses_raise
    [where r = response_invalid_key and http_get = "http_answering response_invalid_key"
       and coords = ?zero and obj = "[(''error'', JObj ?err2)]" and err = ?err2 and n = 2006
       and decimal_of_str = decimal_of_str_sample,
     THEN conjunct2, THEN conjunct2, rule_format]
  have st: "status_code response_no_match = 400"
    and bd: "body response_no_match = Some (JObj [(''error'', JObj ?err)])"
    by (simp_all add: response_no_match_def)
  have h1: "status_code response_no_match = 400 \<and>
      body response_no_match = Some (JObj [(''error'', JObj ?err)]) \<and>
      map_of [(''error'', JObj ?err)] ''error'' = Some (JObj ?err) \<and>
      map_of ?err ''code'' = Some (JInt 1006) \<and>
      (JInt 1006 = JInt 1006 \<or> JInt 1006 = JReal 1006) \<and>
      http_no_place_at_zero ?zero 1 = Inr response_no_match"
    by (simp add: response_no_match_def http_no_place_at_zero_def)
  have a: "get_current_temperature_for_coordinates http_no_place_at_zero decimal_of_str_sample
     ?zero = ([], Inr None)"
    using skip [OF h1] by (rule conjunct1)
  have b: "get_temperature ?wc ((''t1'', ?zero) # ?rest) None ?ch ?ch =
      get_temperature ?wc ?rest None ?ch ?ch"
    using skip [OF h1] by (rule conjunct2)
  have wc2: "?wc \<lparr>longitude = Float (25 / 2), latitude = Float 45\<rparr> = Inr (Some (141 / 2))"
    by (simp add: weather_client_of_def get_current_temperature_for_coordinates_def
      call_with_retry.simps lookup_attempt_def http_no_place_at_zero_def response_70_5_def
      temperature_of_response_def should_ignore_error_def raise_for_status_def is_success_def
      temperature_field_def)
  have c: "get_temperature ?wc ?rest None ?ch ?ch =
     (\<lparr>raises_at = None, delivered = [(''t2'', 141 / 2)]\<rparr>,
      \<lparr>raises_at = None, delivered = [(''t2'', 141 / 2)]\<rparr>, None)"
    by (simp add: wc2 send_def open_channel_def)
  have ns: "\<not> is_success response_500" and n4: "status_code response_500 \<noteq> 400"
    by (simp_all add: response_500_def is_success_def)
  have h2: "\<not> is_success response_500 \<and>
    \<not> (status_code response_500 = 400 \<and>
       (\<exists>obj err c. body response_500 = Some (JObj obj) \<and> map_of obj ''error'' = Some (JObj err) \<and>
          map_of err ''code'' = Some c \<and> (c = JInt 1006 \<or> c = JReal 1006))) \<and>
    http_answering response_500 ?zero 1 = Inr response_500"
    using ns n4 by (simp add: http_answering_def)
  from fatal [OF h2] obtain e where
    e0: "e = HTTPStatusError \<or> e = AttributeError" and
    e1: "get_current_temperature_for_coordinates (http_answering response_500)
           decimal_of_str_sample ?zero = ([], Inl e)"
    and e2: "get_temperature ?wc5 ((''t1'', ?zero) # ?rest) None ?ch ?ch = (?ch, ?ch, Some e)"
    by blast
  have t5: "temperature_of_response decimal_of_str_sample response_500 = Inl HTTPStatusError"
    by (simp add: temperature_of_response_def should_ignore_error_def response_500_def
        raise_for_status_def is_success_def)
  have "get_current_temperature_for_coordinates (http_answering response_500)
      decimal_of_str_sample ?zero = ([], Inl HTTPStatusError)"
    by (simp add: get_current_temperature_for_coordinates_def call_with_retry.simps
        lookup_attempt_def http_answering_def t5 retry_if_exception_type_def)
  with e1 have e: "e = HTTPStatusError" by simp
  have ns4: "\<not> is_success response_404_no_match"
    and n44: "status_code response_404_no_match \<noteq> 400"
    by (simp_all add: response_404_no_match_def is_success_def)
  have h3: "\<not> is_success response_404_no_match \<and>
    \<not> (status_code response_404_no_match = 400 \<and>
       (\<exists>obj err c. body response_404_no_match = Some (JObj obj) \<and>
          map_of obj ''error'' = Some (JObj err) \<and>
          map_of err ''code'' = Some c \<and> (c = JInt 1006 \<or> c = JReal 1006))) \<and>
    http_answering response_404_no_match ?zero 1 = Inr response_404_no_match"
    using ns4 n44 by (simp add: http_answering_def)
  from fatal404 [OF h3] obtain e' where
    e'1: "get_current_temperature_for_coordinates (http_answering response_404_no_match)
           decimal_of_str_sample ?zero = ([], Inl e')"
    by blast
  have t4: "temperature_of_response decimal_of_str_sample response_404_no_match =
      Inl HTTPStatusError"
    by (simp add: temperature_of_response_def should_ignore_error_def response_404_no_match_def
        raise_for_status_def is_success_def)
  have "get_current_temperature_for_coordinates (http_answering response_404_no_match)
      decimal_of_str_sample ?zero = ([], Inl HTTPStatusError)"
    by (simp add: get_current_temperature_for_coordinates_def call_with_retry.simps
        lookup_attempt_def http_answering_def t4 retry_if_exception_type_def)
  with e'1 have e': "e' = HTTPStatusError" by simp
  have st2: "status_code response_invalid_key = 400"
    and bd2: "body response_invalid_key = Some (JObj [(''error'', JObj ?err2)])"
    by (simp_all add: response_invalid_key_def)
  have h4: "status_code response_invalid_key = 400 \<and>
      body response_invalid_key = Some (JObj [(''error'', JObj ?err2)]) \<and>
      map_of [(''error'', JObj ?err2)] ''error'' = Some (JObj ?err2) \<and>
      map_of ?err2 ''code'' = Some (JInt 2006) \<and> (2006::int) \<noteq> 1006 \<and>
      http_answering response_invalid_key ?zero 1 = Inr response_invalid_key"
    by (simp add: response_invalid_key_def http_answering_def)
  note o = other [OF h4]
  have ne: "(2006::int) \<noteq> 1006" by simp
  from st bd a b c ns n4 e1 e2 e ns4 n44 e'1 e' st2 bd2 ne o show ?thesis
    by (simp del: get_temperature.simps)
qed

text \<open>
  C7. On a response with status 200 the lookup returns the \<^verbatim>\<open>temp_f\<close> field when it is
  a JSON number with a fraction (decoded to a Decimal) or a string that converts, and returns
  nothing when the field is missing or is a string that does not convert. But a JSON
  integer, which is numeric, is also answered with nothing: it is decoded to an \<^verbatim>\<open>int\<close>,
  which is neither a \<^verbatim>\<open>Decimal\<close> nor a \<^verbatim>\<open>str\<close>. And where \<^verbatim>\<open>current\<close> is not an
  object, the field is missing and the lookup raises \<^verbatim>\<open>AttributeError\<close>.
\<close>

theorem integer_temperature_is_dropped:
  "temperature_of_response decimal_of_str_sample
     \<lparr>status_code = 200,
      body = Some (JObj [(''current'', JObj [(''temp_f'', JReal (141 / 2))])])\<rparr> =
     Inr (Some (141 / 2)) \<and>
   temperature_of_response decimal_of_str_sample
     \<lparr>status_code = 200,
      body = Some (JObj [(''current'', JObj [(''temp_f'', JStr ''70.5'')])])\<rparr> =
     Inr (Some (141 / 2)) \<and>
   temperature_of_response decimal_of_str_sample
     \<lparr>status_code = 200, body = Some (JObj [(''current'', JObj [(''humidity'', JInt 40)])])\<rparr> =
     Inr None \<and>
   temperature_of_response decimal_of_str_sample
     \<lparr>status_code = 200,
      body = Some (JObj [(''current'', JObj [(''temp_f'', JStr ''warm'')])])\<rparr> =
     Inr None \<and>
   temperature_of_response decimal_of_str_sample
     \<lparr>status_code = 200,
      body = Some (JObj [(''current'', JObj [(''temp_f'', JInt 72)])])\<rparr> =
     Inr None \<and>
   temperature_of_response decimal_of_str_sample
     \<lparr>status_code = 200, body = Some (JObj [(''current'', JNull)])\<rparr> =
     Inl AttributeError"
  by (simp add: temperature_of_response_def should_ignore_error_def raise_for_status_def
        is_success_def temperature_field_def decimal_of_str_sample_def)

section \<open>Properties of the resolver and the sinks\<close>

lemma send_raises_at:
  "send ch x = Inl e \<Longrightarrow> raises_at ch = Some (length (delivered ch), e)"
  by (auto simp: send_def split: option.splits if_splits)

lemma get_temperature_fan_out:
  assumes "get_temperature wc received ending f a = (f', a', err)"
  shows "\<exists>sent extra more.
           delivered a' = delivered a @ sent \<and>
           delivered f' = delivered f @ sent @ extra \<and>
           length extra \<le> 1 \<and>
           (extra \<noteq> [] \<longrightarrow>
              (\<exists>e. raises_at a = Some (length (delivered a @ sent), e) \<and> err = Some e)) \<and>
           resolved wc received = sent @ extra @ more \<and>
           (err = None \<longrightarrow> more = []) \<and>
           (raises_at f = None \<and> raises_at a = None \<longrightarrow> extra = [] \<and> more = [])"
  using assms
proof (induction received arbitrary: f a)
  case Nil
  then show ?case by simp
next
  case (Cons x rest)
  obtain timestamp coords where x: "x = (timestamp, coords)" by (cases x)
  show ?case
  proof (cases "wc coords")
    case (Inl e)
    with Cons.prems have "f' = f" "a' = a" "err = Some e" by (simp_all add: x)
    then show ?thesis
      using Inl by (intro exI [of _ "[]"]) (simp add: x)
  next
    case (Inr found)
    show ?thesis
    proof (cases found)
      case None
      with Inr Cons.prems have "get_temperature wc rest ending f a = (f', a', err)"
        by (simp add: x)
      from Cons.IH [OF this] show ?thesis using Inr None by (simp add: x)
    next
      case (Some temperature)
      let ?d = "(timestamp, temperature)"
      show ?thesis
      proof (cases "send f ?d")
        case (Inl e)
        with Cons.prems Inr Some have r: "f' = f" "a' = a" "err = Some e" by (simp_all add: x)
        from Inl have "raises_at f \<noteq> None" by (auto dest: send_raises_at)
        with r Inr Some show ?thesis
          by (intro exI [of _ "[]"] exI [of _ "?d # resolved wc rest"]) (simp add: x)
      next
        case f1: (Inr f1)
        from f1 have f1': "f1 = f\<lparr>delivered := delivered f @ [?d]\<rparr>" by (rule send_delivers)
        show ?thesis
        proof (cases "send a ?d")
          case (Inl e)
          with Cons.prems Inr Some f1 have r: "f' = f1" "a' = a" "err = Some e"
            by (simp_all add: x)
          from Inl have closed: "raises_at a = Some (length (delivered a), e)"
            by (rule send_raises_at)
          with r f1' Inr Some show ?thesis
            by (intro exI [of _ "[]"] exI [of _ "[?d]"] exI [of _ "resolved wc rest"])
               (simp add: x)
        next
          case a1: (Inr a1)
          from a1 have a1': "a1 = a\<lparr>delivered := delivered a @ [?d]\<rparr>" by (rule send_delivers)
          from Cons.prems Inr Some f1 a1 have "get_temperature wc rest ending f1 a1 = (f', a', err)"
            by (simp add: x)
          from Cons.IH [OF this] obtain sent extra more where
            ih: "delivered a' = delivered a1 @ sent" "delivered f' = delivered f1 @ sent @ extra"
              "length extra \<le> 1"
              "extra \<noteq> [] \<longrightarrow>
                 (\<exists>e. raises_at a1 = Some (length (delivered a1 @ sent), e) \<and> err = Some e)"
              "resolved wc rest = sent @ extra @ more" "err = None \<longrightarrow> more = []"
              "raises_at f1 = None \<and> raises_at a1 = None \<longrightarrow> extra = [] \<and> more = []"
            by blast
          from ih f1' a1' Inr Some show ?thesis
            by (intro exI [of _ "?d # sent"] exI [of _ extra] exI [of _ more]) (simp add: x)
        qed
      qed
    qed
  qed
qed

lemma weather_ok_70_5:
  "weather_client_of http_ok decimal_of_str_sample coords = Inr (Some (141 / 2))"
  by (simp add: weather_client_of_def get_current_temperature_for_coordinates_def
      call_with_retry.simps lookup_attempt_def http_ok_def response_70_5_def
      temperature_of_response_def should_ignore_error_def raise_for_status_def is_success_def
      temperature_field_def)

text \<open>
  C2 (as amended). Each record the lookup resolves is sent to the file channel first and
  then to the averaging channel, once each and in arrival order. What the averaging channel
  has been given is always what the file channel has been given, less at most its last
  record; both are a prefix of the resolved records, and all of them when the resolver ends
  without an exception. The two differ only when the send to the averaging channel raised,
  after the file channel had taken the record: the averaging channel's receiver had closed
  (\<^verbatim>\<open>BrokenResourceError\<close>) or the resolver was cancelled at that send (\<^verbatim>\<open>Cancelled\<close>);
  that exception ends the resolver. When no send raises, both channels are given exactly
  the resolved records.
\<close>

theorem fan_out_file_then_average:
  assumes "get_temperature weather_client received ending
             (open_channel file_raises) (open_channel average_raises) =
           (to_file, to_average, err)"
  shows "(\<exists>extra more. delivered to_file = delivered to_average @ extra \<and> length extra \<le> 1 \<and>
            resolved weather_client received = delivered to_file @ more \<and>
            (err = None \<longrightarrow> more = [])) \<and>
         (delivered to_file \<noteq> delivered to_average \<longrightarrow>
            (\<exists>e. average_raises = Some (length (delivered to_average), e) \<and> err = Some e)) \<and>
         (file_raises = None \<and> average_raises = None \<longrightarrow>
            delivered to_file = resolved weather_client received \<and>
            delivered to_average = resolved weather_client received)"
proof -
  from get_temperature_fan_out [OF assms] obtain sent extra more where
    "delivered to_average = sent" "delivered to_file = sent @ extra" "length extra \<le> 1"
    "extra \<noteq> [] \<longrightarrow> (\<exists>e. average_raises = Some (length sent, e) \<and> err = Some e)"
    "resolved weather_client received = sent @ extra @ more" "err = None \<longrightarrow> more = []"
    "file_raises = None \<and> average_raises = None \<longrightarrow> extra = [] \<and> more = []"
    by (auto simp: open_channel_def)
  then show ?thesis by auto
qed

theorem fan_out_file_then_average_witness:
  "get_temperature (weather_client_of http_ok decimal_of_str_sample)
     [(''t1'', \<lparr>longitude = Float (25 / 2), latitude = Float 45\<rparr>),
      (''t2'', \<lparr>longitude = Float 3, latitude = Float 4\<rparr>)]
     None (open_channel None) (open_channel None) =
     (\<lparr>raises_at = None, delivered = [(''t1'', 141 / 2), (''t2'', 141 / 2)]\<rparr>,
      \<lparr>raises_at = None, delivered = [(''t1'', 141 / 2), (''t2'', 141 / 2)]\<rparr>, None) \<and>
   resolved (weather_client_of http_ok decimal_of_str_sample)
     [(''t1'', \<lparr>longitude = Float (25 / 2), latitude = Float 45\<rparr>),
      (''t2'', \<lparr>longitude = Float 3, latitude = Float 4\<rparr>)] =
     [(''t1'', 141 / 2), (''t2'', 141 / 2)] \<and>
   delivered \<lparr>raises_at = None, delivered = [(''t1'', 141 / 2 :: rat), (''t2'', 141 / 2)]\<rparr> =
     resolved (weather_client_of http_ok decimal_of_str_sample)
     [(''t1'', \<lparr>longitude = Float (25 / 2), latitude = Float 45\<rparr>),
      (''t2'', \<lparr>longitude = Float 3, latitude = Float 4\<rparr>)]"
proof -
  let ?received = "[(''t1'', \<lparr>longitude = Float (25 / 2), latitude = Float 45\<rparr>),
                    (''t2'', \<lparr>longitude = Float 3, latitude = Float 4\<rparr>)]"
  let ?ch = "\<lparr>raises_at = None, delivered = [(''t1'', 141 / 2 :: rat), (''t2'', 141 / 2)]\<rparr>"
  have run: "get_temperature (weather_client_of http_ok decimal_of_str_sample) ?received None
     (open_channel None) (open_channel None) = (?ch, ?ch, None)"
    by (simp add: weather_ok_70_5 send_def open_channel_def)
  have open_both: "(None :: (nat \<times> exn) option) = None \<and> (None :: (nat \<times> exn) option) = None"
    by simp
  from fan_out_file_then_average [OF run, THEN conjunct2, THEN conjunct2, rule_format, OF open_both]
  have same: "delivered ?ch = resolved (weather_client_of http_ok decimal_of_str_sample) ?received"
    by (rule conjunct1)
  have res: "resolved (weather_client_of http_ok decimal_of_str_sample) ?received =
      [(''t1'', 141 / 2), (''t2'', 141 / 2)]"
    by (simp add: weather_ok_70_5)
  from run res same show ?thesis by (intro conjI)
qed

text \<open>
  C2 as stated fails: when the averaging channel's receiver has closed and the file
  channel's has not, the record is delivered to the file channel and not to the averaging
  channel; and so it is when the resolver is cancelled between the two sends.
\<close>

theorem record_reaches_file_only:
  "get_temperature (weather_client_of http_ok decimal_of_str_sample)
     [(''t1'', \<lparr>longitude = Float (25 / 2), latitude = Float 45\<rparr>)]
     None (open_channel None) (open_channel (Some (0, BrokenResourceError))) =
     (\<lparr>raises_at = None, delivered = [(''t1'', 141 / 2)]\<rparr>,
      \<lparr>raises_at = Some (0, BrokenResourceError), delivered = []\<rparr>, Some BrokenResourceError) \<and>
   get_temperature (weather_client_of http_ok decimal_of_str_sample)
     [(''t1'', \<lparr>longitude = Float (25 / 2), latitude = Float 45\<rparr>)]
     None (open_channel None) (open_channel (Some (0, Cancelled))) =
     (\<lparr>raises_at = None, delivered = [(''t1'', 141 / 2)]\<rparr>,
      \<lparr>raises_at = Some (0, Cancelled), delivered = []\<rparr>, Some Cancelled)"
  by (simp add: weather_ok_70_5 send_def open_channel_def)

subsection \<open>The text of a record\<close>

definition plain :: "char \<Rightarrow> bool" where
  "plain c \<longleftrightarrow> is_ascii c \<and> c \<noteq> CHR 0x0A"

lemma plain_literal:
  "list_all plain ''-''" "list_all plain ''+''" "list_all plain '':''" "list_all plain ''.''"
  "list_all plain '' ''" "list_all plain '',''" "list_all plain ''0''" "list_all plain ''E''"
  "list_all plain ''Infinity''" "list_all plain ''NaN''" "list_all plain ''sNaN''"
  by (simp_all add: plain_def is_ascii_def)

lemma plain_digit_char: "n < 10 \<Longrightarrow> plain (digit_char n)"
proof -
  assume "n < 10"
  then have "n \<in> {0, 1, 2, 3, 4, 5, 6, 7, 8, 9}" by auto
  then show ?thesis by (auto simp: digit_char_def plain_def is_ascii_def)
qed

lemma plain_show_nat: "list_all plain (show_nat n)"
proof (induction n rule: show_nat.induct)
  case (1 n)
  show ?case
  proof (cases "n < 10")
    case True
    then show ?thesis by (simp add: show_nat.simps [of n] plain_digit_char)
  next
    case False
    with 1 have "list_all plain (show_nat (n div 10))" by simp
    moreover have "plain (digit_char (n mod 10))" by (rule plain_digit_char) simp
    ultimately show ?thesis using False by (simp add: show_nat.simps [of n])
  qed
qed

lemma plain_replicate: "plain c \<Longrightarrow> list_all plain (replicate n c)"
  by (induction n) simp_all

lemma plain_zero: "plain CHR ''0''"
  by (simp add: plain_def is_ascii_def)

lemma plain_pad: "list_all plain s \<Longrightarrow> list_all plain (pad w s)"
  by (simp add: pad_def plain_replicate plain_zero)

lemma plain_format_offset: "list_all plain (format_offset off)"
  using plain_literal by (simp add: format_offset_def Let_def plain_pad plain_show_nat)

lemma plain_str_datetime: "list_all plain (str_datetime t)"
  using plain_literal
  by (simp add: str_datetime_def plain_pad plain_show_nat plain_format_offset split: option.splits)

lemma plain_take_drop:
  "list_all plain s \<Longrightarrow> list_all plain (take n s) \<and> list_all plain (drop n s)"
  by (auto simp: list_all_iff dest: in_set_takeD in_set_dropD)

lemma plain_str_finite: "list_all plain (str_finite c e)"
  using plain_literal plain_take_drop [OF plain_show_nat]
  by (simp add: str_finite_def Let_def plain_show_nat plain_replicate plain_zero)

lemma plain_str_decimal: "list_all plain (str_decimal d)"
  using plain_literal
  by (cases d)
     (simp_all add: sign_text_def payload_text_def plain_str_finite plain_show_nat)

lemma plain_line: "list_all plain (str_datetime t @ '','' @ str_decimal d)"
  using plain_literal by (simp add: plain_str_datetime plain_str_decimal)

lemma write_loop_concat:
  "write_loop out items = out @ concat (map record_line items)"
  by (induction items arbitrary: out) simp_all

lemma text_lines_line:
  "CHR 0x0A \<notin> set l \<Longrightarrow> text_lines acc (l @ CHR 0x0A # rest) = (acc @ l) # text_lines [] rest"
  by (induction l arbitrary: acc) auto

lemma text_lines_concat:
  "\<forall>l\<in>set ls. CHR 0x0A \<notin> set l \<Longrightarrow>
   text_lines [] (concat (map (\<lambda>l. l @ [CHR 0x0A]) ls)) = ls"
  by (induction ls) (simp_all add: text_lines_line)

lemma replicate_numeral: "replicate (numeral k) x = x # replicate (pred_numeral k) x"
  by (simp add: numeral_eq_Suc)

lemma str_examples:
  "str_datetime \<lparr>year = 2021, month = 3, day = 2, hour = 12, minute = 0, second = 0,
                 microsecond = 0, utcoffset = Some 0\<rparr> = ''2021-03-02 12:00:00+00:00''"
  "str_datetime \<lparr>year = 2021, month = 3, day = 2, hour = 12, minute = 0, second = 7,
                 microsecond = 123, utcoffset = Some (- 19800)\<rparr> =
     ''2021-03-02 12:00:07.000123-05:30''"
  "str_datetime \<lparr>year = 2021, month = 3, day = 2, hour = 12, minute = 0, second = 0,
                 microsecond = 0, utcoffset = None\<rparr> = ''2021-03-02 12:00:00''"
  "str_decimal (Finite False 705 (- 1)) = ''70.5''"
  "str_decimal (Finite False 7050 (- 2)) = ''70.50''"
  "str_decimal (Finite True 15 (- 1)) = ''-1.5''"
  "str_decimal (Finite False 1 (- 7)) = ''1E-7''"
  "str_decimal (Finite False 5 (- 7)) = ''5E-7''"
  "str_decimal (Finite False 12345 (- 10)) = ''0.0000012345''"
  "str_decimal (Finite False 12345 (- 11)) = ''1.2345E-7''"
  "str_decimal (Finite False 10 1) = ''1.0E+2''"
  "str_decimal (Finite False 0 (- 10)) = ''0E-10''"
  "str_decimal (Infinite True) = ''-Infinity''"
  "str_decimal (Quiet False 123) = ''NaN123''"
  by (simp_all add: str_datetime_def format_offset_def pad_def show_nat.simps digit_char_def
      str_finite_def sign_text_def payload_text_def Let_def replicate_numeral)

text \<open>
  C9 (as amended). The file a sink leaves holds, whatever it held before, exactly the
  records received, in arrival order, one line each and nothing else: the text of the
  timestamp, a comma, the text of the value and a line feed, all in ASCII. The text of the
  timestamp is the date, a space, the time, the microseconds when they are not zero, and
  the offset from UTC when the timestamp has one (\<open>str_datetime\<close>); the text of the value is
  what \<^verbatim>\<open>str\<close> gives for the Decimal (\<open>str_decimal\<close>), in plain or in scientific notation.
\<close>

theorem write_data_lines:
  "write_data data_source old_content =
     concat (map (\<lambda>item. str_datetime (fst item) @ '','' @ str_decimal (snd item) @ [CHR 0x0A])
               data_source) \<and>
   text_lines [] (write_data data_source old_content) =
     map (\<lambda>item. str_datetime (fst item) @ '','' @ str_decimal (snd item)) data_source \<and>
   list_all is_ascii (write_data data_source old_content) \<and>
   write_data
     [(\<lparr>year = 2021, month = 3, day = 2, hour = 12, minute = 0, second = 0,
        microsecond = 0, utcoffset = Some 0\<rparr>, Finite False 705 (- 1)),
      (\<lparr>year = 2021, month = 3, day = 2, hour = 12, minute = 0, second = 7,
        microsecond = 123, utcoffset = Some (- 19800)\<rparr>, Finite False 5 (- 7))]
     ''left over from an earlier run'' =
     ''2021-03-02 12:00:00+00:00,70.5'' @ [CHR 0x0A] @
     ''2021-03-02 12:00:07.000123-05:30,5E-7'' @ [CHR 0x0A]"
proof (intro conjI)
  let ?ls = "map (\<lambda>item. str_datetime (fst item) @ '','' @ str_decimal (snd item)) data_source"
  show c: "write_data data_source old_content =
     concat (map (\<lambda>item. str_datetime (fst item) @ '','' @ str_decimal (snd item) @ [CHR 0x0A])
               data_source)"
    by (simp add: write_data_def write_loop_concat record_line_def [abs_def])
  have pl: "\<forall>l\<in>set ?ls. list_all plain l" using plain_line by auto
  then have "\<forall>l\<in>set ?ls. CHR 0x0A \<notin> set l" by (auto simp: list_all_iff plain_def)
  then have "text_lines [] (concat (map (\<lambda>l. l @ [CHR 0x0A]) ?ls)) = ?ls"
    by (rule text_lines_concat)
  moreover have cc: "concat (map (\<lambda>l. l @ [CHR 0x0A]) ?ls) =
      concat (map (\<lambda>item. str_datetime (fst item) @ '','' @ str_decimal (snd item) @ [CHR 0x0A])
               data_source)"
    by (simp add: comp_def)
  ultimately show "text_lines [] (write_data data_source old_content) = ?ls"
    by (simp only: c)
  have "list_all is_ascii (concat (map (\<lambda>l. l @ [CHR 0x0A]) ?ls))"
    using pl by (auto simp: list_all_iff plain_def is_ascii_def)
  then show "list_all is_ascii (write_data data_source old_content)" by (simp only: c cc)
  show "write_data
     [(\<lparr>year = 2021, month = 3, day = 2, hour = 12, minute = 0, second = 0,
        microsecond = 0, utcoffset = Some 0\<rparr>, Finite False 705 (- 1)),
      (\<lparr>year = 2021, month = 3, day = 2, hour = 12, minute = 0, second = 7,
        microsecond = 123, utcoffset = Some (- 19800)\<rparr>, Finite False 5 (- 7))]
     ''left over from an earlier run'' =
     ''2021-03-02 12:00:00+00:00,70.5'' @ [CHR 0x0A] @
     ''2021-03-02 12:00:07.000123-05:30,5E-7'' @ [CHR 0x0A]"
    by (simp add: write_data_def record_line_def str_examples del: str_decimal.simps)
qed

text \<open>
  C9 as stated fails: the text of the timestamp is not in the form of ISO 8601, which joins
  date and time by the letter T. The sink writes a space there.
\<close>

theorem timestamp_text_has_no_T:
  "write_data
     [(\<lparr>year = 2021, month = 3, day = 2, hour = 12, minute = 0, second = 0,
        microsecond = 0, utcoffset = Some 0\<rparr>, Finite False 705 (- 1))] [] =
     ''2021-03-02 12:00:00+00:00,70.5'' @ [CHR 0x0A] \<and>
   str_datetime \<lparr>year = 2021, month = 3, day = 2, hour = 12, minute = 0, second = 0,
                 microsecond = 0, utcoffset = Some 0\<rparr> ! 10 = CHR '' '' \<and>
   \<not> iso_8601_separator
       (str_datetime \<lparr>year = 2021, month = 3, day = 2, hour = 12, minute = 0, second = 0,
                       microsecond = 0, utcoffset = Some 0\<rparr>)"
  by (simp add: write_data_def record_line_def str_examples iso_8601_separator_def
      del: str_decimal.simps)

end
